(* ===== verification/Prelude.thy ===== *)
theory Prelude
  imports Main "HOL-Library.While_Combinator"
begin

text \<open>
  Shared vocabulary of the development: the Python exceptions the script can raise,
  Python 2 byte-string operations used by the path, glob and configuration code
  (\<open>rfind\<close>, slicing, \<open>rstrip\<close>, \<open>split\<close>, \<open>join\<close>, \<open>replace\<close>, \<open>lower\<close>), and the
  generic lemmas on them that the component theories use through the
  \<open>pystr_simps\<close> collection.  Python strings of the script are byte strings, so a
  \<open>string\<close> (a list of 8-bit \<open>char\<close>s) is the faithful type.
\<close>

named_theorems pystr_simps "rewrite rules for the Python string helpers"
named_theorems path_simps "evaluation rules for the os.path models"

subsection \<open>Python exceptions\<close>

text \<open>
  The exceptions the script can raise: \<open>OSError\<close> (\<open>os.error\<close>) from \<open>getmtime\<close>
  and from spawning the converter, \<open>AttributeError\<close> from calling \<open>.get\<close> on
  \<open>None\<close>, \<open>SystemExit\<close> from \<open>exit(1)\<close>, and \<open>re.error\<close> from compiling a
  glob pattern with a bad character range.
\<close>

datatype py_exc = OSError | AttributeError | SystemExit int | ReError

subsection \<open>String helpers\<close>

text \<open>\<open>s.rfind(c)\<close>: the index of the last occurrence of \<open>c\<close>, or \<open>-1\<close>.\<close>

fun rfind :: "char \<Rightarrow> string \<Rightarrow> int" where
  "rfind c [] = -1"
| "rfind c (x # xs) =
     (let r = rfind c xs in if 0 \<le> r then r + 1 else if x = c then 0 else -1)"

text \<open>\<open>s.find(c, start)\<close> for a start index inside the string: first index \<open>\<ge> start\<close>.\<close>

fun find_from :: "char \<Rightarrow> string \<Rightarrow> nat \<Rightarrow> int" where
  "find_from c [] i = -1"
| "find_from c (x # xs) i =
     (if i = 0 \<and> x = c then 0
      else let r = find_from c xs (i - 1) in if 0 \<le> r then r + 1 else -1)"

text \<open>\<open>s.rstrip(cs)\<close> and \<open>s.lstrip(cs)\<close> for a set of characters.\<close>

definition rstrip :: "char set \<Rightarrow> string \<Rightarrow> string" where
  "rstrip cs s = rev (dropWhile (\<lambda>x. x \<in> cs) (rev s))"

definition lstrip :: "char set \<Rightarrow> string \<Rightarrow> string" where
  "lstrip cs s = dropWhile (\<lambda>x. x \<in> cs) s"

text \<open>\<open>s.startswith(c)\<close> and \<open>s.endswith(c)\<close> for a one-character argument.\<close>

definition starts_with :: "char \<Rightarrow> string \<Rightarrow> bool" where
  "starts_with c s \<longleftrightarrow> s \<noteq> [] \<and> hd s = c"

definition ends_with :: "char \<Rightarrow> string \<Rightarrow> bool" where
  "ends_with c s \<longleftrightarrow> s \<noteq> [] \<and> last s = c"

text \<open>\<open>s.split(c)\<close> with a one-character separator: never an empty list.\<close>

fun str_split :: "char \<Rightarrow> string \<Rightarrow> string list" where
  "str_split c [] = [[]]"
| "str_split c (x # xs) =
     (case str_split c xs of
        [] \<Rightarrow> [[x]]
      | w # ws \<Rightarrow> (if x = c then [] # w # ws else (x # w) # ws))"

text \<open>\<open>sep.join(ws)\<close>.\<close>

fun str_join :: "string \<Rightarrow> string list \<Rightarrow> string" where
  "str_join sep [] = []"
| "str_join sep [w] = w"
| "str_join sep (w # v # ws) = w @ sep @ str_join sep (v # ws)"

text \<open>\<open>s.replace(a, b)\<close> for one-character arguments.\<close>

definition replace_char :: "char \<Rightarrow> char \<Rightarrow> string \<Rightarrow> string" where
  "replace_char a b s = map (\<lambda>x. if x = a then b else x) s"

text \<open>\<open>s.lower()\<close> on a Python 2 byte string: ASCII letters only.\<close>

definition lower_char :: "char \<Rightarrow> char" where
  "lower_char c =
     (let n = of_char c :: nat in if 65 \<le> n \<and> n \<le> 90 then char_of (n + 32) else c)"

definition py_lower :: "string \<Rightarrow> string" where
  "py_lower s = map lower_char s"

text \<open>\<open>'%s' % v\<close> for a value that is a string or \<open>None\<close>.\<close>

fun py_str_opt :: "string option \<Rightarrow> string" where
  "py_str_opt None = ''None''"
| "py_str_opt (Some s) = s"

subsection \<open>Lemmas on the helpers\<close>

lemma rfind_range [pystr_simps]: "-1 \<le> rfind c s \<and> rfind c s < int (length s)"
  by (induction s) (auto simp: Let_def)

lemma rfind_neg_iff [pystr_simps]: "rfind c s < 0 \<longleftrightarrow> c \<notin> set s"
  by (induction s) (auto simp: Let_def)

lemma rfind_nonneg_iff [pystr_simps]: "0 \<le> rfind c s \<longleftrightarrow> c \<in> set s"
  using rfind_neg_iff [of c s] by linarith

lemma rfind_eq_neg1_iff [pystr_simps]: "rfind c s = -1 \<longleftrightarrow> c \<notin> set s"
  using rfind_neg_iff [of c s] rfind_range [of c s] by linarith

lemma rfind_notin [pystr_simps]: "c \<notin> set s \<Longrightarrow> rfind c s = -1"
  by (simp add: rfind_eq_neg1_iff)

lemma rfind_append_notin:
  "c \<notin> set ys \<Longrightarrow> rfind c (xs @ ys) = (if c \<in> set xs then rfind c xs else -1)"
  by (induction xs) (auto simp: Let_def rfind_nonneg_iff rfind_eq_neg1_iff)

lemma rfind_snoc [pystr_simps]: "rfind c (xs @ [c]) = int (length xs)"
  by (induction xs) (auto simp: Let_def)

lemma rfind_split [pystr_simps]: "c \<notin> set ys \<Longrightarrow> rfind c (xs @ c # ys) = int (length xs)"
  using rfind_append_notin [of c ys "xs @ [c]"] by (simp add: rfind_snoc)

lemma rfind_nth:
  "0 \<le> rfind c s \<Longrightarrow> s ! nat (rfind c s) = c"
proof (induction s)
  case Nil
  then show ?case by simp
next
  case (Cons x xs)
  show ?case
  proof (cases "0 \<le> rfind c xs")
    case True
    with Cons.IH have "xs ! nat (rfind c xs) = c" by simp
    moreover have "nat (rfind c xs + 1) = Suc (nat (rfind c xs))" using True by simp
    ultimately show ?thesis using True by (simp add: Let_def)
  next
    case False
    with Cons.prems show ?thesis by (auto simp: Let_def split: if_splits)
  qed
qed

lemma rfind_last:
  "c \<notin> set (drop (nat (rfind c s + 1)) s)"
proof (induction s)
  case Nil
  then show ?case by simp
next
  case (Cons x xs)
  then show ?case
    by (cases "0 \<le> rfind c xs")
       (auto simp: Let_def rfind_neg_iff nat_add_distrib)
qed

lemma str_split_nonempty [pystr_simps]: "str_split c s \<noteq> []"
  by (cases s) (simp_all split: list.split)

lemma str_split_no_sep: "w \<in> set (str_split c s) \<Longrightarrow> c \<notin> set w"
  by (induction s arbitrary: w) (auto split: list.splits if_splits simp: str_split_nonempty)

lemma str_join_cons_split:
  "str_join [c] ((x # w) # ws) = x # str_join [c] (w # ws)"
  by (cases ws) simp_all

text \<open>
  Roundtrip of \<open>s.split(sep)\<close> and \<open>sep.join\<close>: joining the pieces of a
  split with the same one-character separator gives the string back.
\<close>

theorem str_join_split: "str_join [c] (str_split c s) = s"
proof (induction s)
  case Nil
  then show ?case by simp
next
  case (Cons x xs)
  then show ?case
    by (auto split: list.splits simp: str_join_cons_split)
qed

lemma str_split_no_sep_id [pystr_simps]: "c \<notin> set s \<Longrightarrow> str_split c s = [s]"
  by (induction s) auto

lemma str_split_sep_append: "c \<notin> set w \<Longrightarrow> str_split c (w @ c # s) = w # str_split c s"
  by (induction w) (auto split: list.split simp: str_split_nonempty)

text \<open>
  Roundtrip of \<open>sep.join\<close> and \<open>s.split(sep)\<close> for a one-character
  separator: splitting the join of a non-empty list of pieces without the separator
  gives the pieces back.
\<close>

theorem str_split_join:
  assumes "ws \<noteq> []" and "\<forall>w \<in> set ws. c \<notin> set w"
  shows "str_split c (str_join [c] ws) = ws"
  using assms
proof (induction "[c]" ws rule: str_join.induct)
  case (2 w)
  then show ?case by (simp add: str_split_no_sep_id)
next
  case (3 w v ws)
  then show ?case by (simp add: str_split_sep_append)
qed simp

lemma rstrip_no_trailing: "rstrip cs s = [] \<or> last (rstrip cs s) \<notin> cs"
proof -
  let ?d = "dropWhile (\<lambda>x. x \<in> cs) (rev s)"
  have "?d = [] \<or> hd ?d \<notin> cs"
    using hd_dropWhile [of "\<lambda>x. x \<in> cs" "rev s"] by blast
  then show ?thesis by (auto simp: rstrip_def last_rev)
qed

lemma rstrip_prefix: "\<exists>t. s = rstrip cs s @ t \<and> set t \<subseteq> cs"
proof (intro exI conjI)
  let ?t = "rev (takeWhile (\<lambda>x. x \<in> cs) (rev s))"
  have "rev s = takeWhile (\<lambda>x. x \<in> cs) (rev s) @ dropWhile (\<lambda>x. x \<in> cs) (rev s)"
    by simp
  then show "s = rstrip cs s @ ?t"
    unfolding rstrip_def by (metis rev_append rev_rev_ident)
  show "set ?t \<subseteq> cs"
    by (auto dest: set_takeWhileD)
qed

lemma rstrip_take_prefix: "h = rstrip cs h' \<or> h = h' \<Longrightarrow> take i p = h' \<Longrightarrow> \<exists>t. p = h @ t"
proof -
  assume "h = rstrip cs h' \<or> h = h'" and tk: "take i p = h'"
  then obtain u where "h' = h @ u" using rstrip_prefix [of h' cs] by (metis append_Nil2)
  then have "p = h @ u @ drop i p" using tk by (metis append_assoc append_take_drop_id)
  then show "\<exists>t. p = h @ t" by blast
qed

lemma rstrip_id [pystr_simps]: "s = [] \<or> last s \<notin> cs \<Longrightarrow> rstrip cs s = s"
  by (cases s rule: rev_cases) (auto simp: rstrip_def)

lemma eq_replicate_length_iff [pystr_simps]: "xs = replicate (length xs) c \<longleftrightarrow> set xs \<subseteq> {c}"
  by (induction xs) auto

lemma ends_with_append [pystr_simps]:
  "ends_with c (xs @ ys) \<longleftrightarrow> (if ys = [] then ends_with c xs else last ys = c)"
  by (auto simp: ends_with_def)

lemma starts_with_append [pystr_simps]:
  "starts_with c (xs @ ys) \<longleftrightarrow> (if xs = [] then starts_with c ys else hd xs = c)"
  by (auto simp: starts_with_def)

lemma py_lower_append [pystr_simps]: "py_lower (xs @ ys) = py_lower xs @ py_lower ys"
  by (simp add: py_lower_def)

lemma suffix_drop_iff: "(\<exists>u. s = u @ xs) \<longleftrightarrow> drop (length s - length xs) s = xs"
proof
  assume "drop (length s - length xs) s = xs"
  then have "s = take (length s - length xs) s @ xs" by (metis append_take_drop_id)
  then show "\<exists>u. s = u @ xs" by blast
qed auto

lemma length_py_lower [pystr_simps]: "length (py_lower s) = length s"
  by (simp add: py_lower_def)

lemma rstrip_nil_iff: "rstrip cs h = [] \<longleftrightarrow> set h \<subseteq> cs"
  by (auto simp: rstrip_def dropWhile_eq_Nil_conv)

lemma drop_no_seps:
  assumes "\<And>k. i \<le> k \<Longrightarrow> k < length p \<Longrightarrow> p ! k \<notin> cs"
  shows "set (drop i p) \<inter> cs = {}"
  using assms by (auto simp: in_set_conv_nth)

lemma rstrip_head_parts:
  assumes "head = [] \<or> last head \<in> cs"
  shows "\<exists>m. head = (if rstrip cs head = [] then head else rstrip cs head) @ m \<and> set m \<subseteq> cs
           \<and> (head = [] \<or> last head \<in> cs)
           \<and> (let h' = (if rstrip cs head = [] then head else rstrip cs head) in
                h' = [] \<or> last h' \<notin> cs \<or> set h' \<subseteq> cs)"
  using assms rstrip_prefix [of head cs] rstrip_no_trailing [of cs head] rstrip_nil_iff [of cs head]
  by (auto simp: Let_def)

text \<open>
  A loop whose guard makes a natural-number measure drop stops after at most that many
  iterations, with the state the body reaches after them.
\<close>

lemma while_option_measure_steps:
  assumes "\<And>s. b s \<Longrightarrow> f (c s) < (f s :: nat)"
  shows "\<exists>n \<le> f s. while_option b c s = Some ((c ^^ n) s)"
proof (induction "f s" arbitrary: s rule: less_induct)
  case less
  show ?case
  proof (cases "b s")
    case False
    then have "while_option b c s = Some s" by (simp add: while_option_unfold [of b c s])
    then show ?thesis by (intro exI [of _ 0]) simp
  next
    case True
    then obtain n where n: "n \<le> f (c s)" "while_option b c (c s) = Some ((c ^^ n) (c s))"
      using less assms by blast
    have "while_option b c s = Some ((c ^^ Suc n) s)"
      using True n(2) by (simp add: while_option_unfold [of b c s] funpow_swap1)
    moreover have "Suc n \<le> f s" using n(1) assms [OF True] by simp
    ultimately show ?thesis by blast
  qed
qed

text \<open>\<open>lower\<close> leaves every character that is not a lower-case letter as the only
  preimage of itself.\<close>

lemma lower_char_keeps:
  assumes "lower_char x = c" and "\<not> (97 \<le> (of_char c :: nat) \<and> of_char c \<le> (122 :: nat))"
  shows "x = c"
proof (cases "65 \<le> (of_char x :: nat) \<and> (of_char x :: nat) \<le> 90")
  case True
  then have "of_char (char_of (of_char x + 32 :: nat) :: char) = (of_char c :: nat)"
    using assms(1) by (simp add: lower_char_def Let_def)
  then show ?thesis using True assms(2) by (simp add: of_char_of)
next
  case False
  then show ?thesis using assms(1) by (auto simp: lower_char_def Let_def)
qed

lemma lower_char_bracket:
  "lower_char x = CHR ''['' \<longleftrightarrow> x = CHR ''[''" "CHR ''['' = lower_char x \<longleftrightarrow> x = CHR ''[''"
  "lower_char CHR ''['' = CHR ''[''"
  using lower_char_keeps [of x "CHR ''[''"] by (auto simp: lower_char_def)

end
