(* ===== verification/PathPosix.thy ===== *)
theory PathPosix
  imports Prelude
begin

text \<open>
  The parts of the Python 2.7 standard library \<open>os.path\<close> that the script calls, in
  their POSIX flavour (\<open>posixpath\<close>), and the flavour-independent
  \<open>genericpath._splitext\<close> that \<open>posixpath.splitext\<close> and \<open>ntpath.splitext\<close> share.
  These are library functions the script only calls (lines 29--30, 38, 41--43 of
  \<open>src/shaders/mesh_update.py\<close>); they are modelled because the derived output
  path of a source file is computed by them.  Each definition follows the CPython 2.7
  source of the function line by line.
\<close>

subsection \<open>genericpath._splitext\<close>

text \<open>
  The loop that skips leading dots of the file name:
  \<^verbatim>\<open>filenameIndex = sepIndex + 1
while filenameIndex < dotIndex:
    if p[filenameIndex] != extsep: return p[:dotIndex], p[dotIndex:]
    filenameIndex += 1\<close>
  \<open>splitext_scan p i dot\<close> is \<open>True\<close> when the loop returns the split.
\<close>

function splitext_scan :: "string \<Rightarrow> nat \<Rightarrow> nat \<Rightarrow> bool" where
  "splitext_scan p i dot =
     (if i < dot then (if p ! i \<noteq> CHR ''.'' then True else splitext_scan p (Suc i) dot)
      else False)"
  by pat_completeness auto
termination
  by (relation "measure (\<lambda>(p, i, dot). dot - i)") auto

declare splitext_scan.simps [simp del]

definition splitext_generic :: "char \<Rightarrow> char option \<Rightarrow> string \<Rightarrow> string \<times> string" where
  "splitext_generic sep altsep p =
     (let sepIndex = (case altsep of None \<Rightarrow> rfind sep p
                                   | Some a \<Rightarrow> max (rfind sep p) (rfind a p));
          dotIndex = rfind CHR ''.'' p
      in if sepIndex < dotIndex \<and> splitext_scan p (nat (sepIndex + 1)) (nat dotIndex)
         then (take (nat dotIndex) p, drop (nat dotIndex) p)
         else (p, []))"

subsection \<open>posixpath\<close>

definition posix_sep :: char where
  "posix_sep = CHR ''/''"

text \<open>\<open>posixpath.split\<close>.\<close>

definition posix_split :: "string \<Rightarrow> string \<times> string" where
  "posix_split p =
     (let i = nat (rfind CHR ''/'' p + 1);
          head = take i p; tail = drop i p;
          head' = (if head \<noteq> [] \<and> head \<noteq> replicate (length head) CHR ''/''
                   then rstrip {CHR ''/''} head else head)
      in (head', tail))"

text \<open>\<open>posixpath.join(a, b)\<close> with the two arguments the script passes.\<close>

definition posix_join :: "string \<Rightarrow> string \<Rightarrow> string" where
  "posix_join a b =
     (if starts_with CHR ''/'' b then b
      else if a = [] \<or> ends_with CHR ''/'' a then a @ b
      else a @ ''/'' @ b)"

definition posix_splitext :: "string \<Rightarrow> string \<times> string" where
  "posix_splitext p = splitext_generic CHR ''/'' None p"

text \<open>\<open>posixpath.normcase\<close> is the identity.\<close>

definition posix_normcase :: "string \<Rightarrow> string" where
  "posix_normcase s = s"

text \<open>
  \<open>posixpath.normpath\<close>.  The loop over the components:
  \<^verbatim>\<open>for comp in comps:
    if comp in ('', '.'): continue
    if (comp != '..' or (not initial_slashes and not new_comps) or
         (new_comps and new_comps[-1] == '..')):
        new_comps.append(comp)
    elif new_comps:
        new_comps.pop()\<close>
\<close>

fun posix_norm_loop :: "nat \<Rightarrow> string list \<Rightarrow> string list \<Rightarrow> string list" where
  "posix_norm_loop nsl new [] = new"
| "posix_norm_loop nsl new (cm # cms) =
     (if cm = [] \<or> cm = ''.'' then posix_norm_loop nsl new cms
      else if cm \<noteq> ''..'' \<or> (nsl = 0 \<and> new = []) \<or> (new \<noteq> [] \<and> last new = ''..'')
      then posix_norm_loop nsl (new @ [cm]) cms
      else if new \<noteq> [] then posix_norm_loop nsl (butlast new) cms
      else posix_norm_loop nsl new cms)"

definition posix_normpath :: "string \<Rightarrow> string" where
  "posix_normpath path =
     (if path = [] then ''.''
      else
        let nsl1 = (if starts_with CHR ''/'' path then 1 else 0 :: nat);
            nsl = (if nsl1 = 1 \<and> take 2 path = ''//'' \<and> take 3 path \<noteq> ''///'' then 2 else nsl1);
            new = posix_norm_loop nsl [] (str_split CHR ''/'' path);
            p = str_join ''/'' new;
            p' = (if nsl \<noteq> 0 then replicate nsl CHR ''/'' @ p else p)
        in if p' = [] then ''.'' else p')"

subsection \<open>Lemmas: splitext\<close>

lemma splitext_scan_first:
  "i < dot \<Longrightarrow> p ! i \<noteq> CHR ''.'' \<Longrightarrow> splitext_scan p i dot"
  by (subst splitext_scan.simps) simp

text \<open>
  The case the script relies on: a file name without separators whose first character
  is not a dot, and an extension without dots or separators, splits at the extension.
\<close>

lemma splitext_generic_name:
  assumes "sep \<notin> set (stem @ CHR ''.'' # ext)"
    and "\<forall>a. altsep = Some a \<longrightarrow> a \<notin> set (stem @ CHR ''.'' # ext)"
    and "CHR ''.'' \<notin> set ext" and "stem \<noteq> []" and "hd stem \<noteq> CHR ''.''"
  shows "splitext_generic sep altsep (stem @ CHR ''.'' # ext) = (stem, CHR ''.'' # ext)"
proof -
  let ?p = "stem @ CHR ''.'' # ext"
  have dot: "rfind CHR ''.'' ?p = int (length stem)"
    using assms(3) by (rule rfind_split)
  have sep: "rfind sep ?p = -1"
    using assms(1) by (auto simp: rfind_eq_neg1_iff)
  have alt: "(case altsep of None \<Rightarrow> rfind sep ?p | Some a \<Rightarrow> max (rfind sep ?p) (rfind a ?p)) = -1"
    using assms(1,2) by (auto simp: rfind_notin split: option.split)
  have scan: "splitext_scan ?p 0 (length stem)"
    using assms(4,5) by (intro splitext_scan_first) (auto simp: hd_conv_nth nth_append)
  show ?thesis
    using dot alt scan assms(4) by (simp add: splitext_generic_def Let_def)
qed

subsection \<open>Lemmas: split and join\<close>

text \<open>A directory argument that \<open>posixpath.split\<close> gives back unchanged.\<close>

definition posix_dir_ok :: "string \<Rightarrow> bool" where
  "posix_dir_ok a \<longleftrightarrow> \<not> ends_with CHR ''/'' a \<or> set a \<subseteq> {CHR ''/''}"

lemma posix_split_snoc_slash:
  assumes "CHR ''/'' \<notin> set b"
  shows "posix_split (h @ CHR ''/'' # b) =
           (if set h \<subseteq> {CHR ''/''} then h @ [CHR ''/''] else rstrip {CHR ''/''} (h @ [CHR ''/'']), b)"
proof -
  have r: "nat (rfind CHR ''/'' (h @ CHR ''/'' # b) + 1) = Suc (length h)"
    using assms by (simp add: rfind_split)
  have t: "take (Suc (length h)) (h @ CHR ''/'' # b) = h @ [CHR ''/'']" by simp
  have d: "drop (Suc (length h)) (h @ CHR ''/'' # b) = b" by simp
  have e: "(h @ [CHR ''/''] = replicate (length (h @ [CHR ''/''])) CHR ''/'') = (set h \<subseteq> {CHR ''/''})"
    by (simp only: eq_replicate_length_iff) simp
  show ?thesis by (simp only: posix_split_def Let_def r t d e) simp
qed

lemma rstrip_snoc_same: "c \<in> cs \<Longrightarrow> rstrip cs (xs @ [c]) = rstrip cs xs"
  by (simp add: rstrip_def)

text \<open>
  Roundtrip of \<open>posixpath.join\<close> and \<open>posixpath.split\<close>: splitting the join
  of a directory (without a trailing slash, or the root) and a non-empty name without
  slashes gives both back.
\<close>

theorem posix_split_join:
  assumes "b \<noteq> []" and "CHR ''/'' \<notin> set b" and "posix_dir_ok a"
  shows "posix_split (posix_join a b) = (a, b)"
proof (cases "a = []")
  case True
  have "rfind CHR ''/'' b = -1" using assms(2) by (simp add: rfind_eq_neg1_iff)
  with True assms(1,2) show ?thesis
    by (simp add: posix_join_def posix_split_def starts_with_def)
next
  case False
  then obtain h where h: "a = h @ [last a]" by (metis append_butlast_last_id)
  have nb: "\<not> starts_with CHR ''/'' b" using assms(1,2) by (cases b) (auto simp: starts_with_def)
  show ?thesis
  proof (cases "ends_with CHR ''/'' a")
    case True
    then have l: "last a = CHR ''/''" by (simp add: ends_with_def)
    with assms(3) True h have all: "set h \<subseteq> {CHR ''/''}"
      by (auto simp: posix_dir_ok_def)
    have "posix_join a b = h @ CHR ''/'' # b"
      using nb True h l by (simp add: posix_join_def)
    then show ?thesis
      using posix_split_snoc_slash [OF assms(2), of h] all h l by simp
  next
    case nt: False
    then have l: "last a \<noteq> CHR ''/''" using False by (simp add: ends_with_def)
    then have "\<not> set a \<subseteq> {CHR ''/''}" using False last_in_set [of a] by blast
    moreover have "rstrip {CHR ''/''} (a @ [CHR ''/'']) = a"
      using l by (simp add: rstrip_snoc_same rstrip_id)
    moreover have "posix_join a b = a @ CHR ''/'' # b"
      using nb nt False by (simp add: posix_join_def)
    ultimately show ?thesis
      using posix_split_snoc_slash [OF assms(2), of a] by simp
  qed
qed

lemma posix_split_prefix:
  assumes "posix_split p = (d, b)"
  shows "\<exists>t. p = d @ t"
proof -
  let ?h = "take (nat (rfind CHR ''/'' p + 1)) p"
  have "d = rstrip {CHR ''/''} ?h \<or> d = ?h"
    using assms by (auto simp: posix_split_def Let_def split: if_splits)
  from rstrip_take_prefix [OF this refl] show ?thesis .
qed

subsection \<open>Lemmas: split\<close>

lemma posix_split_head:
  "(let head = take (nat (rfind CHR ''/'' p + 1)) p in head = [] \<or> last head = CHR ''/'')"
proof (cases "0 \<le> rfind CHR ''/'' p")
  case True
  let ?j = "nat (rfind CHR ''/'' p)"
  have "?j < length p" using rfind_range [of "CHR ''/''" p] True by linarith
  moreover have "nat (rfind CHR ''/'' p + 1) = Suc ?j" using True by linarith
  ultimately show ?thesis using rfind_nth [OF True] by (simp add: Let_def take_Suc_conv_app_nth)
next
  case False
  then have "nat (rfind CHR ''/'' p + 1) = 0" using rfind_range [of "CHR ''/''" p] by linarith
  then show ?thesis by (simp add: Let_def)
qed

text \<open>
  The contract of \<open>posixpath.split\<close>: the path is the head, some slashes and
  the tail; the tail has no slash and is the longest such suffix (what precedes it
  is empty or ends in a slash); the head has no trailing slash unless it is made of
  slashes only (the root).
\<close>

theorem posix_split_parts:
  assumes "posix_split p = (h, t)"
  shows "\<exists>m. p = h @ m @ t \<and> set m \<subseteq> {CHR ''/''} \<and> CHR ''/'' \<notin> set t
           \<and> (h @ m = [] \<or> last (h @ m) = CHR ''/'')
           \<and> (h = [] \<or> last h \<noteq> CHR ''/'' \<or> set h \<subseteq> {CHR ''/''})"
proof -
  define i where "i = nat (rfind CHR ''/'' p + 1)"
  define head where "head = take i p"
  have "posix_split p = (if rstrip {CHR ''/''} head = [] then head else rstrip {CHR ''/''} head, drop i p)"
    by (auto simp: posix_split_def i_def head_def Let_def rstrip_nil_iff eq_replicate_length_iff)
  then have ht: "h = (if rstrip {CHR ''/''} head = [] then head else rstrip {CHR ''/''} head)" "t = drop i p"
    using assms by simp_all
  have hd: "head = [] \<or> last head \<in> {CHR ''/''}"
    using posix_split_head [of p] by (simp add: head_def i_def Let_def)
  obtain m where m: "head = h @ m" "set m \<subseteq> {CHR ''/''}"
    and l: "h = [] \<or> last h \<notin> {CHR ''/''} \<or> set h \<subseteq> {CHR ''/''}"
    using rstrip_head_parts [OF hd] ht(1) by (auto simp: Let_def)
  have "CHR ''/'' \<notin> set t" using rfind_last [of "CHR ''/''" p] by (simp add: ht(2) i_def)
  moreover have "p = h @ m @ t" using m(1) ht(2) unfolding head_def by (metis append.assoc append_take_drop_id)
  ultimately show ?thesis using m hd l by auto
qed

end
