(* ===== verification/PathNt.thy ===== *)
theory PathNt
  imports PathPosix
begin

text \<open>
  The Windows flavour of \<open>os.path\<close> (\<open>ntpath\<close> of CPython 2.7), which is the one the
  script runs with: the only entry of \<open>SETTINGS\<close> that passes the start-up checks
  is \<open>'Windows'\<close>.  Separators are the backslash \<open>bslash\<close> and the forward slash.
\<close>

abbreviation bslash :: char where
  "bslash \<equiv> CHR 0x5C"

definition nt_seps :: "char set" where
  "nt_seps = {CHR ''/'', bslash}"

subsection \<open>ntpath.splitdrive\<close>

definition nt_splitdrive :: "string \<Rightarrow> string \<times> string" where
  "nt_splitdrive p =
     (if 1 < length p then
        let normp = replace_char CHR ''/'' bslash p in
        if take 2 normp = [bslash, bslash] \<and> take 1 (drop 2 normp) \<noteq> [bslash] then
          (let index = find_from bslash normp 2 in
           if index = -1 then ([], p)
           else
             let index2 = find_from bslash normp (nat index + 1) in
             if index2 = index + 1 then ([], p)
             else
               let index2' = (if index2 = -1 then int (length p) else index2)
               in (take (nat index2') p, drop (nat index2') p))
        else if normp ! 1 = CHR '':'' then (take 2 p, drop 2 p)
        else ([], p)
      else ([], p))"

subsection \<open>ntpath.split\<close>

text \<open>
  \<^verbatim>\<open>i = len(p)
while i and p[i-1] not in '/\\': i = i - 1\<close>
\<close>

fun nt_split_scan :: "string \<Rightarrow> nat \<Rightarrow> nat" where
  "nt_split_scan p 0 = 0"
| "nt_split_scan p (Suc i) = (if p ! i \<notin> nt_seps then nt_split_scan p i else Suc i)"

text \<open>
  The second loop of \<open>split\<close>, \<open>while head2 and head2[-1] in '/\\': head2 =
  head2[:-1]\<close>, strips the trailing separators: it is \<open>rstrip nt_seps\<close>.
\<close>

definition nt_split :: "string \<Rightarrow> string \<times> string" where
  "nt_split p0 =
     (let (d, p) = nt_splitdrive p0;
          i = nt_split_scan p (length p);
          head = take i p; tail = drop i p;
          head2 = rstrip nt_seps head;
          head' = (if head2 = [] then head else head2)
      in (d @ head', tail))"

subsection \<open>ntpath.splitext, ntpath.normcase\<close>

definition nt_splitext :: "string \<Rightarrow> string \<times> string" where
  "nt_splitext p = splitext_generic bslash (Some CHR ''/'') p"

definition nt_normcase :: "string \<Rightarrow> string" where
  "nt_normcase s = py_lower (replace_char CHR ''/'' bslash s)"

subsection \<open>ntpath.join\<close>

text \<open>\<open>ntpath.join(path, p)\<close> with the two arguments the script passes.\<close>

definition nt_join :: "string \<Rightarrow> string \<Rightarrow> string" where
  "nt_join path p =
     (let (result_drive, result_path) = nt_splitdrive path;
          (p_drive, p_path) = nt_splitdrive p;
          (rd, rp) =
            (if p_path \<noteq> [] \<and> hd p_path \<in> nt_seps then
               (if p_drive \<noteq> [] \<or> result_drive = [] then p_drive else result_drive, p_path)
             else if p_drive \<noteq> [] \<and> p_drive \<noteq> result_drive
                     \<and> py_lower p_drive \<noteq> py_lower result_drive then
               (p_drive, p_path)
             else
               (if p_drive \<noteq> [] \<and> p_drive \<noteq> result_drive then p_drive else result_drive,
                (if result_path \<noteq> [] \<and> last result_path \<notin> nt_seps
                 then result_path @ [bslash] else result_path) @ p_path))
      in if rp \<noteq> [] \<and> hd rp \<notin> nt_seps \<and> rd \<noteq> [] \<and> last rd \<noteq> CHR '':''
         then rd @ bslash # rp else rd @ rp)"

subsection \<open>ntpath.normpath\<close>

text \<open>
  The component loop of \<open>normpath\<close>, with its index \<open>i\<close> and deletions in place:
  \<^verbatim>\<open>i = 0
while i < len(comps):
    if comps[i] in ('.', ''): del comps[i]
    elif comps[i] == '..':
        if i > 0 and comps[i-1] != '..':
            del comps[i-1:i+1]; i -= 1
        elif i == 0 and prefix.endswith("\\"): del comps[i]
        else: i += 1
    else: i += 1\<close>
\<close>

function nt_norm_loop :: "string \<Rightarrow> string list \<Rightarrow> nat \<Rightarrow> string list" where
  "nt_norm_loop prefix comps i =
     (if i < length comps then
        if comps ! i = ''.'' \<or> comps ! i = [] then
          nt_norm_loop prefix (take i comps @ drop (Suc i) comps) i
        else if comps ! i = ''..'' then
          if 0 < i \<and> comps ! (i - 1) \<noteq> ''..'' then
            nt_norm_loop prefix (take (i - 1) comps @ drop (Suc i) comps) (i - 1)
          else if i = 0 \<and> ends_with bslash prefix then
            nt_norm_loop prefix (take i comps @ drop (Suc i) comps) i
          else nt_norm_loop prefix comps (Suc i)
        else nt_norm_loop prefix comps (Suc i)
      else comps)"
  by pat_completeness auto
termination
  by (relation "measure (\<lambda>(prefix, comps, i). 2 * length comps - i)") auto

declare nt_norm_loop.simps [simp del]

definition nt_normpath :: "string \<Rightarrow> string" where
  "nt_normpath path0 =
     (if take 4 path0 = [bslash, bslash, CHR ''.'', bslash]
         \<or> take 4 path0 = [bslash, bslash, CHR ''?'', bslash] then path0
      else
        let path1 = replace_char CHR ''/'' bslash path0;
            (prefix0, path2) = nt_splitdrive path1;
            (prefix, path) =
              (if prefix0 = [] then (takeWhile (\<lambda>c. c = bslash) path2, dropWhile (\<lambda>c. c = bslash) path2)
               else if starts_with bslash path2 then (prefix0 @ [bslash], lstrip {bslash} path2)
               else (prefix0, path2));
            comps = nt_norm_loop prefix (str_split bslash path) 0;
            comps' = (if prefix = [] \<and> comps = [] then [''.''] else comps)
        in prefix @ str_join [bslash] comps')"

subsection \<open>Lemmas: drives, plain names, split and join\<close>

text \<open>The facts that evaluate \<open>normcase\<close> and \<open>normpath\<close> on literal paths.\<close>

lemmas nt_normcase_eval = nt_normcase_def replace_char_def py_lower_def lower_char_def char_of_eq_iff

lemmas nt_normpath_eval = nt_normpath_def nt_splitdrive_def replace_char_def lstrip_def
  starts_with_def ends_with_def nt_norm_loop.simps

text \<open>
  A plain file name, as \<open>os.listdir\<close> returns it: not empty, no separator, and not
  of the drive form \<open>x:...\<close>.
\<close>

definition nt_plain :: "string \<Rightarrow> bool" where
  "nt_plain b \<longleftrightarrow> b \<noteq> [] \<and> set b \<inter> nt_seps = {} \<and> (length b \<le> 1 \<or> b ! 1 \<noteq> CHR '':'')"

text \<open>A directory on a drive letter with no trailing separator, such as \<open>d:\\x\<close>.\<close>

definition nt_drive_dir :: "string \<Rightarrow> bool" where
  "nt_drive_dir a \<longleftrightarrow> (\<exists>x r. a = x # CHR '':'' # r \<and> r \<noteq> [] \<and> last r \<notin> nt_seps)"

lemma nt_seps_simps [simp]: "CHR ''/'' \<in> nt_seps" "bslash \<in> nt_seps" "CHR '':'' \<notin> nt_seps"
  by (simp_all add: nt_seps_def)

lemma nt_splitdrive_drive [path_simps]:
  "nt_splitdrive (x # CHR '':'' # r) = ([x, CHR '':''], r)"
  by (simp add: nt_splitdrive_def replace_char_def Let_def)

lemma nt_splitdrive_two:
  assumes "x \<notin> nt_seps" and "y \<noteq> CHR '':''"
  shows "nt_splitdrive (x # y # rest) = ([], x # y # rest)"
proof -
  have "take 2 (replace_char CHR ''/'' bslash (x # y # rest)) \<noteq> [bslash, bslash]"
    using assms(1) by (auto simp: replace_char_def nt_seps_def)
  moreover have "replace_char CHR ''/'' bslash (x # y # rest) ! 1 \<noteq> CHR '':''"
    using assms(2) by (auto simp: replace_char_def)
  ultimately show ?thesis by (simp add: nt_splitdrive_def Let_def)
qed

lemma nt_splitdrive_plain [path_simps]:
  assumes "nt_plain b"
  shows "nt_splitdrive b = ([], b)"
proof (cases "length b \<le> 1")
  case True
  then show ?thesis by (simp add: nt_splitdrive_def)
next
  case False
  then obtain x y rest where b: "b = x # y # rest"
    by (cases b; cases "tl b") auto
  have "x \<notin> nt_seps" "y \<noteq> CHR '':''"
    using assms by (auto simp: nt_plain_def b)
  then show ?thesis by (simp add: b nt_splitdrive_two)
qed

lemma nt_join_drive_dir [path_simps]:
  assumes "nt_drive_dir a" and "nt_plain b"
  shows "nt_join a b = a @ bslash # b"
proof -
  obtain x r where a: "a = x # CHR '':'' # r" and r: "r \<noteq> []" "last r \<notin> nt_seps"
    using assms(1) by (auto simp: nt_drive_dir_def)
  have hb: "hd b \<notin> nt_seps" "b \<noteq> []"
    using assms(2) by (auto simp: nt_plain_def dest: hd_in_set)
  show ?thesis
    using r hb by (simp add: nt_join_def a nt_splitdrive_drive nt_splitdrive_plain [OF assms(2)])
qed

lemma nt_split_scan_skip:
  "(\<forall>k. j \<le> k \<and> k < j + n \<longrightarrow> p ! k \<notin> nt_seps) \<Longrightarrow> nt_split_scan p (j + n) = nt_split_scan p j"
  by (induction n) auto

lemma nt_split_scan_sep:
  assumes "set b \<inter> nt_seps = {}" and "c \<in> nt_seps"
  shows "nt_split_scan (r @ c # b) (length (r @ c # b)) = Suc (length r)"
proof -
  have "nt_split_scan (r @ c # b) (Suc (length r) + length b) = nt_split_scan (r @ c # b) (Suc (length r))"
    using assms(1) by (intro nt_split_scan_skip) (auto simp: nth_append disjoint_iff dest!: nth_mem
        split: if_splits nat.splits)
  also have "\<dots> = Suc (length r)" using assms(2) by simp
  finally show ?thesis by simp
qed

lemma rstrip_snoc_in: "c \<in> cs \<Longrightarrow> rstrip cs (xs @ [c]) = rstrip cs xs"
  by (simp add: rstrip_def)

theorem nt_split_join:
  assumes "nt_drive_dir a" and "nt_plain b"
  shows "nt_split (nt_join a b) = (a, b)"
proof -
  obtain x r where a: "a = x # CHR '':'' # r" and r: "r \<noteq> []" "last r \<notin> nt_seps"
    using assms(1) by (auto simp: nt_drive_dir_def)
  have b: "set b \<inter> nt_seps = {}" using assms(2) by (simp add: nt_plain_def)
  have j: "nt_join a b = x # CHR '':'' # (r @ bslash # b)"
    using assms by (simp add: nt_join_drive_dir a)
  have strip: "rstrip nt_seps (r @ [bslash]) = r"
    using r by (simp add: rstrip_snoc_in rstrip_id)
  have sc: "nt_split_scan (r @ bslash # b) (length (r @ bslash # b)) = Suc (length r)"
    by (rule nt_split_scan_sep [OF b]) simp
  have "nt_split (x # CHR '':'' # (r @ bslash # b)) = (x # CHR '':'' # r, b)"
    unfolding nt_split_def nt_splitdrive_drive Let_def prod.case sc
    using strip r by simp
  then show ?thesis using j a by simp
qed

lemma nt_splitext_name [path_simps]:
  assumes "set (stem @ ext) \<inter> nt_seps = {}" and "CHR ''.'' \<notin> set ext"
    and "stem \<noteq> []" and "hd stem \<noteq> CHR ''.''"
  shows "nt_splitext (stem @ CHR ''.'' # ext) = (stem, CHR ''.'' # ext)"
  unfolding nt_splitext_def
  using assms by (intro splitext_generic_name) (auto simp: nt_seps_def)

lemma nt_normcase_append [path_simps]: "nt_normcase (xs @ ys) = nt_normcase xs @ nt_normcase ys"
  by (simp add: nt_normcase_def replace_char_def py_lower_def)

lemma length_nt_normcase [simp]: "length (nt_normcase s) = length s"
  by (simp add: nt_normcase_def replace_char_def py_lower_def)

lemma nt_normcase_no_bracket: "CHR ''['' \<notin> set s \<Longrightarrow> CHR ''['' \<notin> set (nt_normcase s)"
  by (auto simp: nt_normcase_def py_lower_def replace_char_def lower_char_bracket split: if_splits)

lemma nt_splitdrive_append:
  assumes "nt_splitdrive p = (d, r)"
  shows "p = d @ r"
  using assms by (auto simp: nt_splitdrive_def Let_def split: if_splits)

lemma nt_split_prefix:
  assumes "nt_split p = (d, b)"
  shows "\<exists>t. p = d @ t"
proof -
  obtain dr r where sd: "nt_splitdrive p = (dr, r)" by fastforce
  let ?h = "take (nt_split_scan r (length r)) r"
  obtain h where d: "d = dr @ h" and h: "h = rstrip nt_seps ?h \<or> h = ?h"
    using assms sd by (auto simp: nt_split_def Let_def split: if_splits)
  obtain t where "r = h @ t" using rstrip_take_prefix [OF h refl] by blast
  moreover have "p = dr @ r" using sd by (rule nt_splitdrive_append)
  ultimately show ?thesis using d by simp
qed

subsection \<open>Lemmas: split\<close>

lemma nt_split_scan_le: "nt_split_scan p n \<le> n"
  by (induction n) auto

lemma nt_split_scan_tail: "nt_split_scan p n \<le> k \<Longrightarrow> k < n \<Longrightarrow> p ! k \<notin> nt_seps"
proof (induction n)
  case (Suc n)
  then show ?case by (cases "k = n") (auto split: if_splits)
qed simp

lemma nt_split_scan_sep_before: "nt_split_scan p n = Suc j \<Longrightarrow> p ! j \<in> nt_seps"
  by (induction n) (auto split: if_splits)

lemma nt_split_scan_head:
  assumes "i = nt_split_scan p (length p)"
  shows "take i p = [] \<or> last (take i p) \<in> nt_seps"
proof (cases i)
  case (Suc j)
  then have "p ! j \<in> nt_seps" using assms nt_split_scan_sep_before by metis
  moreover have "i \<le> length p" using assms nt_split_scan_le by metis
  ultimately show ?thesis using Suc by (simp add: take_Suc_conv_app_nth)
qed simp

text \<open>
  The contract of \<open>ntpath.split\<close>: the head starts with the drive that
  \<open>splitdrive\<close> finds, and the rest of the path is the rest of the head, some
  separators (slash or backslash) and the tail; the tail has no separator and is the
  longest such suffix after the drive; the head has no trailing separator unless it
  is the drive followed by separators only.
\<close>

theorem nt_split_parts:
  assumes "nt_split p = (h, t)" and "nt_splitdrive p = (d, r)"
  shows "\<exists>h' m. h = d @ h' \<and> r = h' @ m @ t \<and> set m \<subseteq> nt_seps \<and> set t \<inter> nt_seps = {}
           \<and> (h' @ m = [] \<or> last (h' @ m) \<in> nt_seps)
           \<and> (h' = [] \<or> last h' \<notin> nt_seps \<or> set h' \<subseteq> nt_seps)"
proof -
  define i where "i = nt_split_scan r (length r)"
  define head where "head = take i r"
  define h' where "h' = (if rstrip nt_seps head = [] then head else rstrip nt_seps head)"
  have "nt_split p = (d @ h', drop i r)"
    using assms(2) unfolding nt_split_def i_def head_def h'_def Let_def by simp
  then have ht: "h = d @ h'" "t = drop i r" using assms(1) by simp_all
  have tl: "set t \<inter> nt_seps = {}"
    unfolding ht(2) using nt_split_scan_tail [of r "length r"] by (intro drop_no_seps) (simp add: i_def)
  have hd: "head = [] \<or> last head \<in> nt_seps"
    using nt_split_scan_head [OF i_def] by (simp add: head_def)
  obtain m where m: "head = h' @ m" "set m \<subseteq> nt_seps"
    and l: "h' = [] \<or> last h' \<notin> nt_seps \<or> set h' \<subseteq> nt_seps"
    using rstrip_head_parts [OF hd] by (auto simp: h'_def Let_def)
  have "r = h' @ m @ t" using m(1) ht(2) unfolding head_def by (metis append.assoc append_take_drop_id)
  then show ?thesis using ht(1) tl m hd l by (metis)
qed

subsection \<open>Lemmas: normpath\<close>

lemma nt_norm_loop_subset: "x \<in> set (nt_norm_loop prefix comps i) \<Longrightarrow> x \<in> set comps"
proof (induction prefix comps i rule: nt_norm_loop.induct)
  case (1 prefix comps i)
  show ?case
    using 1 by (subst (asm) nt_norm_loop.simps) (auto split: if_splits dest: in_set_takeD in_set_dropD)
qed

text \<open>The loop's invariant: the components before the index are clean.\<close>

definition norm_clean :: "string \<Rightarrow> string list \<Rightarrow> nat \<Rightarrow> bool" where
  "norm_clean prefix comps i \<longleftrightarrow>
     (\<forall>j. j < i \<longrightarrow> j < length comps \<longrightarrow> comps ! j \<noteq> ''.'' \<and> comps ! j \<noteq> [])
     \<and> (\<forall>j. Suc j < i \<longrightarrow> Suc j < length comps \<longrightarrow> comps ! Suc j = ''..'' \<longrightarrow> comps ! j = ''..'')
     \<and> (ends_with bslash prefix \<longrightarrow> 0 < i \<longrightarrow> comps \<noteq> [] \<longrightarrow> comps ! 0 \<noteq> ''..'')"

lemma norm_clean_del:
  assumes "norm_clean prefix comps i" and "k \<le> i"
  shows "norm_clean prefix (take k comps @ drop (Suc i) comps) k"
  using assms by (auto simp: norm_clean_def nth_append)

lemma norm_clean_step:
  assumes "norm_clean prefix comps i" and "i < length comps"
    and "comps ! i \<noteq> ''.''" and "comps ! i \<noteq> []"
    and "comps ! i = ''..'' \<Longrightarrow> 0 < i \<Longrightarrow> comps ! (i - 1) = ''..''"
    and "comps ! i = ''..'' \<Longrightarrow> i = 0 \<Longrightarrow> \<not> ends_with bslash prefix"
  shows "norm_clean prefix comps (Suc i)"
proof -
  have a: "comps ! j \<noteq> ''.'' \<and> comps ! j \<noteq> []" if "j < Suc i" "j < length comps" for j
    using that assms(1,3,4) by (cases "j = i") (auto simp: norm_clean_def)
  have b: "comps ! j = ''..''" if j: "Suc j < Suc i" "Suc j < length comps" "comps ! Suc j = ''..''" for j
  proof (cases "Suc j = i")
    case True
    then show ?thesis using assms(5) j by auto
  next
    case False
    then show ?thesis using assms(1) j by (auto simp: norm_clean_def)
  qed
  have c: "comps ! 0 \<noteq> ''..''" if "ends_with bslash prefix" "comps \<noteq> []"
    using that assms(1,6) by (cases i) (auto simp: norm_clean_def)
  show ?thesis unfolding norm_clean_def using a b c by blast
qed

lemma nt_norm_loop_clean:
  "norm_clean prefix comps i \<Longrightarrow> norm_clean prefix (nt_norm_loop prefix comps i) (length (nt_norm_loop prefix comps i))"
proof (induction prefix comps i rule: nt_norm_loop.induct)
  case (1 prefix comps i)
  let ?del = "take i comps @ drop (Suc i) comps"
  let ?del2 = "take (i - 1) comps @ drop (Suc i) comps"
  show ?case
  proof (cases "i < length comps")
    case False
    then have "nt_norm_loop prefix comps i = comps" by (simp add: nt_norm_loop.simps)
    then show ?thesis using "1.prems" False by (auto simp: norm_clean_def)
  next
    case lt: True
    show ?thesis
    proof (cases "comps ! i = ''.'' \<or> comps ! i = []")
      case True
      then have "nt_norm_loop prefix comps i = nt_norm_loop prefix ?del i"
        using lt by (subst nt_norm_loop.simps) simp
      then show ?thesis using "1.IH"(1) [OF lt True] "1.prems" by (simp add: norm_clean_del)
    next
      case nd: False
      show ?thesis
      proof (cases "comps ! i = ''..''")
        case dd: True
        show ?thesis
        proof (cases "0 < i \<and> comps ! (i - 1) \<noteq> ''..''")
          case True
          then have "nt_norm_loop prefix comps i = nt_norm_loop prefix ?del2 (i - 1)"
            using lt dd by (subst nt_norm_loop.simps) simp
          then show ?thesis using "1.IH"(2) [OF lt nd dd True] "1.prems" by (simp add: norm_clean_del)
        next
          case np: False
          show ?thesis
          proof (cases "i = 0 \<and> ends_with bslash prefix")
            case True
            then have "nt_norm_loop prefix comps i = nt_norm_loop prefix ?del i"
              using lt dd by (subst nt_norm_loop.simps) simp
            then show ?thesis using "1.IH"(3) [OF lt nd dd np True] "1.prems" by (simp add: norm_clean_del)
          next
            case False
            then have "nt_norm_loop prefix comps i = nt_norm_loop prefix comps (Suc i)"
              using lt dd np by (subst nt_norm_loop.simps) auto
            moreover have "norm_clean prefix comps (Suc i)"
              using "1.prems" lt nd np False by (intro norm_clean_step) auto
            ultimately show ?thesis using "1.IH"(4) [OF lt nd dd np False] by simp
          qed
        qed
      next
        case False
        then have "nt_norm_loop prefix comps i = nt_norm_loop prefix comps (Suc i)"
          using lt nd by (subst nt_norm_loop.simps) simp
        moreover have "norm_clean prefix comps (Suc i)"
          using "1.prems" lt nd False by (intro norm_clean_step) auto
        ultimately show ?thesis using "1.IH"(5) [OF lt nd False] by simp
      qed
    qed
  qed
qed


lemma str_split_subset: "w \<in> set (str_split c s) \<Longrightarrow> set w \<subseteq> set s"
  by (induction s arbitrary: w) (fastforce split: list.splits if_splits simp: str_split_nonempty)+

text \<open>
  The result of \<open>ntpath.normpath\<close> (other than for a device path, which it
  returns unchanged) is a prefix without forward slashes followed by components
  joined with backslashes; the components have no separators and are neither empty
  nor \<open>.\<close> (except the lone \<open>.\<close> of an empty path), a \<open>..\<close> is only
  preceded by \<open>..\<close>s, and after a rooted prefix there is no leading \<open>..\<close>.
\<close>

theorem nt_normpath_normal:
  assumes "take 4 p \<noteq> [bslash, bslash, CHR ''.'', bslash]" and "take 4 p \<noteq> [bslash, bslash, CHR ''?'', bslash]"
  shows "\<exists>prefix comps. nt_normpath p = prefix @ str_join [bslash] comps
           \<and> CHR ''/'' \<notin> set prefix
           \<and> (\<forall>c \<in> set comps. set c \<inter> nt_seps = {} \<and> c \<noteq> [] \<and> (c = ''.'' \<longrightarrow> comps = [''.''] \<and> prefix = []))
           \<and> (\<forall>j. Suc j < length comps \<longrightarrow> comps ! Suc j = ''..'' \<longrightarrow> comps ! j = ''..'')
           \<and> (ends_with bslash prefix \<longrightarrow> comps = [] \<or> hd comps \<noteq> ''..'')"
proof -
  define path1 where "path1 = replace_char CHR ''/'' bslash p"
  obtain prefix0 path2 where sd: "nt_splitdrive path1 = (prefix0, path2)" by fastforce
  define pp where "pp = (if prefix0 = [] then (takeWhile (\<lambda>c. c = bslash) path2, dropWhile (\<lambda>c. c = bslash) path2)
               else if starts_with bslash path2 then (prefix0 @ [bslash], lstrip {bslash} path2)
               else (prefix0, path2))"
  obtain prefix path where pp': "pp = (prefix, path)" by fastforce
  define comps where "comps = nt_norm_loop prefix (str_split bslash path) 0"
  define comps' where "comps' = (if prefix = [] \<and> comps = [] then [''.''] else comps)"
  have np: "nt_normpath p = prefix @ str_join [bslash] comps'"
    unfolding nt_normpath_def Let_def path1_def [symmetric]
    apply (simp only: assms simp_thms if_False sd prod.case)
    apply (simp only: pp_def [symmetric] pp' prod.case)
    apply (simp only: comps_def [symmetric] comps'_def [symmetric])
    done
  have s1: "CHR ''/'' \<notin> set path1" by (auto simp: path1_def replace_char_def)
  have "path1 = prefix0 @ path2" using sd by (rule nt_splitdrive_append)
  then have s2: "CHR ''/'' \<notin> set prefix0" "CHR ''/'' \<notin> set path2" using s1 by auto
  have s3: "CHR ''/'' \<notin> set prefix" "set path \<subseteq> set path2"
    using pp' s2 unfolding pp_def lstrip_def by (auto split: if_splits dest: set_takeWhileD set_dropWhileD)
  have cs: "set c \<inter> nt_seps = {}" if "c \<in> set comps" for c
  proof -
    have c: "c \<in> set (str_split bslash path)" using that nt_norm_loop_subset by (metis comps_def)
    then have "bslash \<notin> set c" by (rule str_split_no_sep)
    moreover have "CHR ''/'' \<notin> set c" using str_split_subset [OF c] s3(2) s2(2) by blast
    ultimately show ?thesis by (auto simp: nt_seps_def)
  qed
  have cl: "norm_clean prefix comps (length comps)"
    unfolding comps_def by (rule nt_norm_loop_clean) (simp add: norm_clean_def)
  show ?thesis
  proof (intro exI conjI)
    show "nt_normpath p = prefix @ str_join [bslash] comps'" by (rule np)
    show "CHR ''/'' \<notin> set prefix" by (rule s3(1))
    show "\<forall>c \<in> set comps'. set c \<inter> nt_seps = {} \<and> c \<noteq> [] \<and> (c = ''.'' \<longrightarrow> comps' = [''.''] \<and> prefix = [])"
      using cs cl by (auto simp: comps'_def norm_clean_def in_set_conv_nth nt_seps_def)
    show "\<forall>j. Suc j < length comps' \<longrightarrow> comps' ! Suc j = ''..'' \<longrightarrow> comps' ! j = ''..''"
      using cl by (auto simp: comps'_def norm_clean_def)
    show "ends_with bslash prefix \<longrightarrow> comps' = [] \<or> hd comps' \<noteq> ''..''"
      using cl by (auto simp: comps'_def norm_clean_def hd_conv_nth ends_with_def)
  qed
qed


text \<open>A value checked against CPython 2.7: \<open>ntpath.normpath('a/./b/../c') == 'a\\c'\<close>.\<close>

lemma nt_normpath_example: "nt_normpath ''a/./b/../c'' = ''a'' @ bslash # ''c''"
  by (simp add: nt_normpath_eval)

subsection \<open>ntpath.normpath: the loop kept as a loop\<close>

text \<open>
  The \<open>while i < len(comps)\<close> loop of \<open>normpath\<close> as it is written: its guard
  \<open>nt_norm_cond\<close>, one pass of its body \<open>nt_norm_body\<close> on the pair \<open>(comps, i)\<close>,
  and the loop \<open>while_option\<close> runs from \<open>i = 0\<close> (\<open>None\<close> if it never stopped).
\<close>

definition nt_norm_body :: "string \<Rightarrow> string list \<times> nat \<Rightarrow> string list \<times> nat" where
  "nt_norm_body prefix st =
     (case st of (comps, i) \<Rightarrow>
        if comps ! i = ''.'' \<or> comps ! i = [] then (take i comps @ drop (Suc i) comps, i)
        else if comps ! i = ''..'' then
          if 0 < i \<and> comps ! (i - 1) \<noteq> ''..'' then (take (i - 1) comps @ drop (Suc i) comps, i - 1)
          else if i = 0 \<and> ends_with bslash prefix then (take i comps @ drop (Suc i) comps, i)
          else (comps, Suc i)
        else (comps, Suc i))"

definition nt_norm_cond :: "string list \<times> nat \<Rightarrow> bool" where
  "nt_norm_cond st = (case st of (comps, i) \<Rightarrow> i < length comps)"

definition nt_norm_while :: "string \<Rightarrow> string list \<Rightarrow> string list option" where
  "nt_norm_while prefix comps = map_option fst (while_option nt_norm_cond (nt_norm_body prefix) (comps, 0))"

text \<open>What the body decreases: twice the number of components, minus the index.\<close>

definition nt_norm_measure :: "string list \<times> nat \<Rightarrow> nat" where
  "nt_norm_measure st = (case st of (comps, i) \<Rightarrow> 2 * length comps - i)"

lemma nt_norm_body_decreases:
  "nt_norm_cond st \<Longrightarrow> nt_norm_measure (nt_norm_body prefix st) < nt_norm_measure st"
  by (cases st) (auto simp: nt_norm_cond_def nt_norm_body_def nt_norm_measure_def min_def)

lemma nt_norm_loop_body:
  "nt_norm_loop prefix comps i =
     (if nt_norm_cond (comps, i) then case nt_norm_body prefix (comps, i) of (c', i') \<Rightarrow> nt_norm_loop prefix c' i'
      else comps)"
  by (subst nt_norm_loop.simps)
     (simp only: nt_norm_cond_def nt_norm_body_def prod.case if_distrib [of "case_prod _"])

lemma nt_norm_while_loop:
  "map_option fst (while_option nt_norm_cond (nt_norm_body prefix) st) =
     Some (case st of (comps, i) \<Rightarrow> nt_norm_loop prefix comps i)"
proof (induction "nt_norm_measure st" arbitrary: st rule: less_induct)
  case less
  obtain comps i where st: "st = (comps, i)" by fastforce
  show ?case
  proof (cases "nt_norm_cond st")
    case False
    then show ?thesis
      by (simp add: while_option_unfold [of _ _ "(comps, i)"] st nt_norm_loop_body [of prefix comps i])
  next
    case True
    then have "map_option fst (while_option nt_norm_cond (nt_norm_body prefix) (nt_norm_body prefix st)) =
                 Some (case nt_norm_body prefix st of (comps, i) \<Rightarrow> nt_norm_loop prefix comps i)"
      using less nt_norm_body_decreases by blast
    then show ?thesis using True
      by (simp add: while_option_unfold [of _ _ "(comps, i)"] st nt_norm_loop_body [of prefix comps i])
  qed
qed

text \<open>
  The \<open>while\<close> loop of \<open>ntpath.normpath\<close> always stops, and it returns the
  components the recursive model \<open>nt_norm_loop\<close> computes.
\<close>

theorem nt_norm_while_returns:
  "nt_norm_while prefix comps = Some (nt_norm_loop prefix comps 0)"
  using nt_norm_while_loop [of prefix "(comps, 0)"] by (simp add: nt_norm_while_def)

text \<open>
  The loop runs at most \<open>2 * len(comps)\<close> iterations: its result is the state
  after some number \<open>n\<close> of body passes with \<open>n \<le> 2 * len(comps)\<close>.
\<close>

theorem nt_norm_while_bound:
  "\<exists>n \<le> 2 * length comps. nt_norm_while prefix comps = Some (fst ((nt_norm_body prefix ^^ n) (comps, 0)))"
proof -
  obtain n where "n \<le> nt_norm_measure (comps, 0)"
    "while_option nt_norm_cond (nt_norm_body prefix) (comps, 0) = Some ((nt_norm_body prefix ^^ n) (comps, 0))"
    using while_option_measure_steps [of nt_norm_cond nt_norm_measure "nt_norm_body prefix"]
      nt_norm_body_decreases by blast
  then show ?thesis by (auto simp: nt_norm_while_def nt_norm_measure_def)
qed

end
