(* ===== verification/OsPath.thy ===== *)
theory OsPath
  imports PathNt
begin

text \<open>
  The interface between the script and the path library: \<open>os.path\<close> is \<open>ntpath\<close> on
  Windows and \<open>posixpath\<close> elsewhere, and the script only calls it through the
  operations below.  The reconciliation loop and the glob model are stated over this
  interface; the flavour-specific lemmas of \<open>PathPosix\<close> and \<open>PathNt\<close> discharge
  what they need of it.
\<close>

datatype os_path = Posixpath | Ntpath

text \<open>
  \<open>os.path\<close> follows \<open>os.name\<close>, which is \<open>'nt'\<close> exactly when
  \<open>platform.system()\<close> is \<open>'Windows'\<close> (line 19 of the script).
\<close>

definition os_path_of :: "string \<Rightarrow> os_path" where
  "os_path_of system = (if system = ''Windows'' then Ntpath else Posixpath)"

primrec path_join :: "os_path \<Rightarrow> string \<Rightarrow> string \<Rightarrow> string" where
  "path_join Posixpath a b = posix_join a b"
| "path_join Ntpath a b = nt_join a b"

primrec path_split :: "os_path \<Rightarrow> string \<Rightarrow> string \<times> string" where
  "path_split Posixpath p = posix_split p"
| "path_split Ntpath p = nt_split p"

primrec path_splitext :: "os_path \<Rightarrow> string \<Rightarrow> string \<times> string" where
  "path_splitext Posixpath p = posix_splitext p"
| "path_splitext Ntpath p = nt_splitext p"

primrec path_normpath :: "os_path \<Rightarrow> string \<Rightarrow> string" where
  "path_normpath Posixpath p = posix_normpath p"
| "path_normpath Ntpath p = nt_normpath p"

primrec path_normcase :: "os_path \<Rightarrow> string \<Rightarrow> string" where
  "path_normcase Posixpath p = posix_normcase p"
| "path_normcase Ntpath p = nt_normcase p"

text \<open>\<open>os.curdir\<close> is \<open>'.'\<close> in both flavours.\<close>

definition os_curdir :: string where
  "os_curdir = ''.''"

text \<open>The head \<open>os.path.split\<close> returns is a prefix of its argument.\<close>

lemma path_split_prefix:
  assumes "path_split fl p = (d, b)"
  shows "\<exists>t. p = d @ t"
  using assms by (cases fl) (auto intro: posix_split_prefix nt_split_prefix)

lemma path_split_shorter:
  assumes "path_split fl p = (d, b)" and "d \<noteq> p"
  shows "length d < length p"
proof -
  obtain t where "p = d @ t" using path_split_prefix [OF assms(1)] by blast
  with assms(2) show ?thesis by (cases t) auto
qed

end
