(* ===== verification/Config.thy ===== *)
theory Config
  imports OsPath
begin

text \<open>
  Start-up of the script (lines 9--35 of \<open>src/shaders/mesh_update.py\<close>): the static
  \<open>SETTINGS\<close> table, the platform lookup, the checks of the directories and of the
  converter, and the normalisation of the directories.  The outcome is what the
  process printed and either the exception that ends it (\<open>SystemExit 1\<close> from
  \<open>exit(1)\<close>, or an uncaught error) or the configuration the polling loop runs with.
\<close>

subsection \<open>The settings table\<close>

text \<open>
  A Python dict literal whose values are strings or \<open>None\<close>: an association list
  in the literal's order, with \<open>string option\<close> values.
\<close>

type_synonym py_dict = "(string \<times> string option) list"

definition SETTINGS :: "(string \<times> py_dict) list" where
  "SETTINGS =
     [(''Darwin'', [(''dir'', Some ''/Users/dooz/OneDrive/gfx''), (''conv'', None)]),
      (''Windows'',
        [(''input_dir'', Some ''d:/onedrive/tano/c4d''),
         (''output_dir'', Some ''d:/projects/tano/gfx''),
         (''conv'', Some ''D:/projects/melange_exporter/_win32/Release/exporter.exe'')])]"

text \<open>\<open>d.get(k, None)\<close>: a missing key and a key bound to \<open>None\<close> both give \<open>None\<close>.\<close>

definition dict_get :: "py_dict \<Rightarrow> string \<Rightarrow> string option" where
  "dict_get d k = (case map_of d k of None \<Rightarrow> None | Some v \<Rightarrow> v)"

subsection \<open>Start-up\<close>

text \<open>The configuration the loop runs with.\<close>

record config =
  cfg_path :: os_path
  input_dir :: string
  output_dir :: string
  conv :: string

text \<open>
  Line 21 tests \<open>dir is None\<close>.  \<open>dir\<close> is not the settings but Python's builtin
  function \<open>dir\<close>, an object that is never \<open>None\<close>: the test is always false.
\<close>

definition dir_is_None :: bool where
  "dir_is_None = False"

text \<open>
  Lines 19--35.  \<open>settings\<close> is \<open>None\<close> for a platform missing from the table, and
  \<open>settings.get\<close> on line 25 then raises \<open>AttributeError\<close>.
\<close>

definition startup :: "string \<Rightarrow> string list \<times> (py_exc + config)" where
  "startup system =
     (let settings = map_of SETTINGS system in
      if dir_is_None then ([''Unknown system: '' @ system], Inl (SystemExit 1))
      else case settings of
        None \<Rightarrow> ([], Inl AttributeError)
      | Some st \<Rightarrow>
          (case (dict_get st ''input_dir'', dict_get st ''output_dir'') of
             (Some i, Some ou) \<Rightarrow>
               (let fl = os_path_of system;
                    i' = path_normpath fl i;
                    ou' = path_normpath fl ou
                in case dict_get st ''conv'' of
                     None \<Rightarrow> ([''Unable to find converter''], Inl (SystemExit 1))
                   | Some c \<Rightarrow>
                       ([], Inr \<lparr>cfg_path = fl, input_dir = i', output_dir = ou', conv = c\<rparr>))
           | (i, ou) \<Rightarrow>
               ([''Unable to find directory; input: '' @ py_str_opt i @ '', output: ''
                  @ py_str_opt ou], Inl (SystemExit 1))))"

text \<open>
  The exit status of the process for the exception that ends it: the argument of
  \<open>SystemExit\<close>, and 1 for an uncaught exception (CPython's behaviour).
\<close>

fun exit_status :: "py_exc \<Rightarrow> int" where
  "exit_status (SystemExit n) = n"
| "exit_status _ = 1"

subsection \<open>Lemmas\<close>

lemmas startup_defs = startup_def SETTINGS_def dict_get_def dir_is_None_def os_path_of_def

lemma nt_normpath_input [path_simps]:
  "nt_normpath ''d:/onedrive/tano/c4d'' =
     ''d:'' @ bslash # ''onedrive'' @ bslash # ''tano'' @ bslash # ''c4d''"
  by (simp add: nt_normpath_eval)

lemma nt_normpath_output [path_simps]:
  "nt_normpath ''d:/projects/tano/gfx'' =
     ''d:'' @ bslash # ''projects'' @ bslash # ''tano'' @ bslash # ''gfx''"
  by (simp add: nt_normpath_eval)

text \<open>The start-up outcome for every platform name, by the table's entries.\<close>

lemma startup_cases:
  "startup system =
     (if system = ''Windows'' then
        ([], Inr \<lparr>cfg_path = Ntpath,
                 input_dir = nt_normpath ''d:/onedrive/tano/c4d'',
                 output_dir = nt_normpath ''d:/projects/tano/gfx'',
                 conv = ''D:/projects/melange_exporter/_win32/Release/exporter.exe''\<rparr>)
      else if system = ''Darwin'' then
        ([''Unable to find directory; input: None, output: None''], Inl (SystemExit 1))
      else ([], Inl AttributeError))"
  by (simp add: startup_defs)

subsection \<open>Properties of start-up\<close>

text \<open>
  On Windows, start-up prints nothing and yields the configuration with both
  directories normalised to backslash form and the converter path unchanged.
\<close>

theorem startup_windows:
  "startup ''Windows'' =
     ([], Inr \<lparr>cfg_path = Ntpath,
              input_dir = ''d:'' @ bslash # ''onedrive'' @ bslash # ''tano'' @ bslash # ''c4d'',
              output_dir = ''d:'' @ bslash # ''projects'' @ bslash # ''tano'' @ bslash # ''gfx'',
              conv = ''D:/projects/melange_exporter/_win32/Release/exporter.exe''\<rparr>)"
  by (subst startup_cases) (simp only: if_True refl nt_normpath_input nt_normpath_output)

text \<open>
  C24: on a platform missing from the table, start-up never prints the intended
  "Unknown system" message: the guard of line 21 tests the builtin \<open>dir\<close>, so the
  process crashes with \<open>AttributeError\<close> at line 25, printing nothing.
\<close>

theorem startup_unknown_platform:
  assumes "system \<notin> fst ` set SETTINGS"
  shows "startup system = ([], Inl AttributeError)"
  using assms by (auto simp: startup_cases SETTINGS_def)

theorem startup_unknown_platform_witness:
  "''Linux'' \<notin> fst ` set SETTINGS \<and> startup ''Linux'' = ([], Inl AttributeError)"
proof -
  have h: "''Linux'' \<notin> fst ` set SETTINGS" by (simp add: SETTINGS_def)
  show ?thesis using h startup_unknown_platform [OF h] by simp
qed

text \<open>
  On macOS (\<open>'Darwin'\<close>), whose entry has no \<open>input_dir\<close> or \<open>output_dir\<close>,
  start-up prints the directory message with both values \<open>None\<close> and exits with 1.
\<close>

theorem startup_darwin:
  "startup ''Darwin'' =
     ([''Unable to find directory; input: None, output: None''], Inl (SystemExit 1))"
  by (simp add: startup_cases)

text \<open>
  C25: whenever start-up fails, the process exits with status 1, and the message
  "Unknown system" is never among what it printed.
\<close>

theorem startup_failure_status:
  assumes "snd (startup system) = Inl e"
  shows "exit_status e = 1 \<and> ''Unknown system: '' @ system \<notin> set (fst (startup system))"
  using assms by (auto simp: startup_cases split: if_splits)

theorem startup_failure_status_witness:
  "snd (startup ''Darwin'') = Inl (SystemExit 1) \<and> exit_status (SystemExit 1) = 1
   \<and> ''Unknown system: '' @ ''Darwin'' \<notin> set (fst (startup ''Darwin''))"
proof -
  have h: "snd (startup ''Darwin'') = Inl (SystemExit 1)" by (simp add: startup_cases)
  show ?thesis using h startup_failure_status [OF h] by simp
qed

text \<open>
  C26: the polling loop is reached only on Windows, with the \<open>ntpath\<close> flavour.
\<close>

theorem startup_runs_only_windows:
  assumes "snd (startup system) = Inr c"
  shows "system = ''Windows'' \<and> cfg_path c = Ntpath \<and> fst (startup system) = []"
  using assms by (auto simp: startup_cases split: if_splits)

theorem startup_runs_only_windows_witness:
  "\<exists>c. snd (startup ''Windows'') = Inr c \<and> cfg_path c = Ntpath"
proof -
  obtain c where h: "snd (startup ''Windows'') = Inr c" by (simp add: startup_cases)
  then show ?thesis using startup_runs_only_windows [OF h] by blast
qed

end
