(* ===== verification/FileSystem.thy ===== *)
theory FileSystem
  imports OsPath
begin

text \<open>
  The file system as the script observes it through \<open>os.listdir\<close> (inside
  \<open>glob\<close>), \<open>os.path.getmtime\<close>, \<open>os.path.lexists\<close> and \<open>os.path.isdir\<close>.  A path
  string maps to the directory's listing, in the order \<open>os.listdir\<close> returns it,
  and to the modification time of the entry; \<open>None\<close> is the \<open>os.error\<close> the call
  raises (no such entry, no permission).  Paths are compared as strings: the model
  does not identify two spellings of one file (case, separators), which the real
  Windows file system does.  Timestamps are any linear order: the script only
  compares them with \<open>>\<close>.
\<close>

record 't fs =
  listdir :: "string \<Rightarrow> string list option"
  mtimes :: "string \<Rightarrow> 't option"

text \<open>\<open>os.path.getmtime(p)\<close>: the time, or \<open>os.error\<close>.\<close>

definition getmtime :: "'t fs \<Rightarrow> string \<Rightarrow> py_exc + 't" where
  "getmtime w p = (case mtimes w p of None \<Rightarrow> Inl OSError | Some t \<Rightarrow> Inr t)"

text \<open>\<open>os.path.lexists\<close> and \<open>os.path.isdir\<close> (both swallow \<open>os.error\<close>).\<close>

definition lexists :: "'t fs \<Rightarrow> string \<Rightarrow> bool" where
  "lexists w p \<longleftrightarrow> mtimes w p \<noteq> None"

definition isdir :: "'t fs \<Rightarrow> string \<Rightarrow> bool" where
  "isdir w p \<longleftrightarrow> listdir w p \<noteq> None"

lemma getmtime_Inr_iff [simp]: "getmtime w p = Inr t \<longleftrightarrow> mtimes w p = Some t"
  by (simp add: getmtime_def split: option.split)

lemma getmtime_Inl_iff [simp]: "getmtime w p = Inl e \<longleftrightarrow> mtimes w p = None \<and> e = OSError"
  by (auto simp: getmtime_def split: option.split)

end
