(* ===== verification/Glob.thy ===== *)
theory Glob
  imports FileSystem
begin

text \<open>
  \<open>glob.glob\<close> and \<open>fnmatch\<close> of CPython 2.7, which line 38 of the script calls to
  enumerate the source files.  \<open>fnmatch.translate\<close> turns a shell pattern into a
  regular expression; here it produces the tokens of that expression, and
  \<open>tok_match\<close> is full matching of the expression (\<open>re.match\<close> with \<open>\Z\<close> and the
  flags \<open>(?ms)\<close>, so that \<open>.\<close> also matches a newline).
\<close>

subsection \<open>fnmatch\<close>

datatype class_item = CChar char | CRange char char

datatype pat_tok = TStar | TAny | TLit char | TClass bool "class_item list"

text \<open>
  The items of a character class \<open>[...]\<close> as \<open>re\<close> reads them: \<open>a-b\<close> is a range,
  any other character (a backslash too: \<open>translate\<close> doubles it) stands for itself.
\<close>

fun class_items :: "string \<Rightarrow> class_item list" where
  "class_items (a # m # b # rest) =
     (if m = CHR ''-'' then CRange a b # class_items rest
      else CChar a # class_items (m # b # rest))"
| "class_items (a # rest) = CChar a # class_items rest"
| "class_items [] = []"

text \<open>\<open>[!...]\<close> is the negated class \<open>[^...]\<close>.\<close>

fun class_tok :: "string \<Rightarrow> pat_tok" where
  "class_tok (x # r) = (if x = CHR ''!'' then TClass True (class_items r) else TClass False (class_items (x # r)))"
| "class_tok [] = TClass False []"

text \<open>
  \<open>fnmatch.translate\<close>, one pattern character (or one bracket expression) at a time;
  a \<open>[\<close> without a closing \<open>]\<close> is a literal.
\<close>

function fn_translate :: "string \<Rightarrow> pat_tok list" where
  "fn_translate [] = []"
| "fn_translate (c # rest) =
     (if c = CHR ''*'' then TStar # fn_translate rest
      else if c = CHR ''?'' then TAny # fn_translate rest
      else if c = CHR ''['' then
        (let j0 = (if rest \<noteq> [] \<and> hd rest = CHR ''!'' then 1 else 0);
             j1 = (if j0 < length rest \<and> rest ! j0 = CHR '']'' then Suc j0 else j0);
             j = j1 + length (takeWhile (\<lambda>x. x \<noteq> CHR '']'') (drop j1 rest))
         in if length rest \<le> j then TLit CHR ''['' # fn_translate rest
            else class_tok (take j rest) # fn_translate (drop (Suc j) rest))
      else TLit c # fn_translate rest)"
  by pat_completeness auto
termination
  by (relation "measure length") auto

text \<open>\<open>re.compile\<close> rejects a class with a range whose ends are out of order.\<close>

fun class_ok :: "class_item list \<Rightarrow> bool" where
  "class_ok [] = True"
| "class_ok (CChar c # is) = class_ok is"
| "class_ok (CRange a b # is) = (of_char a \<le> (of_char b :: nat) \<and> class_ok is)"

definition pat_ok :: "pat_tok list \<Rightarrow> bool" where
  "pat_ok toks = list_all (\<lambda>t. case t of TClass neg items \<Rightarrow> class_ok items | _ \<Rightarrow> True) toks"

fun class_has :: "class_item list \<Rightarrow> char \<Rightarrow> bool" where
  "class_has [] c = False"
| "class_has (CChar a # is) c = (a = c \<or> class_has is c)"
| "class_has (CRange a b # is) c =
     ((of_char a \<le> (of_char c :: nat) \<and> of_char c \<le> (of_char b :: nat)) \<or> class_has is c)"

text \<open>Full match of the translated expression against a name.\<close>

fun tok_match :: "pat_tok list \<Rightarrow> string \<Rightarrow> bool" where
  "tok_match [] s = (s = [])"
| "tok_match (TStar # ts) [] = tok_match ts []"
| "tok_match (TStar # ts) (x # xs) = (tok_match ts (x # xs) \<or> tok_match (TStar # ts) xs)"
| "tok_match (TAny # ts) s = (case s of [] \<Rightarrow> False | x # xs \<Rightarrow> tok_match ts xs)"
| "tok_match (TLit c # ts) s = (case s of [] \<Rightarrow> False | x # xs \<Rightarrow> x = c \<and> tok_match ts xs)"
| "tok_match (TClass neg items # ts) s =
     (case s of [] \<Rightarrow> False | x # xs \<Rightarrow> class_has items x \<noteq> neg \<and> tok_match ts xs)"

text \<open>
  \<open>fnmatch.filter(names, pat)\<close>: the pattern is normalised with \<open>os.path.normcase\<close>
  and compiled (which may raise \<open>re.error\<close>); under \<open>ntpath\<close> each name is
  normalised too before it is matched.
\<close>

definition fnmatch_filter :: "os_path \<Rightarrow> string list \<Rightarrow> string \<Rightarrow> py_exc + string list" where
  "fnmatch_filter fl names pat =
     (let toks = fn_translate (path_normcase fl pat) in
      if \<not> pat_ok toks then Inl ReError
      else Inr (case fl of
                  Posixpath \<Rightarrow> filter (\<lambda>n. tok_match toks n) names
                | Ntpath \<Rightarrow> filter (\<lambda>n. tok_match toks (path_normcase fl n)) names))"

subsection \<open>glob\<close>

text \<open>\<open>glob.has_magic\<close>: the string contains one of \<open>*?[\<close>.\<close>

definition has_magic :: "string \<Rightarrow> bool" where
  "has_magic s \<longleftrightarrow> (\<exists>c \<in> set s. c = CHR ''*'' \<or> c = CHR ''?'' \<or> c = CHR ''['')"

text \<open>
  \<open>glob.glob1(dirname, pattern)\<close>: an unreadable directory gives no names (the
  \<open>os.error\<close> is swallowed); names starting with a dot are dropped unless the
  pattern starts with one.
\<close>

definition glob1 :: "os_path \<Rightarrow> 't fs \<Rightarrow> string \<Rightarrow> string \<Rightarrow> py_exc + string list" where
  "glob1 fl w dirname pattern =
     (let dirname' = (if dirname = [] then os_curdir else dirname) in
      case listdir w dirname' of
        None \<Rightarrow> Inr []
      | Some names \<Rightarrow>
          (let names' = (if take 1 pattern \<noteq> ''.''
                         then filter (\<lambda>x. take 1 x \<noteq> ''.'') names else names)
           in fnmatch_filter fl names' pattern))"

text \<open>\<open>glob.glob0(dirname, basename)\<close>: a literal base name.\<close>

definition glob0 :: "os_path \<Rightarrow> 't fs \<Rightarrow> string \<Rightarrow> string \<Rightarrow> py_exc + string list" where
  "glob0 fl w dirname basename =
     (if basename = [] then Inr (if isdir w dirname then [basename] else [])
      else Inr (if lexists w (path_join fl dirname basename) then [basename] else []))"

text \<open>\<open>for dirname in dirs: for name in glob_in_dir(dirname, basename): yield join(dirname, name)\<close>\<close>

fun glob_dirs ::
  "(string \<Rightarrow> string \<Rightarrow> py_exc + string list) \<Rightarrow> os_path \<Rightarrow> string list \<Rightarrow> string \<Rightarrow> py_exc + string list"
where
  "glob_dirs g fl [] b = Inr []"
| "glob_dirs g fl (d # ds) b =
     (case g d b of
        Inl e \<Rightarrow> Inl e
      | Inr names \<Rightarrow>
          (case glob_dirs g fl ds b of
             Inl e \<Rightarrow> Inl e
           | Inr rest \<Rightarrow> Inr (map (path_join fl d) names @ rest)))"

text \<open>
  \<open>glob.iglob(pathname)\<close>, whose results \<open>glob.glob\<close> collects into a list.  The
  recursion on a directory part with wildcards is on a strict prefix of the
  pattern (\<open>path_split_shorter\<close>), which is its termination argument.
\<close>

function iglob :: "os_path \<Rightarrow> 't fs \<Rightarrow> string \<Rightarrow> py_exc + string list" where
  "iglob fl w pathname =
     (let (dirname, basename) = path_split fl pathname in
      if \<not> has_magic pathname then
        Inr (if basename \<noteq> [] then (if lexists w pathname then [pathname] else [])
             else (if isdir w dirname then [pathname] else []))
      else if dirname = [] then glob1 fl w os_curdir basename
      else
        (case (if dirname \<noteq> pathname \<and> has_magic dirname then iglob fl w dirname
               else Inr [dirname]) of
           Inl e \<Rightarrow> Inl e
         | Inr dirs \<Rightarrow>
             glob_dirs (if has_magic basename then glob1 fl w else glob0 fl w) fl dirs basename))"
  by pat_completeness auto
termination
  by (relation "measure (\<lambda>(fl, w, p). length p)") (auto intro: path_split_shorter [OF sym])

declare iglob.simps [simp del]

definition glob :: "os_path \<Rightarrow> 't fs \<Rightarrow> string \<Rightarrow> py_exc + string list" where
  "glob fl w pathname = iglob fl w pathname"

subsection \<open>Lemmas: the pattern \<open>*.c4d\<close>\<close>

lemma tok_match_lits: "tok_match (map TLit xs) s \<longleftrightarrow> s = xs"
  by (induction xs arbitrary: s) (auto split: list.splits)

lemma tok_match_star: "tok_match (TStar # ts) s \<longleftrightarrow> (\<exists>k \<le> length s. tok_match ts (drop k s))"
proof (induction s)
  case Nil
  then show ?case by simp
next
  case (Cons x xs)
  have "(\<exists>k \<le> length (x # xs). tok_match ts (drop k (x # xs))) \<longleftrightarrow>
        tok_match ts (x # xs) \<or> (\<exists>k \<le> length xs. tok_match ts (drop k xs))"
  proof
    assume "\<exists>k \<le> length (x # xs). tok_match ts (drop k (x # xs))"
    then obtain k where k: "k \<le> length (x # xs)" "tok_match ts (drop k (x # xs))" by blast
    then show "tok_match ts (x # xs) \<or> (\<exists>k \<le> length xs. tok_match ts (drop k xs))"
      by (cases k) auto
  next
    assume "tok_match ts (x # xs) \<or> (\<exists>k \<le> length xs. tok_match ts (drop k xs))"
    then show "\<exists>k \<le> length (x # xs). tok_match ts (drop k (x # xs))"
    proof
      assume "tok_match ts (x # xs)"
      then show ?thesis by (intro exI [of _ 0]) simp
    next
      assume "\<exists>k \<le> length xs. tok_match ts (drop k xs)"
      then obtain k where "k \<le> length xs" "tok_match ts (drop k xs)" by blast
      then show ?thesis by (intro exI [of _ "Suc k"]) simp
    qed
  qed
  with Cons.IH show ?case by simp
qed

lemma drop_eq_suffix: "(\<exists>k \<le> length s. drop k s = xs) \<longleftrightarrow> (\<exists>u. s = u @ xs)"
  by (metis append_take_drop_id diff_le_self drop_all length_append add_diff_cancel_left' drop_append le_add1 append_eq_conv_conj)

lemma fn_translate_c4d: "fn_translate ''*.c4d'' = TStar # map TLit ''.c4d''"
  by simp

lemma c4d_match: "tok_match (fn_translate ''*.c4d'') s \<longleftrightarrow> (\<exists>u. s = u @ ''.c4d'')"
  by (simp only: fn_translate_c4d tok_match_star tok_match_lits drop_eq_suffix)

lemma c4d_pattern_facts [path_simps]:
  "pat_ok (fn_translate ''*.c4d'')" "nt_normcase ''*.c4d'' = ''*.c4d''"
  "has_magic ''*.c4d''" "nt_plain ''*.c4d''"
  by (simp_all add: pat_ok_def nt_normcase_eval has_magic_def nt_plain_def nt_seps_def)

text \<open>Whether a listed name is taken by \<open>glob\<close> under \<open>ntpath\<close>: not hidden, and
  ending in \<open>.c4d\<close> after \<open>normcase\<close> (so in any letter case).\<close>

definition nt_c4d_name :: "string \<Rightarrow> bool" where
  "nt_c4d_name n \<longleftrightarrow> take 1 n \<noteq> ''.'' \<and> drop (length n - 4) (nt_normcase n) = ''.c4d''"

lemma nt_c4d_name_iff:
  "nt_c4d_name n \<longleftrightarrow> take 1 n \<noteq> ''.'' \<and> (\<exists>u. nt_normcase n = u @ ''.c4d'')"
  by (simp add: nt_c4d_name_def suffix_drop_iff eval_nat_numeral)

lemma fnmatch_filter_nt_c4d:
  "fnmatch_filter Ntpath names ''*.c4d'' = Inr (filter (\<lambda>n. \<exists>u. nt_normcase n = u @ ''.c4d'') names)"
proof -
  have "fnmatch_filter Ntpath names ''*.c4d'' =
          Inr (filter (\<lambda>n. tok_match (fn_translate ''*.c4d'') (nt_normcase n)) names)"
    by (simp only: fnmatch_filter_def Let_def path_normcase.simps c4d_pattern_facts
        not_True_eq_False if_False os_path.case)
  then show ?thesis by (simp only: c4d_match)
qed

lemma glob1_nt_c4d:
  assumes "d \<noteq> []"
  shows "glob1 Ntpath w d ''*.c4d'' =
           Inr (case listdir w d of None \<Rightarrow> [] | Some names \<Rightarrow> filter nt_c4d_name names)"
  using assms
  by (auto simp: glob1_def fnmatch_filter_nt_c4d nt_c4d_name_iff [abs_def] filter_filter conj_commute
      split: option.split)

lemma glob_nt_dir_eq:
  assumes "nt_drive_dir d" and "\<not> has_magic d" and "nt_plain pat" and "has_magic pat"
  shows "glob Ntpath w (nt_join d pat) =
           (case glob1 Ntpath w d pat of Inl e \<Rightarrow> Inl e | Inr names \<Rightarrow> Inr (map (nt_join d) names))"
proof -
  let ?p = "nt_join d pat"
  have j: "?p = d @ bslash # pat" using assms(1,3) by (rule nt_join_drive_dir)
  have sp: "path_split Ntpath ?p = (d, pat)" using assms(1,3) by (simp add: nt_split_join)
  have d: "d \<noteq> []" "d \<noteq> ?p" using j assms(1) by (auto simp: nt_drive_dir_def)
  have m: "has_magic ?p" using j assms(4) by (auto simp: has_magic_def)
  show ?thesis
    using sp d m assms(2,4)
    by (simp add: glob_def iglob.simps [of Ntpath w ?p] split: sum.split)
qed

lemma glob_nt_c4d_eq:
  assumes "nt_drive_dir d" and "\<not> has_magic d"
  shows "glob Ntpath w (nt_join d ''*.c4d'') =
           Inr (case listdir w d of None \<Rightarrow> []
                | Some names \<Rightarrow> map (nt_join d) (filter nt_c4d_name names))"
proof -
  have "d \<noteq> []" using assms(1) by (auto simp: nt_drive_dir_def)
  then show ?thesis using assms
    by (simp add: glob_nt_dir_eq c4d_pattern_facts glob1_nt_c4d split: option.split)
qed

subsection \<open>fnmatch against a reference semantics\<close>

text \<open>
  The meaning of a shell pattern the \<open>fnmatch\<close> documentation gives: \<open>*\<close> matches
  any sequence, \<open>?\<close> any one character, any other character itself (brackets
  aside).  It is a specification: no code computes it.
\<close>

fun wild_match :: "string \<Rightarrow> string \<Rightarrow> bool" where
  "wild_match [] s = (s = [])"
| "wild_match (c # p) s =
     (if c = CHR ''*'' then (\<exists>k \<le> length s. wild_match p (drop k s))
      else case s of [] \<Rightarrow> False | x # xs \<Rightarrow> (c = CHR ''?'' \<or> x = c) \<and> wild_match p xs)"

lemma tok_match_wild_match:
  assumes "CHR ''['' \<notin> set p"
  shows "tok_match (fn_translate p) s \<longleftrightarrow> wild_match p s"
  using assms
proof (induction p arbitrary: s)
  case Nil
  then show ?case by simp
next
  case (Cons c p)
  then have ih: "\<And>s. tok_match (fn_translate p) s = wild_match p s" and c: "c \<noteq> CHR ''[''" by auto
  show ?case
  proof (cases "c = CHR ''*''")
    case True
    then show ?thesis by (simp add: tok_match_star ih)
  next
    case False
    then show ?thesis using c ih by (cases s) auto
  qed
qed

text \<open>
  \<open>fnmatch\<close> (translation to tokens, then matching) agrees with the reference
  semantics of shell patterns on every pattern without brackets and every name.
\<close>

theorem fn_translate_wild_match:
  assumes "CHR ''['' \<notin> set p"
  shows "tok_match (fn_translate p) s \<longleftrightarrow> wild_match p s"
  using assms by (rule tok_match_wild_match)

subsection \<open>glob in one directory against its specification\<close>

text \<open>
  What \<open>glob(d\\pat)\<close> promises for a directory without wildcards and a bracket-free
  pattern without separators: the entries of \<open>d\<close>, in listing order, that are not
  hidden (unless the pattern starts with a dot) and whose \<open>normcase\<close> matches the
  pattern's in the wildcard semantics, each joined to \<open>d\<close>; nothing for a directory
  that cannot be listed.
\<close>

definition glob_dir_spec :: "'t fs \<Rightarrow> string \<Rightarrow> string \<Rightarrow> string list" where
  "glob_dir_spec w d pat =
     (case listdir w d of None \<Rightarrow> []
      | Some names \<Rightarrow>
          map (nt_join d) (filter (\<lambda>n. (take 1 pat = ''.'' \<or> take 1 n \<noteq> ''.'')
                                      \<and> wild_match (nt_normcase pat) (nt_normcase n)) names))"

lemma pat_ok_no_bracket: "CHR ''['' \<notin> set p \<Longrightarrow> pat_ok (fn_translate p)"
  by (induction p) (auto simp: pat_ok_def)

text \<open>
  Refinement: the \<open>glob\<close> algorithm (\<open>iglob\<close>, \<open>glob1\<close>, \<open>fnmatch.filter\<close>,
  \<open>translate\<close> and matching) implements the specification \<open>glob_dir_spec\<close>.
\<close>

theorem glob_refines_spec:
  assumes "nt_drive_dir d" and "\<not> has_magic d" and "nt_plain pat" and "has_magic pat"
    and "CHR ''['' \<notin> set pat"
  shows "glob Ntpath w (nt_join d pat) = Inr (glob_dir_spec w d pat)"
proof -
  have nb: "CHR ''['' \<notin> set (nt_normcase pat)" using assms(5) by (rule nt_normcase_no_bracket)
  have f: "fnmatch_filter Ntpath ns pat = Inr (filter (\<lambda>n. wild_match (nt_normcase pat) (nt_normcase n)) ns)" for ns
    using pat_ok_no_bracket [OF nb] fn_translate_wild_match [OF nb]
    by (simp add: fnmatch_filter_def)
  have "d \<noteq> []" using assms(1) by (auto simp: nt_drive_dir_def)
  then show ?thesis using assms(1-4)
    by (auto simp: glob_nt_dir_eq glob1_def f glob_dir_spec_def filter_filter conj_commute
        split: option.split)
qed

end
