(* ===== verification/Reconcile.thy ===== *)
theory Reconcile
  imports Glob Config
begin

text \<open>
  One pass of the polling loop, lines 38--53 of \<open>src/shaders/mesh_update.py\<close>
  (the loop itself, lines 37 and 54, is in \<open>Loop\<close>).  The process
  state is the file system, the clock (read by \<open>time.ctime()\<close>) and the trace of
  what the process did that the outside world sees, in order: the \<open>Converting\<close>
  line it printed, each \<open>subprocess.call\<close> with its arguments and the exit code it
  returned, and each \<open>time.sleep(1)\<close>.  The external converter is a parameter: a
  function from the argument vector and the world to the exit code and the world
  after the child has exited, or \<open>None\<close> when the process cannot be spawned
  (\<open>OSError\<close>).  A step that raises returns the exception with the state at the
  point of the raise, since the effects before it have happened.
\<close>

datatype 't event = Converting 't string string | Called "string list" int | Slept

record 't state =
  fs :: "'t fs"
  clock :: 't
  trace :: "'t event list"

type_synonym 't converter = "string list \<Rightarrow> 't fs \<Rightarrow> 't \<Rightarrow> (int \<times> 't fs \<times> 't) option"

type_synonym 't result = "(py_exc \<times> 't state) + 't state"

subsection \<open>One source file\<close>

text \<open>Lines 41--43: the output path derived from the source path.\<close>

definition mesh_name_of :: "config \<Rightarrow> string \<Rightarrow> string" where
  "mesh_name_of cfg c4d_name =
     (let fl = cfg_path cfg;
          (path, filename) = path_split fl c4d_name;
          (head, tail) = path_splitext fl filename
      in path_join fl (output_dir cfg) head @ ''.boba'')"

text \<open>
  Lines 44--49: any error reading the output's time means "convert" (the bare
  \<open>except:\<close>); otherwise convert when the source is strictly newer.
\<close>

definition should_convert :: "'t::linorder fs \<Rightarrow> 't \<Rightarrow> string \<Rightarrow> bool" where
  "should_convert w c4d_time mesh_name =
     (case getmtime w mesh_name of
        Inl e \<Rightarrow> True
      | Inr mesh_time \<Rightarrow> c4d_time > mesh_time)"

text \<open>
  Lines 39--53, the body of the \<open>for\<close> loop.  \<open>getmtime\<close> of the source (line 40)
  is outside the \<open>try\<close>: its error ends the process.  The exit code \<open>res\<close> of the
  converter is stored and never read.
\<close>

definition process_one :: "'t::linorder converter \<Rightarrow> config \<Rightarrow> 't state \<Rightarrow> string \<Rightarrow> 't result" where
  "process_one cv cfg s c4d_name =
     (case getmtime (fs s) c4d_name of
        Inl e \<Rightarrow> Inl (e, s)
      | Inr c4d_time \<Rightarrow>
          (let mesh_name = mesh_name_of cfg c4d_name in
           if should_convert (fs s) c4d_time mesh_name then
             (let s1 = s\<lparr>trace := trace s @ [Converting (clock s) c4d_name mesh_name]\<rparr>;
                  argv = [conv cfg, c4d_name, mesh_name]
              in case cv argv (fs s1) (clock s1) of
                   None \<Rightarrow> Inl (OSError, s1)
                 | Some (res, w', t') \<Rightarrow>
                     Inr (s1\<lparr>fs := w', clock := t', trace := trace s1 @ [Called argv res]\<rparr>))
           else Inr s))"

subsection \<open>One pass\<close>

text \<open>The \<open>for\<close> loop of line 38 over the list \<open>glob.glob\<close> returned.\<close>

fun process_all :: "'t::linorder converter \<Rightarrow> config \<Rightarrow> 't state \<Rightarrow> string list \<Rightarrow> 't result" where
  "process_all cv cfg s [] = Inr s"
| "process_all cv cfg s (n # ns) =
     (case process_one cv cfg s n of
        Inl e \<Rightarrow> Inl e
      | Inr s' \<Rightarrow> process_all cv cfg s' ns)"

text \<open>Line 38: the sources are globbed once, on the file system at the start of the pass.\<close>

definition source_pattern :: "config \<Rightarrow> string" where
  "source_pattern cfg = path_join (cfg_path cfg) (input_dir cfg) ''*.c4d''"

definition scan_pass :: "'t::linorder converter \<Rightarrow> config \<Rightarrow> 't state \<Rightarrow> 't result" where
  "scan_pass cv cfg s =
     (case glob (cfg_path cfg) (fs s) (source_pattern cfg) of
        Inl e \<Rightarrow> Inl (e, s)
      | Inr names \<Rightarrow> process_all cv cfg s names)"

subsection \<open>Lemmas: one source file\<close>

text \<open>The state after a conversion of \<open>src\<close> whose converter returned \<open>(res, w', t')\<close>.\<close>

definition converted :: "'t state \<Rightarrow> config \<Rightarrow> string \<Rightarrow> int \<Rightarrow> 't fs \<Rightarrow> 't \<Rightarrow> 't state" where
  "converted s cfg src res w' t' =
     s\<lparr>fs := w', clock := t',
       trace := trace s @ [Converting (clock s) src (mesh_name_of cfg src),
                           Called [conv cfg, src, mesh_name_of cfg src] res]\<rparr>"

lemma should_convert_iff:
  "should_convert w ct m \<longleftrightarrow> (case mtimes w m of None \<Rightarrow> True | Some mt \<Rightarrow> mt < ct)"
  by (simp add: should_convert_def getmtime_def split: option.split)

lemma process_one_not_stale_eq:
  "mtimes (fs s) src = Some ct \<Longrightarrow> \<not> should_convert (fs s) ct (mesh_name_of cfg src) \<Longrightarrow>
   process_one cv cfg s src = Inr s"
  by (simp add: process_one_def getmtime_def)

lemma process_one_stale_eq:
  assumes "mtimes (fs s) src = Some ct" and "should_convert (fs s) ct (mesh_name_of cfg src)"
  shows "process_one cv cfg s src =
           (case cv [conv cfg, src, mesh_name_of cfg src] (fs s) (clock s) of
              None \<Rightarrow> Inl (OSError, s\<lparr>trace := trace s @ [Converting (clock s) src (mesh_name_of cfg src)]\<rparr>)
            | Some (res, w', t') \<Rightarrow> Inr (converted s cfg src res w' t'))"
  using assms by (simp add: process_one_def getmtime_def converted_def Let_def split: option.split)

subsection \<open>Lemmas: the derived output path under ntpath\<close>

lemma nt_plain_stem:
  assumes "nt_plain (stem @ rest)" and "stem \<noteq> []"
  shows "nt_plain stem"
  using assms by (auto simp: nt_plain_def nth_append split: if_splits)

text \<open>
  The output path of a source \<open>d\\n\<close> with \<open>n = stem.ext\<close> is \<open>output_dir\\stem.boba\<close>:
  it does not depend on the source directory \<open>d\<close> nor on the extension.
\<close>

lemma mesh_name_nt:
  assumes "cfg_path cfg = Ntpath" and "nt_drive_dir (output_dir cfg)" and "nt_drive_dir d"
    and "nt_plain (stem @ CHR ''.'' # ext)" and "CHR ''.'' \<notin> set ext"
    and "stem \<noteq> []" and "hd stem \<noteq> CHR ''.''"
  shows "mesh_name_of cfg (nt_join d (stem @ CHR ''.'' # ext)) = output_dir cfg @ bslash # stem @ ''.boba''"
proof -
  have sp: "nt_split (nt_join d (stem @ CHR ''.'' # ext)) = (d, stem @ CHR ''.'' # ext)"
    using assms(3,4) by (rule nt_split_join)
  have se: "nt_splitext (stem @ CHR ''.'' # ext) = (stem, CHR ''.'' # ext)"
    using assms(4-7) by (intro nt_splitext_name) (auto simp: nt_plain_def)
  have j: "nt_join (output_dir cfg) stem = output_dir cfg @ bslash # stem"
    using assms(2) nt_plain_stem [OF assms(4) assms(6)] by (rule nt_join_drive_dir)
  show ?thesis using assms(1) sp se j by (simp add: mesh_name_of_def)
qed

subsection \<open>Staleness and converters\<close>

text \<open>
  A source is stale when the pass would convert it: its time can be read and the
  output's time cannot, or is older.  It is up to date when both times can be read
  and the output is not older.
\<close>

definition stale :: "'t::linorder fs \<Rightarrow> config \<Rightarrow> string \<Rightarrow> bool" where
  "stale w cfg n =
     (case mtimes w n of None \<Rightarrow> False | Some ct \<Rightarrow> should_convert w ct (mesh_name_of cfg n))"

definition up_to_date :: "'t::linorder fs \<Rightarrow> config \<Rightarrow> string \<Rightarrow> bool" where
  "up_to_date w cfg n =
     (case (mtimes w n, mtimes w (mesh_name_of cfg n)) of
        (Some ct, Some mt) \<Rightarrow> ct \<le> mt
      | _ \<Rightarrow> False)"

text \<open>The argument vectors of the \<open>subprocess.call\<close>s of a trace, in order.\<close>

fun calls_of :: "'t event list \<Rightarrow> string list list" where
  "calls_of [] = []"
| "calls_of (Called argv r # es) = argv # calls_of es"
| "calls_of (Converting t a b # es) = calls_of es"
| "calls_of (Slept # es) = calls_of es"

text \<open>
  What the script may assume of the external converter, for the pass-level results:
  it never fails to start, leaves the directory listings alone and changes the time
  of no file but its last argument, the destination.
\<close>

definition conv_frame :: "'t converter \<Rightarrow> bool" where
  "conv_frame cv \<longleftrightarrow>
     (\<forall>argv w t. \<exists>res w' t'. cv argv w t = Some (res, w', t') \<and> listdir w' = listdir w
        \<and> (\<forall>p. p \<noteq> last argv \<longrightarrow> mtimes w' p = mtimes w p))"

text \<open>
  A converter that meets it: it writes the destination, stamped with the current
  time, within the same clock reading, and exits with 0.
\<close>

definition stamp_converter :: "'t converter" where
  "stamp_converter argv w t =
     (case argv of
        [c, src, dst] \<Rightarrow> Some (0, w\<lparr>mtimes := (mtimes w)(dst \<mapsto> t)\<rparr>, t)
      | _ \<Rightarrow> Some (1, w, t))"

lemma calls_of_append [simp]: "calls_of (xs @ ys) = calls_of xs @ calls_of ys"
  by (induction xs rule: calls_of.induct) simp_all

lemma stale_up_to_date:
  "mtimes w n \<noteq> None \<Longrightarrow> stale w cfg n \<longleftrightarrow> \<not> up_to_date w cfg n"
  by (auto simp: stale_def up_to_date_def should_convert_iff not_less split: option.splits)

lemma stale_frame:
  "mtimes w' n = mtimes w n \<Longrightarrow> mtimes w' (mesh_name_of cfg n) = mtimes w (mesh_name_of cfg n) \<Longrightarrow>
   stale w' cfg n = stale w cfg n"
  by (simp add: stale_def should_convert_iff split: option.split)

lemma stamp_converter_frame: "conv_frame stamp_converter"
  by (auto simp: conv_frame_def stamp_converter_def split: list.split)

lemma process_one_frame:
  assumes "conv_frame cv" and "mtimes (fs s) n \<noteq> None"
  obtains s' where "process_one cv cfg s n = Inr s'" and "listdir (fs s') = listdir (fs s)"
    and "\<forall>p. p \<noteq> mesh_name_of cfg n \<longrightarrow> mtimes (fs s') p = mtimes (fs s) p"
proof -
  obtain ct where ct: "mtimes (fs s) n = Some ct" using assms(2) by blast
  show ?thesis
  proof (cases "should_convert (fs s) ct (mesh_name_of cfg n)")
    case True
    obtain res w' t' where cv: "cv [conv cfg, n, mesh_name_of cfg n] (fs s) (clock s) = Some (res, w', t')"
      and "listdir w' = listdir (fs s)" and "\<forall>p. p \<noteq> mesh_name_of cfg n \<longrightarrow> mtimes w' p = mtimes (fs s) p"
      using assms(1) unfolding conv_frame_def by (metis last_ConsR last_ConsL list.distinct(1))
    then show ?thesis
      using that process_one_stale_eq [OF ct True] by (simp add: converted_def)
  next
    case False
    then show ?thesis using that process_one_not_stale_eq [OF ct False] by simp
  qed
qed

lemma process_all_frame:
  assumes "conv_frame cv" and "\<forall>n \<in> set ns. mtimes (fs s) n \<noteq> None"
    and "\<forall>n \<in> set ns. \<forall>m \<in> set ns. mesh_name_of cfg m \<noteq> n"
  shows "\<exists>s'. process_all cv cfg s ns = Inr s' \<and> listdir (fs s') = listdir (fs s)
           \<and> (\<forall>p. p \<notin> mesh_name_of cfg ` set ns \<longrightarrow> mtimes (fs s') p = mtimes (fs s) p)"
  using assms(2,3)
proof (induction ns arbitrary: s)
  case Nil
  then show ?case by simp
next
  case (Cons n ns)
  obtain s1 where p1: "process_one cv cfg s n = Inr s1" and l1: "listdir (fs s1) = listdir (fs s)"
    and m1: "\<forall>p. p \<noteq> mesh_name_of cfg n \<longrightarrow> mtimes (fs s1) p = mtimes (fs s) p"
    using process_one_frame [OF assms(1)] Cons.prems(1) by (metis list.set_intros(1))
  have "\<forall>q \<in> set ns. mtimes (fs s1) q = mtimes (fs s) q"
    using m1 Cons.prems(2) by auto
  then obtain s' where "process_all cv cfg s1 ns = Inr s'" and "listdir (fs s') = listdir (fs s1)"
    and "\<forall>p. p \<notin> mesh_name_of cfg ` set ns \<longrightarrow> mtimes (fs s') p = mtimes (fs s1) p"
    using Cons.IH [of s1] Cons.prems by auto
  then show ?case using p1 l1 m1 by auto
qed

lemma process_one_stale_frame:
  assumes "conv_frame cv" and "mtimes (fs s) n = Some ct" and "stale (fs s) cfg n"
  obtains res w' t' where "process_one cv cfg s n = Inr (converted s cfg n res w' t')"
    and "listdir w' = listdir (fs s)"
    and "\<forall>p. p \<noteq> mesh_name_of cfg n \<longrightarrow> mtimes w' p = mtimes (fs s) p"
proof -
  from assms(1) obtain res w' t' where cv: "cv [conv cfg, n, mesh_name_of cfg n] (fs s) (clock s) = Some (res, w', t')"
    and fr: "listdir w' = listdir (fs s)" "\<forall>p. p \<noteq> mesh_name_of cfg n \<longrightarrow> mtimes w' p = mtimes (fs s) p"
    unfolding conv_frame_def by (metis last.simps list.distinct(1))
  have "should_convert (fs s) ct (mesh_name_of cfg n)" using assms(2,3) by (simp add: stale_def)
  then have "process_one cv cfg s n = Inr (converted s cfg n res w' t')"
    using assms(2) cv by (simp add: process_one_stale_eq)
  with fr show ?thesis using that by blast
qed

subsection \<open>Lemmas: one pass\<close>

lemma process_all_up_to_date:
  "\<forall>n \<in> set ns. up_to_date (fs s) cfg n \<Longrightarrow> process_all cv cfg s ns = Inr s"
  by (induction ns)
     (auto simp: up_to_date_def process_one_not_stale_eq should_convert_iff not_less
       split: option.splits)

lemma up_to_date_stamp:
  assumes "up_to_date w cfg m" and "mtimes w m = Some c" and "c \<le> t" and "m \<noteq> d"
  shows "up_to_date (w\<lparr>mtimes := (mtimes w)(d \<mapsto> t)\<rparr>) cfg m"
  using assms by (auto simp: up_to_date_def split: option.splits)

lemma process_all_stamp:
  assumes "\<forall>n \<in> set (dn @ ns). \<exists>ct. mtimes (fs s) n = Some ct \<and> ct \<le> clock s"
    and "\<forall>n \<in> set (dn @ ns). \<forall>m \<in> set (dn @ ns). mesh_name_of cfg m \<noteq> n"
    and "\<forall>m \<in> set dn. up_to_date (fs s) cfg m"
  shows "\<exists>s'. process_all stamp_converter cfg s ns = Inr s' \<and> clock s' = clock s
           \<and> (\<forall>n \<in> set (dn @ ns). mtimes (fs s') n = mtimes (fs s) n)
           \<and> (\<forall>m \<in> set (dn @ ns). up_to_date (fs s') cfg m)"
  using assms
proof (induction ns arbitrary: s dn)
  case Nil
  then show ?case by simp
next
  case (Cons n ns)
  from Cons.prems(1) obtain ct where ct: "mtimes (fs s) n = Some ct" "ct \<le> clock s" by auto
  show ?case
  proof (cases "stale (fs s) cfg n")
    case True
    let ?w = "(fs s)\<lparr>mtimes := (mtimes (fs s))(mesh_name_of cfg n \<mapsto> clock s)\<rparr>"
    let ?s1 = "converted s cfg n 0 ?w (clock s)"
    have p1: "process_one stamp_converter cfg s n = Inr ?s1"
      using ct True by (simp add: process_one_stale_eq stale_def stamp_converter_def)
    have keep: "\<forall>x \<in> set ((dn @ [n]) @ ns). mtimes (fs ?s1) x = mtimes (fs s) x"
      using Cons.prems(2) by (auto simp: converted_def)
    have utd: "\<forall>m \<in> set (dn @ [n]). up_to_date (fs ?s1) cfg m"
    proof
      fix m assume m: "m \<in> set (dn @ [n])"
      then obtain cm where cm: "mtimes (fs s) m = Some cm" "cm \<le> clock s" using Cons.prems(1) by auto
      have ne: "m \<noteq> mesh_name_of cfg n" using Cons.prems(2) m by auto
      show "up_to_date (fs ?s1) cfg m"
      proof (cases "m = n")
        case True
        then show ?thesis using ct ne by (simp add: converted_def up_to_date_def)
      next
        case False
        then have "up_to_date (fs s) cfg m" using m Cons.prems(3) by auto
        then show ?thesis using cm ne by (simp add: converted_def up_to_date_stamp)
      qed
    qed
    have "\<exists>s'. process_all stamp_converter cfg ?s1 ns = Inr s' \<and> clock s' = clock ?s1
           \<and> (\<forall>x \<in> set ((dn @ [n]) @ ns). mtimes (fs s') x = mtimes (fs ?s1) x)
           \<and> (\<forall>m \<in> set ((dn @ [n]) @ ns). up_to_date (fs s') cfg m)"
      using Cons.prems(1,2) keep utd by (intro Cons.IH) (auto simp: converted_def)
    then show ?thesis using p1 keep by (auto simp: converted_def)
  next
    case False
    then have p1: "process_one stamp_converter cfg s n = Inr s"
      using ct by (simp add: stale_def process_one_not_stale_eq)
    have "up_to_date (fs s) cfg n" using False ct stale_up_to_date [of "fs s" n cfg] by simp
    then have "\<forall>m \<in> set (dn @ [n]). up_to_date (fs s) cfg m" using Cons.prems(3) by auto
    then show ?thesis using Cons.IH [of "dn @ [n]" s] Cons.prems(1,2) p1 by auto
  qed
qed

lemma process_one_listdir:
  assumes "conv_frame cv" and "process_one cv cfg s n = Inr s'"
  shows "listdir (fs s') = listdir (fs s)"
proof -
  have "listdir w' = listdir w" if "cv argv w t = Some (res, w', t')" for argv w t res w' t'
    using assms(1) that unfolding conv_frame_def by (metis option.inject prod.inject)
  then show ?thesis using assms(2)
    by (auto simp: process_one_def Let_def split: sum.splits if_splits option.splits)
qed

lemma process_all_listdir:
  "conv_frame cv \<Longrightarrow> process_all cv cfg s ns = Inr s' \<Longrightarrow> listdir (fs s') = listdir (fs s)"
  by (induction ns arbitrary: s)
     (auto dest: process_one_listdir split: sum.splits)

text \<open>The state a pass ends in, whether it returned or raised.\<close>

fun result_state :: "'t result \<Rightarrow> 't state" where
  "result_state (Inl (e, s)) = s"
| "result_state (Inr s) = s"

lemma process_one_trace_growth:
  "\<exists>es. trace (result_state (process_one cv cfg s n)) = trace s @ es \<and> length es \<le> 2
        \<and> length (calls_of es) \<le> 1"
  by (auto simp: process_one_def Let_def split: sum.split option.split)

text \<open>
  C11: a pass over \<open>n\<close> sources adds at most \<open>2 * n\<close> events to the trace and
  calls the converter at most \<open>n\<close> times, whether it returns or raises; what was
  already in the trace is kept.
\<close>

theorem pass_output_bounded:
  "\<exists>es. trace (result_state (process_all cv cfg s ns)) = trace s @ es
        \<and> length es \<le> 2 * length ns \<and> length (calls_of es) \<le> length ns"
proof (induction ns arbitrary: s)
  case Nil
  then show ?case by simp
next
  case (Cons n ns)
  obtain es1 where e1: "trace (result_state (process_one cv cfg s n)) = trace s @ es1"
    "length es1 \<le> 2" "length (calls_of es1) \<le> 1"
    using process_one_trace_growth by blast
  show ?case
  proof (cases "process_one cv cfg s n")
    case (Inl r)
    then show ?thesis using e1 by (cases r) (auto intro!: exI [of _ es1])
  next
    case (Inr s1)
    obtain es2 where e2: "trace (result_state (process_all cv cfg s1 ns)) = trace s1 @ es2"
      "length es2 \<le> 2 * length ns" "length (calls_of es2) \<le> length ns"
      using Cons.IH by blast
    show ?thesis using Inr e1 e2 by (intro exI [of _ "es1 @ es2"]) auto
  qed
qed

subsection \<open>A concrete instance for the witnesses\<close>

text \<open>
  A Windows configuration with short directories, a source \<open>d:\\in\\a.c4d\<close> and its
  output \<open>d:\\out\\a.boba\<close>, with integer timestamps.
\<close>

definition ex_cfg :: config where
  "ex_cfg = \<lparr>cfg_path = Ntpath, input_dir = ''d:'' @ bslash # ''in'',
             output_dir = ''d:'' @ bslash # ''out'', conv = ''conv.exe''\<rparr>"

definition ex_src :: string where
  "ex_src = ''d:'' @ bslash # ''in'' @ bslash # ''a.c4d''"

definition ex_mesh :: string where
  "ex_mesh = ''d:'' @ bslash # ''out'' @ bslash # ''a.boba''"

definition ex_state :: "(string \<Rightarrow> int option) \<Rightarrow> int state" where
  "ex_state m = \<lparr>fs = \<lparr>listdir = (\<lambda>p. None), mtimes = m\<rparr>, clock = 5, trace = []\<rparr>"

lemma ex_mesh_name [simp]: "mesh_name_of ex_cfg ex_src = ex_mesh"
proof -
  have "nt_join (''d:'' @ bslash # ''in'') ''a.c4d'' = ex_src"
    by (simp add: nt_join_drive_dir nt_drive_dir_def nt_plain_def nt_seps_def ex_src_def)
  moreover have "mesh_name_of ex_cfg (nt_join (''d:'' @ bslash # ''in'') (''a'' @ CHR ''.'' # ''c4d'')) =
                 output_dir ex_cfg @ bslash # ''a'' @ ''.boba''"
    by (rule mesh_name_nt) (simp_all add: ex_cfg_def nt_drive_dir_def nt_plain_def nt_seps_def)
  ultimately show ?thesis by (simp add: ex_cfg_def ex_mesh_def)
qed

lemma ex_paths_differ [simp]: "ex_mesh \<noteq> ex_src" "ex_src \<noteq> ex_mesh"
  by (simp_all add: ex_mesh_def ex_src_def)

lemma ex_state_simps [simp]:
  "fs (ex_state m) = \<lparr>listdir = (\<lambda>p. None), mtimes = m\<rparr>" "clock (ex_state m) = 5"
  "trace (ex_state m) = []" "conv ex_cfg = ''conv.exe''"
  by (simp_all add: ex_state_def ex_cfg_def)

lemma ex_glob:
  "glob Ntpath \<lparr>listdir = [''d:'' @ bslash # ''in'' \<mapsto> [''a.c4d'', ''b.txt'']], mtimes = m\<rparr>
     (source_pattern ex_cfg) = Inr [ex_src]"
proof -
  have dd: "nt_drive_dir (''d:'' @ bslash # ''in'')" by (simp add: nt_drive_dir_def nt_seps_def)
  show ?thesis
    using glob_nt_c4d_eq [OF dd, of "\<lparr>listdir = [''d:'' @ bslash # ''in'' \<mapsto> [''a.c4d'', ''b.txt'']], mtimes = m\<rparr>"] dd
    by (simp add: source_pattern_def ex_cfg_def has_magic_def nt_c4d_name_def
        nt_normcase_eval nt_join_drive_dir nt_plain_def nt_seps_def ex_src_def)
qed

subsection \<open>Properties of one source file\<close>

text \<open>
  C1: a source whose output is older is converted: the script prints the
  \<open>Converting\<close> line with the current time, calls the converter once with the source
  and the derived output path, and continues with the world the converter left.
\<close>

theorem process_one_older_output:
  assumes "mtimes (fs s) src = Some ct" and "mtimes (fs s) (mesh_name_of cfg src) = Some mt"
    and "mt < ct"
    and "cv [conv cfg, src, mesh_name_of cfg src] (fs s) (clock s) = Some (res, w', t')"
  shows "process_one cv cfg s src =
           Inr (s\<lparr>fs := w', clock := t',
                  trace := trace s @ [Converting (clock s) src (mesh_name_of cfg src),
                                      Called [conv cfg, src, mesh_name_of cfg src] res]\<rparr>)"
  using assms by (simp add: process_one_stale_eq should_convert_iff converted_def)

theorem process_one_older_output_witness:
  "process_one stamp_converter ex_cfg (ex_state [ex_src \<mapsto> 3, ex_mesh \<mapsto> 2]) ex_src =
     Inr ((ex_state [ex_src \<mapsto> 3, ex_mesh \<mapsto> 2])\<lparr>fs := \<lparr>listdir = (\<lambda>p. None), mtimes = [ex_src \<mapsto> 3, ex_mesh \<mapsto> 5]\<rparr>,
        clock := 5, trace := [Converting 5 ex_src ex_mesh, Called [''conv.exe'', ex_src, ex_mesh] 0]\<rparr>)"
  using process_one_older_output [of "ex_state [ex_src \<mapsto> 3, ex_mesh \<mapsto> 2]" ex_src 3 ex_cfg 2
      stamp_converter 0 "\<lparr>listdir = (\<lambda>p. None), mtimes = [ex_src \<mapsto> 3, ex_mesh \<mapsto> 5]\<rparr>" 5]
  by (simp add: stamp_converter_def fun_upd_twist)

text \<open>
  C3: fail-open: when the output's time cannot be read (it does not exist), the
  source is converted, whatever the source's time.
\<close>

theorem process_one_missing_output:
  assumes "mtimes (fs s) src = Some ct" and "mtimes (fs s) (mesh_name_of cfg src) = None"
    and "cv [conv cfg, src, mesh_name_of cfg src] (fs s) (clock s) = Some (res, w', t')"
  shows "process_one cv cfg s src =
           Inr (s\<lparr>fs := w', clock := t',
                  trace := trace s @ [Converting (clock s) src (mesh_name_of cfg src),
                                      Called [conv cfg, src, mesh_name_of cfg src] res]\<rparr>)"
  using assms by (simp add: process_one_stale_eq should_convert_iff converted_def)

theorem process_one_missing_output_witness:
  "process_one stamp_converter ex_cfg (ex_state [ex_src \<mapsto> 3]) ex_src =
     Inr ((ex_state [ex_src \<mapsto> 3])\<lparr>fs := \<lparr>listdir = (\<lambda>p. None), mtimes = [ex_src \<mapsto> 3, ex_mesh \<mapsto> 5]\<rparr>,
        clock := 5, trace := [Converting 5 ex_src ex_mesh, Called [''conv.exe'', ex_src, ex_mesh] 0]\<rparr>)"
  using process_one_missing_output [of "ex_state [ex_src \<mapsto> 3]" ex_src 3 ex_cfg
      stamp_converter 0 "\<lparr>listdir = (\<lambda>p. None), mtimes = [ex_src \<mapsto> 3, ex_mesh \<mapsto> 5]\<rparr>" 5]
  by (simp add: stamp_converter_def)

text \<open>
  C2: a source whose output is at least as new is left alone: no line is printed,
  the converter is not called, and the state is unchanged.
\<close>

theorem process_one_up_to_date:
  assumes "mtimes (fs s) src = Some ct" and "mtimes (fs s) (mesh_name_of cfg src) = Some mt"
    and "ct \<le> mt"
  shows "process_one cv cfg s src = Inr s"
  using assms by (simp add: process_one_not_stale_eq should_convert_iff)

theorem process_one_up_to_date_witness:
  "process_one stamp_converter ex_cfg (ex_state [ex_src \<mapsto> 3, ex_mesh \<mapsto> 3]) ex_src =
     Inr (ex_state [ex_src \<mapsto> 3, ex_mesh \<mapsto> 3])"
  using process_one_up_to_date [of "ex_state [ex_src \<mapsto> 3, ex_mesh \<mapsto> 3]" ex_src 3 ex_cfg 3
      stamp_converter]
  by simp

text \<open>
  C20: the source's own time is read outside the \<open>try\<close> (line 40): when it cannot be
  read, the process dies with \<open>OSError\<close> before printing or converting anything.
\<close>

theorem process_one_source_error:
  assumes "mtimes (fs s) src = None"
  shows "process_one cv cfg s src = Inl (OSError, s)"
  using assms by (simp add: process_one_def getmtime_def)

theorem process_one_source_error_witness:
  "process_one stamp_converter ex_cfg (ex_state Map.empty) ex_src = Inl (OSError, ex_state Map.empty)"
  using process_one_source_error [of "ex_state Map.empty" ex_src stamp_converter ex_cfg] by simp

text \<open>
  C21: when the converter cannot be started, \<open>subprocess.call\<close> raises and nothing
  catches it: the process dies with \<open>OSError\<close> after printing the \<open>Converting\<close> line,
  with the file system unchanged and no retry.
\<close>

theorem process_one_spawn_error:
  assumes "mtimes (fs s) src = Some ct" and "stale (fs s) cfg src"
    and "cv [conv cfg, src, mesh_name_of cfg src] (fs s) (clock s) = None"
  shows "process_one cv cfg s src =
           Inl (OSError, s\<lparr>trace := trace s @ [Converting (clock s) src (mesh_name_of cfg src)]\<rparr>)"
  using assms by (simp add: process_one_stale_eq stale_def)

theorem process_one_spawn_error_witness:
  "process_one (\<lambda>argv w t. None) ex_cfg (ex_state [ex_src \<mapsto> 3]) ex_src =
     Inl (OSError, (ex_state [ex_src \<mapsto> 3])\<lparr>trace := [Converting 5 ex_src ex_mesh]\<rparr>)"
  using process_one_spawn_error [of "ex_state [ex_src \<mapsto> 3]" ex_src 3 ex_cfg "\<lambda>argv w t. None"]
  by (simp add: stale_def should_convert_iff)

subsection \<open>Properties of one pass\<close>

text \<open>
  C12: a pass over sources whose outputs are all up to date converts nothing and
  leaves the state unchanged, whatever the converter.
\<close>

theorem pass_all_up_to_date:
  assumes "\<forall>n \<in> set ns. up_to_date (fs s) cfg n"
  shows "process_all cv cfg s ns = Inr s"
  using assms by (rule process_all_up_to_date)

theorem pass_all_up_to_date_witness:
  "process_all stamp_converter ex_cfg (ex_state [ex_src \<mapsto> 3, ex_mesh \<mapsto> 4]) [ex_src] =
     Inr (ex_state [ex_src \<mapsto> 3, ex_mesh \<mapsto> 4])"
  using pass_all_up_to_date [of "[ex_src]" "ex_state [ex_src \<mapsto> 3, ex_mesh \<mapsto> 4]" ex_cfg stamp_converter]
  by (simp add: up_to_date_def)

text \<open>
  C5: with a converter that writes only its destination, a pass calls it exactly
  once for each stale source, in the order of the glob list, with the source and its
  derived output path, provided outputs are not themselves sources and no two
  sources share an output; no other call happens.
\<close>

theorem pass_calls_exactly_stale:
  assumes "conv_frame cv"
    and "\<forall>n \<in> set ns. mtimes (fs s) n \<noteq> None"
    and "\<forall>n \<in> set ns. \<forall>m \<in> set ns. mesh_name_of cfg m \<noteq> n"
    and "distinct (map (mesh_name_of cfg) ns)"
  shows "\<exists>s'. process_all cv cfg s ns = Inr s' \<and>
           calls_of (trace s') = calls_of (trace s) @
             map (\<lambda>n. [conv cfg, n, mesh_name_of cfg n]) (filter (stale (fs s) cfg) ns)"
  using assms(2-4)
proof (induction ns arbitrary: s)
  case Nil
  then show ?case by simp
next
  case (Cons n ns)
  from Cons.prems(1) obtain ct where ct: "mtimes (fs s) n = Some ct" by auto
  have sep: "\<forall>x \<in> set ns. \<forall>m \<in> set ns. mesh_name_of cfg m \<noteq> x"
    and dist: "distinct (map (mesh_name_of cfg) ns)" using Cons.prems(2,3) by auto
  have mn: "\<forall>x \<in> set ns. x \<noteq> mesh_name_of cfg n \<and> mesh_name_of cfg x \<noteq> mesh_name_of cfg n"
    using Cons.prems(2,3) by (auto simp: image_iff)
  show ?case
  proof (cases "stale (fs s) cfg n")
    case True
    obtain res w' t' where p1: "process_one cv cfg s n = Inr (converted s cfg n res w' t')"
      and fr: "\<forall>p. p \<noteq> mesh_name_of cfg n \<longrightarrow> mtimes w' p = mtimes (fs s) p"
      using process_one_stale_frame [OF assms(1) ct True] by metis
    let ?s1 = "converted s cfg n res w' t'"
    have src: "\<forall>x \<in> set ns. mtimes (fs ?s1) x \<noteq> None"
      using fr mn Cons.prems(1) by (auto simp: converted_def)
    have same: "filter (stale (fs ?s1) cfg) ns = filter (stale (fs s) cfg) ns"
      using fr mn by (auto simp: converted_def intro!: filter_cong stale_frame)
    obtain s' where "process_all cv cfg ?s1 ns = Inr s'"
      and "calls_of (trace s') = calls_of (trace ?s1) @
             map (\<lambda>n. [conv cfg, n, mesh_name_of cfg n]) (filter (stale (fs ?s1) cfg) ns)"
      using Cons.IH [OF src sep dist] by blast
    then show ?thesis using p1 True same by (simp add: converted_def)
  next
    case False
    then have "process_one cv cfg s n = Inr s"
      using ct by (simp add: stale_def process_one_not_stale_eq)
    then show ?thesis using Cons.IH [OF _ sep dist] Cons.prems(1) False by simp
  qed
qed


theorem pass_calls_exactly_stale_witness:
  "calls_of [Converting 5 ex_src ex_mesh, Called [''conv.exe'', ex_src, ex_mesh] 0] =
     [[''conv.exe'', ex_src, ex_mesh]]
   \<and> (\<exists>s'. process_all stamp_converter ex_cfg (ex_state [ex_src \<mapsto> 3]) [ex_src] = Inr s' \<and>
        calls_of (trace s') = [[''conv.exe'', ex_src, ex_mesh]])"
proof -
  have "\<exists>s'. process_all stamp_converter ex_cfg (ex_state [ex_src \<mapsto> 3]) [ex_src] = Inr s' \<and>
          calls_of (trace s') = calls_of (trace (ex_state [ex_src \<mapsto> 3])) @
            map (\<lambda>n. [conv ex_cfg, n, mesh_name_of ex_cfg n])
              (filter (stale (fs (ex_state [ex_src \<mapsto> 3])) ex_cfg) [ex_src])"
    by (rule pass_calls_exactly_stale) (simp_all add: stamp_converter_frame)
  then show ?thesis by (simp add: stale_def should_convert_iff)
qed

text \<open>
  C6: idempotence.  With the converter that stamps its output with the current
  time, and sources that are not newer than the clock nor outputs themselves, a
  pass succeeds and a second pass right after it converts nothing and changes nothing.
\<close>

theorem pass_idempotent:
  assumes "\<forall>n \<in> set ns. \<exists>ct. mtimes (fs s) n = Some ct \<and> ct \<le> clock s"
    and "\<forall>n \<in> set ns. \<forall>m \<in> set ns. mesh_name_of cfg m \<noteq> n"
  shows "\<exists>s'. process_all stamp_converter cfg s ns = Inr s' \<and>
              process_all stamp_converter cfg s' ns = Inr s'"
proof -
  obtain s' where "process_all stamp_converter cfg s ns = Inr s'"
    and "\<forall>m \<in> set ([] @ ns). up_to_date (fs s') cfg m"
    using process_all_stamp [of "[]" ns s cfg] assms by auto
  then show ?thesis using process_all_up_to_date by auto
qed

theorem pass_idempotent_witness:
  "\<exists>s'. process_all stamp_converter ex_cfg (ex_state [ex_src \<mapsto> 3]) [ex_src] = Inr s' \<and>
        process_all stamp_converter ex_cfg s' [ex_src] = Inr s'"
  using pass_idempotent [of "[ex_src]" "ex_state [ex_src \<mapsto> 3]" ex_cfg] by simp

subsection \<open>The converter's exit code\<close>

text \<open>
  Line 53 stores the exit code in \<open>res\<close> and never reads it.  To state that, a
  trace is compared with the exit codes of its calls erased, and a converter with
  the exit codes it returns changed by any function \<open>f\<close>.
\<close>

fun erase_code :: "'t event \<Rightarrow> 't event" where
  "erase_code (Called argv r) = Called argv 0"
| "erase_code e = e"

definition erase_codes :: "'t state \<Rightarrow> 't state" where
  "erase_codes s = s\<lparr>trace := map erase_code (trace s)\<rparr>"

definition with_exit :: "(int \<Rightarrow> int) \<Rightarrow> 't converter \<Rightarrow> 't converter" where
  "with_exit f cv argv w t = map_option (\<lambda>(r, w', t'). (f r, w', t')) (cv argv w t)"

lemma erase_codes_eq_iff:
  "erase_codes s1 = erase_codes s2 \<longleftrightarrow>
     fs s1 = fs s2 \<and> clock s1 = clock s2 \<and> map erase_code (trace s1) = map erase_code (trace s2)"
  by (cases s1, cases s2) (simp add: erase_codes_def)

lemma process_one_with_exit:
  assumes "erase_codes s1 = erase_codes s2"
  shows "map_sum (apsnd erase_codes) erase_codes (process_one (with_exit f cv) cfg s1 n) =
         map_sum (apsnd erase_codes) erase_codes (process_one cv cfg s2 n)"
  using assms
  by (auto simp: process_one_def with_exit_def erase_codes_eq_iff Let_def
      split: sum.split option.split)

lemma process_all_with_exit:
  assumes "erase_codes s1 = erase_codes s2"
  shows "map_sum (apsnd erase_codes) erase_codes (process_all (with_exit f cv) cfg s1 ns) =
         map_sum (apsnd erase_codes) erase_codes (process_all cv cfg s2 ns)"
  using assms
proof (induction ns arbitrary: s1 s2)
  case Nil
  then show ?case by simp
next
  case (Cons n ns)
  note h = process_one_with_exit [OF Cons.prems, of f cv cfg n]
  show ?case
  proof (cases "process_one cv cfg s2 n")
    case (Inl r)
    then show ?thesis using h by (cases "process_one (with_exit f cv) cfg s1 n") auto
  next
    case (Inr s2')
    then obtain s1' where "process_one (with_exit f cv) cfg s1 n = Inr s1'"
      and "erase_codes s1' = erase_codes s2'"
      using h by (cases "process_one (with_exit f cv) cfg s1 n") auto
    then show ?thesis using Inr Cons.IH by simp
  qed
qed

text \<open>
  C10: the exit code of the converter is never inspected: a scan pass with a
  converter whose exit codes are changed in any way (a failing converter for a
  succeeding one) does exactly the same, prints the same, calls the converter with
  the same arguments in the same order, and ends or crashes in the same way; only
  the recorded codes differ.  In particular a failed conversion neither stops the
  pass nor is retried.
\<close>

theorem exit_code_ignored:
  "map_sum (apsnd erase_codes) erase_codes (scan_pass (with_exit f cv) cfg s) =
   map_sum (apsnd erase_codes) erase_codes (scan_pass cv cfg s)"
  by (simp add: scan_pass_def process_all_with_exit split: sum.split)

subsection \<open>Well-formed configurations\<close>

text \<open>
  What the loop needs of the configuration it runs with: the \<open>ntpath\<close> flavour,
  input and output directories on a drive without trailing separators, an input
  directory without wildcards (it is globbed), and distinct directories.
\<close>

definition cfg_ok :: "config \<Rightarrow> bool" where
  "cfg_ok c \<longleftrightarrow> cfg_path c = Ntpath \<and> nt_drive_dir (input_dir c) \<and> nt_drive_dir (output_dir c)
     \<and> \<not> has_magic (input_dir c) \<and> input_dir c \<noteq> output_dir c"

text \<open>
  Every configuration start-up hands to the loop is well formed.
\<close>

theorem startup_cfg_ok:
  assumes "snd (startup system) = Inr c"
  shows "cfg_ok c"
  using assms
  by (auto simp: startup_cases cfg_ok_def nt_normpath_input nt_normpath_output nt_drive_dir_def
      nt_seps_def has_magic_def split: if_splits)

text \<open>The exceptions of a pass: both raising points of the loop body raise \<open>OSError\<close>.\<close>

lemma process_one_raises_oserror: "process_one cv cfg s n = Inl (e, s') \<Longrightarrow> e = OSError"
  by (auto simp: process_one_def Let_def split: sum.splits if_splits option.splits)

lemma process_all_raises_oserror: "process_all cv cfg s ns = Inl (e, s') \<Longrightarrow> e = OSError"
  by (induction ns arbitrary: s) (auto dest: process_one_raises_oserror split: sum.splits)

lemma cfg_ok_glob:
  "cfg_ok c \<Longrightarrow> \<exists>srcs. glob (cfg_path c) w (source_pattern c) = Inr srcs"
  by (auto simp: cfg_ok_def source_pattern_def glob_nt_c4d_eq)

lemma scan_pass_raises_oserror:
  assumes "cfg_ok c" and "scan_pass cv c s = Inl (e, s')"
  shows "e = OSError"
proof -
  obtain srcs where "glob (cfg_path c) (fs s) (source_pattern c) = Inr srcs"
    using cfg_ok_glob [OF assms(1)] by blast
  then have "process_all cv c s srcs = Inl (e, s')" using assms(2) by (simp add: scan_pass_def)
  then show ?thesis by (rule process_all_raises_oserror)
qed

text \<open>
  C19: with a well-formed configuration the pattern \<open>glob\<close> gets never makes it
  raise, so the only exception a pass can raise is \<open>OSError\<close> (a source whose
  time cannot be read, or a converter that cannot start); never \<open>re.error\<close> or an
  exception of the script's own.
\<close>

theorem pass_raises_only_oserror:
  assumes "cfg_ok c" and "scan_pass cv c s = Inl (e, s')"
  shows "e = OSError"
  using assms by (rule scan_pass_raises_oserror)

theorem pass_raises_only_oserror_witness:
  "cfg_ok ex_cfg \<and>
   scan_pass stamp_converter ex_cfg
     \<lparr>fs = \<lparr>listdir = [''d:'' @ bslash # ''in'' \<mapsto> [''a.c4d'', ''b.txt'']], mtimes = Map.empty\<rparr>, clock = 5::int, trace = []\<rparr> =
     Inl (OSError, \<lparr>fs = \<lparr>listdir = [''d:'' @ bslash # ''in'' \<mapsto> [''a.c4d'', ''b.txt'']], mtimes = Map.empty\<rparr>, clock = 5, trace = []\<rparr>)"
proof -
  let ?s = "\<lparr>fs = \<lparr>listdir = [''d:'' @ bslash # ''in'' \<mapsto> [''a.c4d'', ''b.txt'']], mtimes = Map.empty\<rparr>, clock = 5::int, trace = []\<rparr>"
  have ok: "cfg_ok ex_cfg"
    by (simp add: cfg_ok_def ex_cfg_def nt_drive_dir_def nt_seps_def has_magic_def)
  have cp: "cfg_path ex_cfg = Ntpath" by (simp add: ex_cfg_def)
  have r: "scan_pass stamp_converter ex_cfg ?s = Inl (OSError, ?s)"
    using ex_glob [where m = "Map.empty :: string \<Rightarrow> int option"] by (simp add: scan_pass_def cp process_one_def getmtime_def)
  then have "OSError = OSError" by (rule pass_raises_only_oserror [OF ok])
  then show ?thesis using ok r by simp
qed

end
