(* ===== verification/Loop.thy ===== *)
theory Loop
  imports Reconcile
begin

text \<open>
  The \<open>while True\<close> loop of lines 37 and 54 of \<open>src/shaders/mesh_update.py\<close>: a
  pass (\<open>scan_pass\<close> of \<open>Reconcile\<close>), then \<open>time.sleep(1)\<close>, as a step relation
  on the process, which runs or has crashed with an exception; its reachable states
  from an empty trace; the trace invariant proved by rule induction, and the
  properties of the loop.
\<close>

subsection \<open>The loop\<close>

text \<open>
  Line 54, \<open>time.sleep(1)\<close>: meanwhile the world goes on, the files may change in any
  way and the clock moves forward.
\<close>

definition sleep_step :: "'t state \<Rightarrow> 't fs \<Rightarrow> 't \<Rightarrow> 't state" where
  "sleep_step s w t = s\<lparr>fs := w, clock := t, trace := trace s @ [Slept]\<rparr>"

datatype 't proc = Running "'t state" | Crashed py_exc "'t state"

text \<open>Line 37, \<open>while True\<close>: one pass and one sleep per step, until an exception.\<close>

inductive loop_step :: "'t::linorder converter \<Rightarrow> config \<Rightarrow> 't proc \<Rightarrow> 't proc \<Rightarrow> bool"
  for cv cfg where
  pass_sleep: "scan_pass cv cfg s = Inr s1 \<Longrightarrow> clock s1 \<le> t \<Longrightarrow>
     loop_step cv cfg (Running s) (Running (sleep_step s1 w t))"
| pass_crash: "scan_pass cv cfg s = Inl (e, s1) \<Longrightarrow>
     loop_step cv cfg (Running s) (Crashed e s1)"

inductive loop_reach :: "'t::linorder converter \<Rightarrow> config \<Rightarrow> 't proc \<Rightarrow> bool"
  for cv cfg where
  start: "trace s = [] \<Longrightarrow> loop_reach cv cfg (Running s)"
| step: "loop_reach cv cfg p \<Longrightarrow> loop_step cv cfg p q \<Longrightarrow> loop_reach cv cfg q"

inductive_cases loop_step_RunningE: "loop_step cv cfg (Running s) q"
inductive_cases loop_step_CrashedE: "loop_step cv cfg (Crashed e s) q"

subsection \<open>The loop: trace invariant and progress\<close>

text \<open>
  A well-formed trace: a sequence of sleeps and of conversions, each a printed
  \<open>Converting src -> mesh\<close> line with \<open>mesh\<close> the derived output path of \<open>src\<close>,
  followed by the call of the converter on exactly those two paths.  A process that
  crashed may end with one \<open>Converting\<close> line whose converter could not be started.
\<close>

fun trace_ok :: "config \<Rightarrow> 't event list \<Rightarrow> bool" where
  "trace_ok cfg [] = True"
| "trace_ok cfg (Converting t src m # Called argv r # es) =
     (m = mesh_name_of cfg src \<and> argv = [conv cfg, src, m] \<and> trace_ok cfg es)"
| "trace_ok cfg (Slept # es) = trace_ok cfg es"
| "trace_ok cfg (Converting t src m # es) = False"
| "trace_ok cfg (Called argv r # es) = False"

definition crash_trace_ok :: "config \<Rightarrow> 't event list \<Rightarrow> bool" where
  "crash_trace_ok cfg es \<longleftrightarrow> trace_ok cfg es \<or>
     (es \<noteq> [] \<and> trace_ok cfg (butlast es) \<and>
      (case last es of Converting t src m \<Rightarrow> m = mesh_name_of cfg src | _ \<Rightarrow> False))"

fun proc_ok :: "config \<Rightarrow> 't proc \<Rightarrow> bool" where
  "proc_ok cfg (Running s) = trace_ok cfg (trace s)"
| "proc_ok cfg (Crashed e s) = crash_trace_ok cfg (trace s)"

lemma trace_ok_append [simp]: "trace_ok cfg xs \<Longrightarrow> trace_ok cfg (xs @ ys) = trace_ok cfg ys"
  by (induction cfg xs rule: trace_ok.induct) simp_all

lemma process_one_trace_ok:
  assumes "trace_ok cfg (trace s)"
  shows "process_one cv cfg s n = Inr s' \<Longrightarrow> trace_ok cfg (trace s')"
    and "process_one cv cfg s n = Inl (e, s') \<Longrightarrow> crash_trace_ok cfg (trace s')"
  using assms
  by (auto simp: process_one_def crash_trace_ok_def Let_def split: sum.splits if_splits option.splits)

lemma process_all_trace_ok:
  "trace_ok cfg (trace s) \<Longrightarrow>
     (process_all cv cfg s ns = Inr s' \<longrightarrow> trace_ok cfg (trace s')) \<and>
     (process_all cv cfg s ns = Inl (e, s') \<longrightarrow> crash_trace_ok cfg (trace s'))"
proof (induction ns arbitrary: s)
  case Nil
  then show ?case by auto
next
  case (Cons n ns)
  show ?case
  proof (cases "process_one cv cfg s n")
    case (Inl r)
    then obtain e1 s1 where "r = (e1, s1)" by fastforce
    then show ?thesis using Inl Cons.prems process_one_trace_ok(2) by fastforce
  next
    case (Inr s1)
    then have "trace_ok cfg (trace s1)" using process_one_trace_ok(1) [OF Cons.prems] by blast
    then show ?thesis using Inr Cons.IH by simp
  qed
qed

lemma scan_pass_trace_ok:
  assumes "trace_ok cfg (trace s)"
  shows "scan_pass cv cfg s = Inr s' \<Longrightarrow> trace_ok cfg (trace s')"
    and "scan_pass cv cfg s = Inl (e, s') \<Longrightarrow> crash_trace_ok cfg (trace s')"
  using assms process_all_trace_ok [OF assms]
  by (auto simp: scan_pass_def crash_trace_ok_def split: sum.splits)

lemma loop_step_proc_ok: "loop_step cv cfg p q \<Longrightarrow> proc_ok cfg p \<Longrightarrow> proc_ok cfg q"
proof (induction rule: loop_step.induct)
  case (pass_sleep s s1 t w)
  then have "trace_ok cfg (trace s1)" by (simp add: scan_pass_trace_ok(1))
  then show ?case by (simp add: sleep_step_def)
next
  case (pass_crash s e s1)
  then show ?case by (simp add: scan_pass_trace_ok(2))
qed

subsection \<open>Properties of the loop\<close>

lemma loop_reach_proc_ok: "loop_reach cv cfg p \<Longrightarrow> proc_ok cfg p"
  by (induction rule: loop_reach.induct) (auto intro: loop_step_proc_ok)

text \<open>A run of the instance: the input directory lists \<open>a.c4d\<close> and \<open>b.txt\<close>.\<close>

definition ex_run_state :: "int state" where
  "ex_run_state =
     \<lparr>fs = \<lparr>listdir = [''d:'' @ bslash # ''in'' \<mapsto> [''a.c4d'', ''b.txt'']], mtimes = [ex_src \<mapsto> 3]\<rparr>,
      clock = 5, trace = []\<rparr>"

lemma ex_scan_pass:
  "scan_pass stamp_converter ex_cfg ex_run_state =
     Inr (ex_run_state\<lparr>fs := \<lparr>listdir = [''d:'' @ bslash # ''in'' \<mapsto> [''a.c4d'', ''b.txt'']],
                                mtimes = [ex_src \<mapsto> 3, ex_mesh \<mapsto> 5]\<rparr>,
                        trace := [Converting 5 ex_src ex_mesh, Called [''conv.exe'', ex_src, ex_mesh] 0]\<rparr>)"
proof -
  have g: "glob Ntpath (fs ex_run_state) (source_pattern ex_cfg) = Inr [ex_src]"
    using ex_glob [where m = "[ex_src \<mapsto> 3::int]"] by (simp add: ex_run_state_def)
  have cp: "cfg_path ex_cfg = Ntpath" by (simp add: ex_cfg_def)
  have "scan_pass stamp_converter ex_cfg ex_run_state =
          process_all stamp_converter ex_cfg ex_run_state [ex_src]"
    using g by (simp add: scan_pass_def cp)
  moreover have "mtimes (fs ex_run_state) ex_src = Some 3" "mtimes (fs ex_run_state) ex_mesh = None"
    "clock ex_run_state = 5" "trace ex_run_state = []"
    by (simp_all add: ex_run_state_def)
  ultimately show ?thesis
    by (simp add: process_one_stale_eq should_convert_iff stamp_converter_def converted_def)
       (simp add: ex_run_state_def)
qed

text \<open>
  Runs of any length: if some property of the state guarantees that a pass returns
  and the property still holds after the pass and a sleep that keeps the world, the
  loop started in such a state performs \<open>k\<close> iterations and is still running, for
  every \<open>k\<close> (\<open>^^\<close> is the power of the step relation).
\<close>

lemma loop_runs:
  assumes "\<And>s. I s \<Longrightarrow> \<exists>s'. scan_pass cv cfg s = Inr s' \<and> I (sleep_step s' (fs s') (clock s'))"
    and "I s"
  shows "\<exists>s'. (loop_step cv cfg ^^ k) (Running s) (Running s')"
  using assms(2)
proof (induction k arbitrary: s)
  case 0
  then show ?case by auto
next
  case (Suc k)
  obtain s1 where p: "scan_pass cv cfg s = Inr s1" and i: "I (sleep_step s1 (fs s1) (clock s1))"
    using assms(1) [OF Suc.prems] by blast
  have "loop_step cv cfg (Running s) (Running (sleep_step s1 (fs s1) (clock s1)))"
    using p by (rule loop_step.pass_sleep) simp
  moreover obtain s' where "(loop_step cv cfg ^^ k) (Running (sleep_step s1 (fs s1) (clock s1))) (Running s')"
    using Suc.IH [OF i] by blast
  ultimately show ?case by (blast intro: relpowp_Suc_I2)
qed

text \<open>
  C14: the trace invariant of the loop, by rule induction over its runs: in a
  running process every \<open>Converting\<close> line is immediately followed by the call it
  announces, on the converter, the source and its output path, and only sleeps come
  between conversions; a process that crashed may in addition end with one announced
  conversion whose converter never started.
\<close>

theorem loop_trace_invariant:
  assumes "loop_reach cv cfg p"
  shows "proc_ok cfg p"
  using assms by (induction rule: loop_reach.induct) (auto intro: loop_step_proc_ok)

theorem loop_trace_invariant_witness:
  "proc_ok ex_cfg (Running (sleep_step (ex_run_state\<lparr>fs := \<lparr>listdir = [''d:'' @ bslash # ''in'' \<mapsto> [''a.c4d'', ''b.txt'']],
                                 mtimes = [ex_src \<mapsto> 3, ex_mesh \<mapsto> 5]\<rparr>,
                         trace := [Converting 5 ex_src ex_mesh, Called [''conv.exe'', ex_src, ex_mesh] 0]\<rparr>)
       \<lparr>listdir = Map.empty, mtimes = Map.empty\<rparr> 6))"
proof -
  let ?s1 = "ex_run_state\<lparr>fs := \<lparr>listdir = [''d:'' @ bslash # ''in'' \<mapsto> [''a.c4d'', ''b.txt'']],
                                 mtimes = [ex_src \<mapsto> 3, ex_mesh \<mapsto> 5]\<rparr>,
                         trace := [Converting 5 ex_src ex_mesh, Called [''conv.exe'', ex_src, ex_mesh] 0]\<rparr>"
  have r0: "loop_reach stamp_converter ex_cfg (Running ex_run_state)"
    by (rule loop_reach.start) (simp add: ex_run_state_def)
  have "loop_step stamp_converter ex_cfg (Running ex_run_state)
          (Running (sleep_step ?s1 \<lparr>listdir = Map.empty, mtimes = Map.empty\<rparr> 6))"
    by (rule loop_step.pass_sleep [OF ex_scan_pass]) (simp add: ex_run_state_def)
  with r0 show ?thesis by (intro loop_trace_invariant [of stamp_converter]) (rule loop_reach.step)
qed

end
