(* ===== verification/Console.thy ===== *)
theory Console
  imports Loop
begin

text \<open>
  What the polling loop writes on standard output: the \<open>print\<close> statement of
  line 52 of \<open>src/shaders/mesh_update.py\<close>, one line for each source it is about to
  convert, in the order of the trace.  \<open>time.ctime()\<close> renders the clock in the host's
  local time zone; it is a parameter \<open>ctime\<close> here.  The converter's own output,
  which the child process writes to the same standard output, is not part of the
  model (the converter is outside the repository).
\<close>

abbreviation newline :: char where
  "newline \<equiv> CHR 0x0A"

subsection \<open>Printing\<close>

text \<open>Line 52: \<open>'[%s] Converting: %s -> %s' % (time.ctime(), c4d_name, mesh_name)\<close>.\<close>

definition converting_line :: "string \<Rightarrow> string \<Rightarrow> string \<Rightarrow> string" where
  "converting_line now c4d_name mesh_name =
     ''['' @ now @ ''] Converting: '' @ c4d_name @ '' -> '' @ mesh_name"

text \<open>The Python 2 \<open>print\<close> statement writes the string and a newline.\<close>

definition print_stmt :: "string \<Rightarrow> string" where
  "print_stmt l = l @ [newline]"

text \<open>
  The output of each event of the trace: the \<open>Converting\<close> event is the \<open>print\<close>
  of line 52; the call of the converter (line 53) and \<open>time.sleep(1)\<close> (line 54)
  print nothing.
\<close>

fun event_stdout :: "('t \<Rightarrow> string) \<Rightarrow> 't event \<Rightarrow> string" where
  "event_stdout ctime (Converting t c4d_name mesh_name) =
     print_stmt (converting_line (ctime t) c4d_name mesh_name)"
| "event_stdout ctime (Called argv res) = []"
| "event_stdout ctime Slept = []"

definition stdout_of :: "('t \<Rightarrow> string) \<Rightarrow> 't event list \<Rightarrow> string" where
  "stdout_of ctime tr = concat (map (event_stdout ctime) tr)"

subsection \<open>Reading the log back\<close>

text \<open>
  The conversions a trace announces, and a reader of the log that recovers them:
  the time stamp up to the first \<open>]\<close>, the source up to the first \<open>>\<close> (a
  character Windows does not allow in a file name), the output after it.
\<close>

fun conversions :: "'t event list \<Rightarrow> ('t \<times> string \<times> string) list" where
  "conversions [] = []"
| "conversions (Converting t c4d_name mesh_name # tr) = (t, c4d_name, mesh_name) # conversions tr"
| "conversions (e # tr) = conversions tr"

definition chop_prefix :: "string \<Rightarrow> string \<Rightarrow> string option" where
  "chop_prefix p s = (if take (length p) s = p then Some (drop (length p) s) else None)"

definition chop_suffix :: "string \<Rightarrow> string \<Rightarrow> string option" where
  "chop_suffix p s = map_option rev (chop_prefix (rev p) (rev s))"

definition parse_line :: "string \<Rightarrow> (string \<times> string \<times> string) option" where
  "parse_line l =
     (case chop_prefix ''['' l of
        None \<Rightarrow> None
      | Some r \<Rightarrow>
          (case chop_prefix ''] Converting: '' (dropWhile (\<lambda>c. c \<noteq> CHR '']'') r) of
             None \<Rightarrow> None
           | Some r2 \<Rightarrow>
               (case (chop_suffix '' -'' (takeWhile (\<lambda>c. c \<noteq> CHR ''>'') r2),
                      chop_prefix ''> '' (dropWhile (\<lambda>c. c \<noteq> CHR ''>'') r2)) of
                  (Some c4d_name, Some mesh_name) \<Rightarrow>
                    Some (takeWhile (\<lambda>c. c \<noteq> CHR '']'') r, c4d_name, mesh_name)
                | _ \<Rightarrow> None)))"

definition parse_stdout :: "string \<Rightarrow> (string \<times> string \<times> string) list option" where
  "parse_stdout out =
     (let ls = str_split newline out in
      if last ls = [] then those (map parse_line (butlast ls)) else None)"

subsection \<open>Lemmas\<close>

lemma stdout_of_conversions:
  "stdout_of ctime tr =
     concat (map print_stmt
       (map (\<lambda>(t, c4d_name, mesh_name). converting_line (ctime t) c4d_name mesh_name) (conversions tr)))"
  by (induction tr rule: conversions.induct) (simp_all add: stdout_of_def)

lemma str_split_lines:
  "\<forall>l \<in> set ls. newline \<notin> set l \<Longrightarrow> str_split newline (concat (map print_stmt ls)) = ls @ [[]]"
  by (induction ls) (simp_all add: print_stmt_def str_split_sep_append)

lemma takeWhile_not_in: "c \<notin> set u \<Longrightarrow> takeWhile (\<lambda>x. x \<noteq> c) (u @ s) = u @ takeWhile (\<lambda>x. x \<noteq> c) s"
  by (induction u) auto

lemma dropWhile_not_in: "c \<notin> set u \<Longrightarrow> dropWhile (\<lambda>x. x \<noteq> c) (u @ s) = dropWhile (\<lambda>x. x \<noteq> c) s"
  by (induction u) auto

lemma chop_prefix_Nil [simp]: "chop_prefix [] s = Some s"
  by (simp add: chop_prefix_def)

lemma chop_prefix_Cons [simp]:
  "chop_prefix (c # p) s = (case s of [] \<Rightarrow> None | x # s' \<Rightarrow> if x = c then chop_prefix p s' else None)"
  by (cases s) (simp_all add: chop_prefix_def)

lemma chop_suffix_append [simp]: "chop_suffix p (s @ p) = Some s"
  by (simp add: chop_suffix_def chop_prefix_def)

lemma parse_converting_line:
  assumes "CHR '']'' \<notin> set now" and "CHR ''>'' \<notin> set c4d_name"
  shows "parse_line (converting_line now c4d_name mesh_name) = Some (now, c4d_name, mesh_name)"
  using assms by (simp add: parse_line_def converting_line_def takeWhile_not_in dropWhile_not_in)

lemma those_map_Some: "(\<And>x. x \<in> set xs \<Longrightarrow> f x = Some (g x)) \<Longrightarrow> those (map f xs) = Some (map g xs)"
  by (induction xs) auto

lemma converting_line_no_newline:
  "newline \<notin> set now \<Longrightarrow> newline \<notin> set c4d_name \<Longrightarrow> newline \<notin> set mesh_name \<Longrightarrow>
   newline \<notin> set (converting_line now c4d_name mesh_name)"
  by (simp add: converting_line_def)

subsection \<open>The log determines the conversions\<close>

text \<open>
  C23: roundtrip of the console log: reading the standard output of the loop back
  line by line recovers, in order, the time, the source and the output of every
  conversion the loop announced, provided the rendered times contain no \<open>]\<close>, the
  source names no \<open>>\<close>, and no field a newline (all of which Windows rules out in
  file names).
\<close>

theorem stdout_parse:
  assumes "\<forall>(t, c4d_name, mesh_name) \<in> set (conversions tr).
             CHR '']'' \<notin> set (ctime t) \<and> newline \<notin> set (ctime t) \<and>
             CHR ''>'' \<notin> set c4d_name \<and> newline \<notin> set c4d_name \<and> newline \<notin> set mesh_name"
  shows "parse_stdout (stdout_of ctime tr) =
           Some (map (\<lambda>(t, c4d_name, mesh_name). (ctime t, c4d_name, mesh_name)) (conversions tr))"
proof -
  let ?line = "\<lambda>(t, c4d_name, mesh_name). converting_line (ctime t) c4d_name mesh_name"
  have out: "stdout_of ctime tr = concat (map print_stmt (map ?line (conversions tr)))"
    by (rule stdout_of_conversions)
  have "\<forall>l \<in> set (map ?line (conversions tr)). newline \<notin> set l"
    using assms by (auto simp: converting_line_no_newline)
  then have split: "str_split newline (stdout_of ctime tr) = map ?line (conversions tr) @ [[]]"
    unfolding out by (rule str_split_lines)
  have "those (map parse_line (map ?line (conversions tr))) =
          Some (map (\<lambda>(t, c4d_name, mesh_name). (ctime t, c4d_name, mesh_name)) (conversions tr))"
    unfolding map_map using assms by (intro those_map_Some) (auto simp: parse_converting_line)
  then show ?thesis by (simp add: parse_stdout_def split)
qed

theorem stdout_parse_witness:
  "parse_stdout (stdout_of (\<lambda>t::int. ''Mon Nov  9 10:00:00 2026'')
      [Converting 5 ''d:/in/a.c4d'' ''d:/out/a.boba'', Called [''conv'', ''d:/in/a.c4d'', ''d:/out/a.boba''] 0, Slept])
   = Some [(''Mon Nov  9 10:00:00 2026'', ''d:/in/a.c4d'', ''d:/out/a.boba'')]"
  using stdout_parse [of "[Converting 5 ''d:/in/a.c4d'' ''d:/out/a.boba'', Called [''conv'', ''d:/in/a.c4d'', ''d:/out/a.boba''] 0, Slept]"
      "\<lambda>t::int. ''Mon Nov  9 10:00:00 2026''"]
  by simp

end
