(* ===== verification/Spec2Isabelle.thy ===== *)
theory Spec2Isabelle
  imports Prelude PathPosix PathNt OsPath Config FileSystem Glob Reconcile Loop Console
begin

text \<open>
  A verification library for \<open>src/shaders/mesh_update.py\<close>, the Python 2 script that
  keeps the converted meshes of the demo up to date: it picks a configuration for the
  platform, then polls forever, converting every \<open>.c4d\<close> scene of the input
  directory whose \<open>.boba\<close> mesh in the output directory is missing or older, by
  running an external exporter.

  \<^bold>\<open>Parts and theories.\<close>
  \<^item> \<open>Prelude\<close>: the exceptions of the script as the datatype \<open>py_exc\<close> (the
    \<open>SystemExit\<close> of \<open>exit(1)\<close>, \<open>AttributeError\<close>, \<open>os.error\<close>, \<open>re.error\<close>), the
    Python string methods the library code uses (\<open>rfind\<close>, \<open>rstrip\<close>, \<open>split\<close>,
    \<open>join\<close>, \<open>lower\<close>, ...), and their shared lemmas.
  \<^item> \<open>PathPosix\<close>, \<open>PathNt\<close>, \<open>OsPath\<close>: the functions of \<open>os.path\<close> the script calls
    (\<open>join\<close>, \<open>split\<close>, \<open>splitext\<close>, \<open>normpath\<close>, and \<open>normcase\<close> inside \<open>glob\<close>), modelled
    from \<open>posixpath\<close>, \<open>ntpath\<close> and \<open>genericpath\<close> of CPython 2.7 and selected by
    \<open>os_path_of\<close> from \<open>platform.system()\<close>.  Main lemmas: \<open>split\<close> inverts \<open>join\<close>
    (\<open>posix_split_join\<close>, \<open>nt_split_join\<close>), \<open>splitext\<close> of \<open>stem.ext\<close>, the head of
    \<open>split\<close> is a prefix of the path.
  \<^item> \<open>Config\<close>: lines 9--35, the \<open>SETTINGS\<close> table and \<open>startup\<close>, which returns the
    printed lines and either the exception that ends the process or the \<open>config\<close>
    record the loop runs with.  The guard of line 21 tests the builtin \<open>dir\<close>, so it
    is the constant \<open>dir_is_None = False\<close>.
  \<^item> \<open>FileSystem\<close>: the world the script reads, a record of the listing of each
    directory and the modification time of each path (\<open>None\<close> for \<open>os.error\<close>);
    timestamps are any linear order.
  \<^item> \<open>Glob\<close>: \<open>glob.glob\<close> of line 38 from CPython 2.7 \<open>glob.py\<close> and \<open>fnmatch.py\<close>,
    with \<open>fnmatch.translate\<close> producing a token list that \<open>tok_match\<close> matches.
    Main lemma: \<open>glob_nt_c4d_eq\<close>, the value of \<open>glob(d\\*.c4d)\<close> under \<open>ntpath\<close>.
  \<^item> \<open>Reconcile\<close>: one pass, lines 38--53.  The process state is the file system,
    the clock and the trace of observable events (the \<open>Converting\<close> line, each
    \<open>subprocess.call\<close> with its arguments and exit code, each sleep).
    \<open>mesh_name_of\<close> is lines 41--43, \<open>should_convert\<close> lines 44--49, \<open>process_one\<close>
    the body of the \<open>for\<close> loop, \<open>process_all\<close> the \<open>for\<close> loop, \<open>scan_pass\<close> the glob
    and the loop.  An exception is a value: \<open>Inl (e, s)\<close> with the state at the raise.
    \<open>cfg_ok\<close> is what the loop needs of its configuration.
  \<^item> \<open>Loop\<close>: lines 37 and 54.  \<open>loop_step\<close> is one iteration of \<open>while True\<close> (a
    pass, then \<open>time.sleep(1)\<close>, during which the world changes arbitrarily and the
    clock does not go back), \<open>Crashed\<close> the process an exception ended, and
    \<open>loop_reach\<close> the reachable process states.
  \<^item> \<open>Console\<close>: the standard output of the loop, the \<open>print\<close> of line 52 for each
    \<open>Converting\<close> event of the trace (\<open>converting_line\<close>, \<open>print_stmt\<close>,
    \<open>stdout_of\<close>), with \<open>time.ctime()\<close> as a parameter \<open>ctime\<close> from the clock
    value to its text.
  \<^item> This theory: the configuration \<open>win_cfg\<close> start-up yields on Windows, the only
    platform that reaches the loop, the properties of the whole script under it, and
    the whole program (\<open>program_start\<close>, \<open>program_reach\<close>): start-up, then the loop
    with the configuration it produced.

  \<^bold>\<open>The external converter\<close> is not part of the repository: it is a parameter
  \<open>cv\<close> of type \<open>converter\<close>, from the argument vector, the world and the clock to
  the exit code, the world and the clock after the child exited, or \<open>None\<close> when it
  cannot be spawned.  Theorems about one source hold for every converter; the
  pass-level ones assume \<open>conv_frame\<close> (it starts, and changes the time of no file
  but its destination) or use \<open>stamp_converter\<close> (it writes the destination with
  the current time).

  \<^bold>\<open>What the lemmas show.\<close>
  \<^item> One source (\<open>Reconcile\<close>): it is converted exactly when its output is missing
    or strictly older, with the converter, the source and the derived output path as
    arguments, after the \<open>Converting\<close> line; the two error paths end the process
    (the source's time, read outside the \<open>try\<close> on line 40, and a converter that
    cannot start).
  \<^item> One pass (\<open>Reconcile\<close>): the calls are exactly the stale sources in glob
    order; a directory already up to date is left alone; a second pass right after
    a pass does nothing; the converter's exit code changes nothing but its record
    (\<open>exit_code_ignored\<close>).
  \<^item> The loop (\<open>Loop\<close>, rule induction on \<open>loop_reach\<close>): the trace invariant
    \<open>proc_ok\<close>: every call targets a source and its derived output right after
    the line announcing it.  Runs of any length (\<open>loop_runs\<close>, by induction on
    the number of iterations, with the power \<open>loop_step ^^ k\<close>): on Windows, while
    the sources stay readable and the converter starts and writes only its
    destination, the loop performs every number of passes and is still running
    (\<open>windows_loop_runs_forever\<close>).
  \<^item> The console (\<open>Console\<close>): the log is unambiguous: reading it back line by
    line recovers every announced conversion in order (\<open>stdout_parse\<close>), given that
    the time text has no \<open>]\<close>, the source no \<open>>\<close> and no field a newline.
  \<^item> Start-up (\<open>Config\<close>): the outcome on every platform, including the crash with
    \<open>AttributeError\<close> on an unknown one, and the exit status of every failure.
  \<^item> Library (\<open>Prelude\<close>, \<open>PathPosix\<close>, \<open>PathNt\<close>, \<open>Glob\<close>): roundtrips of
    \<open>split\<close>/\<open>join\<close> on strings and of \<open>posixpath.split\<close>/\<open>join\<close>; the contracts
    of both \<open>split\<close>s; the normal form of \<open>ntpath.normpath\<close>; its \<open>while\<close> loop,
    kept as a \<open>while_option\<close> loop, stops within \<open>2 * len(comps)\<close> iterations with
    the value of the recursive model; \<open>fnmatch\<close> agrees with the reference wildcard
    semantics; \<open>glob\<close> in one directory refines its specification \<open>glob_dir_spec\<close>.
  \<^item> Well-formedness (\<open>Reconcile\<close>): every configuration start-up yields satisfies
    \<open>cfg_ok\<close>; a pass over \<open>n\<close> sources adds at most \<open>2 * n\<close> events and
    \<open>n\<close> calls to the trace.
  \<^item> Here, the whole script under \<open>win_cfg\<close>: the sources \<open>glob\<close> finds in the
    configured directory, the output path end to end, outputs that are never
    sources, two sources sharing an output only when their names differ in letter
    case alone (\<open>windows_outputs_distinct\<close>), idempotence of whole scans, the
    scenario of the specification, and a missing input directory, which makes the
    loop idle instead of failing.
  \<^item> The whole program (this theory, rule induction on \<open>program_reach\<close>): off
    Windows it ends at start-up with status 1; on Windows it only ever stops by an
    \<open>OSError\<close> crash, the only exception a pass can raise (\<open>pass_raises_only_oserror\<close>).

  \<^bold>\<open>Bounds and termination.\<close>  No fuel is used.  The \<open>while\<close> loop of
  \<open>ntpath.normpath\<close> is also modelled as written, with \<open>while_option\<close>
  (\<open>nt_norm_while\<close>); its measure \<open>2 * len(comps) - i\<close> gives both its termination
  and the bound on its iterations (\<open>while_option_measure_steps\<close>).  The library loops are
  \<open>function\<close>s with measures: \<open>fn_translate\<close> and \<open>splitext_scan\<close> on the remaining
  string, \<open>nt_norm_loop\<close> on the remaining components, \<open>iglob\<close> on the length of the
  pattern, which strictly shrinks because the head \<open>split\<close> returns is a proper
  prefix when it differs from the path.  The infinite loop of line 37 is the step
  relation \<open>loop_step\<close>, not a function; that it never ends by itself is the
  statement that runs of every length \<open>k\<close> exist (\<open>windows_loop_runs_forever\<close>).

  \<^bold>\<open>Not modelled.\<close>  The text of \<open>time.ctime()\<close>, which depends on the host's
  local time zone (the event holds the clock value, and \<open>Console\<close> takes the
  rendering as a parameter); the converter's behaviour and its own output on the
  inherited standard output; the interpreter's traceback output; the \<open>import\<close>
  statements of lines 1--7, which only bind the library modules modelled here; the
  regular expression engine (replaced by \<open>tok_match\<close> on the tokens \<open>translate\<close> produces);
  the file system's identification of paths that differ in case or separator; the
  \<open>posixpath\<close> branches that no reachable configuration calls are modelled but have
  no theorems about the loop, since start-up fails on every non-Windows platform.
\<close>

subsection \<open>The Windows configuration\<close>

text \<open>
  The configuration start-up yields on Windows (the only platform on which the loop
  runs), and the paths of the specification's scenario under it.
\<close>

definition win_cfg :: config where
  "win_cfg = \<lparr>cfg_path = Ntpath,
              input_dir = ''d:'' @ bslash # ''onedrive'' @ bslash # ''tano'' @ bslash # ''c4d'',
              output_dir = ''d:'' @ bslash # ''projects'' @ bslash # ''tano'' @ bslash # ''gfx'',
              conv = ''D:/projects/melange_exporter/_win32/Release/exporter.exe''\<rparr>"

definition foo_src :: string where
  "foo_src = input_dir win_cfg @ bslash # ''foo.c4d''"

definition foo_mesh :: string where
  "foo_mesh = output_dir win_cfg @ bslash # ''foo.boba''"

subsection \<open>The whole program\<close>

text \<open>
  The script run from its first line: start-up, which ends the process with the
  lines it printed and an exception, or starts the loop with the configuration on the
  world found at that moment, with an empty trace; then the steps of the loop.
\<close>

datatype 't program = Exited "string list" py_exc | Started config "'t proc"

definition program_start :: "string \<Rightarrow> 't fs \<Rightarrow> 't \<Rightarrow> 't program" where
  "program_start system w t =
     (case startup system of
        (out, Inl e) \<Rightarrow> Exited out e
      | (out, Inr c) \<Rightarrow> Started c (Running \<lparr>fs = w, clock = t, trace = []\<rparr>))"

inductive program_reach :: "'t::linorder converter \<Rightarrow> string \<Rightarrow> 't program \<Rightarrow> bool"
  for cv system where
  init: "program_reach cv system (program_start system w t)"
| run: "program_reach cv system (Started c p) \<Longrightarrow> loop_step cv c p q \<Longrightarrow> program_reach cv system (Started c q)"

text \<open>The outcomes the script allows on a platform.\<close>

fun program_ok :: "string \<Rightarrow> 't program \<Rightarrow> bool" where
  "program_ok system (Exited out e) \<longleftrightarrow> system \<noteq> ''Windows'' \<and> exit_status e = 1"
| "program_ok system (Started c (Running s)) \<longleftrightarrow> system = ''Windows'' \<and> c = win_cfg"
| "program_ok system (Started c (Crashed e s)) \<longleftrightarrow> system = ''Windows'' \<and> c = win_cfg \<and> e = OSError"

subsection \<open>Lemmas\<close>

lemma lower_char_dot: "lower_char x = CHR ''.'' \<longleftrightarrow> x = CHR ''.''"
  using lower_char_keeps [of x "CHR ''.''"] by (auto simp: lower_char_def)

lemma nt_normcase_dot: "nt_normcase [x] = ''.'' \<longleftrightarrow> x = CHR ''.''"
  by (auto simp: nt_normcase_def py_lower_def replace_char_def lower_char_dot)

lemma startup_win_cfg: "startup ''Windows'' = ([], Inr win_cfg)"
  by (subst startup_cases) (simp only: if_True refl nt_normpath_input nt_normpath_output win_cfg_def)

lemma win_cfg_facts:
  "cfg_path win_cfg = Ntpath" "nt_drive_dir (input_dir win_cfg)" "nt_drive_dir (output_dir win_cfg)"
  "\<not> has_magic (input_dir win_cfg)"
  by (simp_all add: win_cfg_def nt_drive_dir_def nt_seps_def has_magic_def)

lemma c4d_name_split:
  assumes "nt_c4d_name n"
  shows "n = take (length n - 4) n @ CHR ''.'' # drop (length n - 3) n
         \<and> CHR ''.'' \<notin> set (drop (length n - 3) n) \<and> take (length n - 4) n \<noteq> []
         \<and> hd (take (length n - 4) n) \<noteq> CHR ''.''"
proof -
  have "\<exists>u. nt_normcase n = u @ ''.c4d''" and h: "take 1 n \<noteq> ''.''"
    using assms by (simp_all add: nt_c4d_name_iff)
  then obtain u where u: "nt_normcase n = u @ ''.c4d''" by blast
  have len: "length n = length u + 4"
    using arg_cong [OF u, of length] by (simp add: nt_normcase_def py_lower_def replace_char_def)
  define a where "a = take (length u) n"
  define b where "b = drop (length u) n"
  have ab: "n = a @ b" by (simp add: a_def b_def)
  have "nt_normcase a @ nt_normcase b = u @ ''.c4d''" using u ab by (simp add: nt_normcase_append)
  moreover have "length (nt_normcase a) = length u"
    using len by (simp add: a_def nt_normcase_def py_lower_def replace_char_def)
  ultimately have nb: "nt_normcase b = ''.c4d''" by simp
  have "length b = 4" using len by (simp add: b_def)
  then have "b = [b ! 0, b ! 1, b ! 2, b ! 3]"
    by (auto intro!: nth_equalityI simp: less_Suc_eq numeral_eq_Suc)
  then obtain b0 b1 b2 b3 where b: "b = [b0, b1, b2, b3]" by blast
  have "nt_normcase [b0] @ nt_normcase [b1, b2, b3] = ''.'' @ ''c4d''"
    using nb b nt_normcase_append [of "[b0]" "[b1, b2, b3]"] by simp
  then have "nt_normcase [b0] = ''.''" and r: "nt_normcase [b1, b2, b3] = ''c4d''"
    by (auto simp: nt_normcase_def py_lower_def replace_char_def)
  then have b0: "b0 = CHR ''.''" by (simp add: nt_normcase_dot)
  have "CHR ''.'' \<notin> set [b1, b2, b3]"
  proof
    assume "CHR ''.'' \<in> set [b1, b2, b3]"
    then have "CHR ''.'' \<in> set (nt_normcase [b1, b2, b3])"
      by (auto simp: nt_normcase_def py_lower_def replace_char_def lower_char_def)
    then show False using r by simp
  qed
  moreover have "a \<noteq> []" using h ab b b0 by auto
  moreover have "hd a \<noteq> CHR ''.''" using h ab \<open>a \<noteq> []\<close> by (cases a) auto
  moreover have "take (length n - 4) n = a" using len by (simp add: a_def)
  moreover have "drop (length n - 3) n = [b1, b2, b3]"
  proof -
    have "length n - 3 = Suc (length a)" using len by (simp add: a_def)
    then show ?thesis using ab b by simp
  qed
  moreover have "n = a @ CHR ''.'' # [b1, b2, b3]" using ab b b0 by simp
  ultimately show ?thesis by simp
qed

lemma win_glob:
  "glob Ntpath w (source_pattern win_cfg) =
     Inr (case listdir w (input_dir win_cfg) of None \<Rightarrow> []
          | Some names \<Rightarrow> map (nt_join (input_dir win_cfg)) (filter nt_c4d_name names))"
  unfolding source_pattern_def win_cfg_facts(1) path_join.simps
  using win_cfg_facts(2,4) by (rule glob_nt_c4d_eq)

lemma win_scan_pass_eq:
  "scan_pass cv win_cfg s =
     process_all cv win_cfg s (case listdir (fs s) (input_dir win_cfg) of None \<Rightarrow> []
          | Some names \<Rightarrow> map (nt_join (input_dir win_cfg)) (filter nt_c4d_name names))"
  by (simp add: scan_pass_def win_cfg_facts(1) win_glob)

lemma win_mesh_name:
  assumes "nt_drive_dir d" and "nt_c4d_name n" and "nt_plain n"
  shows "mesh_name_of win_cfg (nt_join d n) = output_dir win_cfg @ bslash # take (length n - 4) n @ ''.boba''"
proof -
  let ?stem = "take (length n - 4) n" and ?ext = "drop (length n - 3) n"
  have n: "n = ?stem @ CHR ''.'' # ?ext" and e: "CHR ''.'' \<notin> set ?ext" and st: "?stem \<noteq> []"
    and hd: "hd ?stem \<noteq> CHR ''.''"
    using c4d_name_split [OF assms(2)] by blast+
  have "nt_plain (?stem @ CHR ''.'' # ?ext)" using assms(3) n by simp
  then have "mesh_name_of win_cfg (nt_join d (?stem @ CHR ''.'' # ?ext)) =
               output_dir win_cfg @ bslash # ?stem @ ''.boba''"
    using win_cfg_facts(1,3) assms(1) e st hd by (intro mesh_name_nt) simp_all
  then show ?thesis using n by simp
qed

lemma foo_facts:
  "nt_join (input_dir win_cfg) ''foo.c4d'' = foo_src" "mesh_name_of win_cfg foo_src = foo_mesh"
  "foo_src \<noteq> foo_mesh" "foo_mesh \<noteq> foo_src"
proof -
  show j: "nt_join (input_dir win_cfg) ''foo.c4d'' = foo_src"
    using win_cfg_facts(2) by (simp add: nt_join_drive_dir nt_plain_def nt_seps_def foo_src_def)
  have "mesh_name_of win_cfg (nt_join (input_dir win_cfg) (''foo'' @ CHR ''.'' # ''c4d'')) =
          output_dir win_cfg @ bslash # ''foo'' @ ''.boba''"
    using win_cfg_facts(1-3) by (intro mesh_name_nt) (simp_all add: nt_plain_def nt_seps_def)
  then show "mesh_name_of win_cfg foo_src = foo_mesh" using j by (simp add: foo_mesh_def)
  show "foo_src \<noteq> foo_mesh" "foo_mesh \<noteq> foo_src"
    by (simp_all add: foo_src_def foo_mesh_def win_cfg_def)
qed

lemma win_foo_scan:
  assumes "listdir (fs s) (input_dir win_cfg) = Some names" and "filter nt_c4d_name names = [''foo.c4d'']"
  shows "scan_pass cv win_cfg s = process_one cv win_cfg s foo_src"
  using assms by (simp add: win_scan_pass_eq foo_facts(1) split: sum.split)

lemma win_sources:
  assumes "listdir w (input_dir win_cfg) = Some names" and "\<forall>n \<in> set names. nt_plain n"
    and "glob Ntpath w (source_pattern win_cfg) = Inr srcs" and "src \<in> set srcs"
  obtains n where "src = nt_join (input_dir win_cfg) n" and "n \<in> set names" and "nt_c4d_name n"
    and "nt_plain n"
  using assms by (auto simp: win_glob)

lemma win_source_prefix:
  "nt_plain n \<Longrightarrow> nt_join (input_dir win_cfg) n = input_dir win_cfg @ bslash # n"
  using win_cfg_facts(2) by (rule nt_join_drive_dir)

lemma win_dirs_differ:
  "output_dir win_cfg @ bslash # a \<noteq> input_dir win_cfg @ bslash # b"
  "input_dir win_cfg @ bslash # b \<noteq> output_dir win_cfg @ bslash # a"
  by (simp_all add: win_cfg_def)

lemma win_mesh_not_source:
  assumes "listdir w (input_dir win_cfg) = Some names" and "\<forall>n \<in> set names. nt_plain n"
    and "glob (cfg_path win_cfg) w (source_pattern win_cfg) = Inr srcs" and "src \<in> set srcs"
  shows "mesh_name_of win_cfg src \<notin> set srcs"
proof
  assume m: "mesh_name_of win_cfg src \<in> set srcs"
  obtain n where "src = nt_join (input_dir win_cfg) n" "nt_c4d_name n" "nt_plain n"
    using assms win_cfg_facts(1) by (auto elim: win_sources)
  then have "mesh_name_of win_cfg src = output_dir win_cfg @ bslash # take (length n - 4) n @ ''.boba''"
    using win_cfg_facts(2) by (simp add: win_mesh_name)
  moreover obtain n' where "mesh_name_of win_cfg src = nt_join (input_dir win_cfg) n'" "nt_plain n'"
    using assms(1,2,3) m win_cfg_facts(1) by (auto elim: win_sources)
  ultimately show False by (simp add: win_source_prefix win_dirs_differ)
qed

lemma win_source_stem:
  assumes "listdir w (input_dir win_cfg) = Some names" and "\<forall>n \<in> set names. nt_plain n"
    and "glob (cfg_path win_cfg) w (source_pattern win_cfg) = Inr srcs" and "src \<in> set srcs"
  obtains stem ext where "src = input_dir win_cfg @ bslash # stem @ ext"
    and "nt_normcase ext = ''.c4d''"
    and "mesh_name_of win_cfg src = output_dir win_cfg @ bslash # stem @ ''.boba''"
proof -
  obtain n where src: "src = nt_join (input_dir win_cfg) n" and c: "nt_c4d_name n" and p: "nt_plain n"
    using win_sources [OF assms(1,2) _ assms(4)] assms(3) win_cfg_facts(1) by metis
  have "src = input_dir win_cfg @ bslash # take (length n - 4) n @ drop (length n - 4) n"
    using src p by (simp add: win_source_prefix)
  moreover have "nt_normcase (drop (length n - 4) n) = ''.c4d''"
    using c by (simp add: nt_c4d_name_def nt_normcase_def replace_char_def py_lower_def drop_map)
  moreover have "mesh_name_of win_cfg src = output_dir win_cfg @ bslash # take (length n - 4) n @ ''.boba''"
    using src c p win_cfg_facts(2) by (simp add: win_mesh_name)
  ultimately show ?thesis by (rule that)
qed

lemma win_glob_listdir:
  "listdir w' = listdir w \<Longrightarrow> glob Ntpath w' (source_pattern win_cfg) = glob Ntpath w (source_pattern win_cfg)"
  by (simp add: win_glob)

lemma foo_glob:
  "glob Ntpath \<lparr>listdir = [input_dir win_cfg \<mapsto> [''foo.c4d'', ''notes.txt'']], mtimes = m\<rparr>
     (source_pattern win_cfg) = Inr [foo_src]"
  by (simp add: win_glob foo_facts(1) nt_c4d_name_def nt_normcase_eval)

lemma foo_upper_facts:
  "nt_c4d_name ''foo.c4d''" "nt_c4d_name ''foo.C4D''"
  "nt_normcase (bslash # ''foo.C4D'') = nt_normcase (bslash # ''foo.c4d'')"
  by code_simp+

lemma win_cfg_ok: "cfg_ok win_cfg"
  by (simp add: cfg_ok_def win_cfg_facts) (simp add: win_cfg_def)

lemma program_start_ok: "program_ok system (program_start system w t)"
  using startup_win_cfg
  by (auto simp: program_start_def startup_cases split: if_splits)

subsection \<open>Properties of the script on Windows\<close>

text \<open>
  C4: end to end on Windows, the output path the script derives for a source that
  \<open>glob\<close> takes from any directory is the configured output directory, a backslash,
  the source's base name without its extension, and \<open>.boba\<close>: it does not depend on
  the source's directory nor on the letter case of its extension.
\<close>

theorem windows_output_path:
  assumes "nt_drive_dir d" and "nt_c4d_name n" and "nt_plain n"
  shows "mesh_name_of win_cfg (nt_join d n) = output_dir win_cfg @ bslash # take (length n - 4) n @ ''.boba''"
  using assms by (rule win_mesh_name)

theorem windows_output_path_witness:
  "mesh_name_of win_cfg (nt_join (input_dir win_cfg) ''Bar.C4D'') = output_dir win_cfg @ bslash # ''Bar.boba''"
  using windows_output_path [of "input_dir win_cfg" "''Bar.C4D''"] win_cfg_facts(2)
  by (simp add: nt_c4d_name_def nt_normcase_eval nt_plain_def nt_seps_def)

text \<open>
  C8: the scenario of the specification, first scan: the input directory holds
  \<open>foo.c4d\<close> and no \<open>foo.boba\<close> exists.  The pass prints one \<open>Converting\<close> line and
  calls the converter once, with \<open>foo.c4d\<close> and \<open>foo.boba\<close> at their full paths.
\<close>

theorem windows_scenario_first_scan:
  assumes "listdir (fs s) (input_dir win_cfg) = Some names" and "filter nt_c4d_name names = [''foo.c4d'']"
    and "mtimes (fs s) foo_src = Some t1" and "mtimes (fs s) foo_mesh = None"
    and "cv [conv win_cfg, foo_src, foo_mesh] (fs s) (clock s) = Some (res, w', t')"
  shows "scan_pass cv win_cfg s =
           Inr (s\<lparr>fs := w', clock := t',
                  trace := trace s @ [Converting (clock s) foo_src foo_mesh,
                                      Called [conv win_cfg, foo_src, foo_mesh] res]\<rparr>)"
  using assms by (simp add: win_foo_scan process_one_stale_eq should_convert_iff foo_facts(2) converted_def)

theorem windows_scenario_first_scan_witness:
  "scan_pass stamp_converter win_cfg
     \<lparr>fs = \<lparr>listdir = [input_dir win_cfg \<mapsto> [''foo.c4d'']], mtimes = [foo_src \<mapsto> 1]\<rparr>, clock = 2, trace = []\<rparr> =
   Inr \<lparr>fs = \<lparr>listdir = [input_dir win_cfg \<mapsto> [''foo.c4d'']], mtimes = [foo_src \<mapsto> 1, foo_mesh \<mapsto> 2]\<rparr>,
        clock = 2::int, trace = [Converting 2 foo_src foo_mesh, Called [conv win_cfg, foo_src, foo_mesh] 0]\<rparr>"
  using windows_scenario_first_scan [of
      "\<lparr>fs = \<lparr>listdir = [input_dir win_cfg \<mapsto> [''foo.c4d'']], mtimes = [foo_src \<mapsto> 1]\<rparr>, clock = 2::int, trace = []\<rparr>"
      "[''foo.c4d'']" 1 stamp_converter 0
      "\<lparr>listdir = [input_dir win_cfg \<mapsto> [''foo.c4d'']], mtimes = [foo_src \<mapsto> 1, foo_mesh \<mapsto> 2]\<rparr>" 2]
  by (simp add: foo_facts(3,4) stamp_converter_def nt_c4d_name_def nt_normcase_eval)

text \<open>
  C9: the scenario of the specification, next scan: once \<open>foo.boba\<close> exists with a
  time later than \<open>foo.c4d\<close>'s, the pass converts nothing and changes nothing.
\<close>

theorem windows_scenario_second_scan:
  assumes "listdir (fs s) (input_dir win_cfg) = Some names" and "filter nt_c4d_name names = [''foo.c4d'']"
    and "mtimes (fs s) foo_src = Some t1" and "mtimes (fs s) foo_mesh = Some t2" and "t1 < t2"
  shows "scan_pass cv win_cfg s = Inr s"
  using assms by (simp add: win_foo_scan process_one_not_stale_eq should_convert_iff foo_facts(2))

theorem windows_scenario_second_scan_witness:
  "scan_pass stamp_converter win_cfg
     \<lparr>fs = \<lparr>listdir = [input_dir win_cfg \<mapsto> [''foo.c4d'']], mtimes = [foo_src \<mapsto> 1, foo_mesh \<mapsto> 2]\<rparr>,
      clock = 2::int, trace = []\<rparr> =
   Inr \<lparr>fs = \<lparr>listdir = [input_dir win_cfg \<mapsto> [''foo.c4d'']], mtimes = [foo_src \<mapsto> 1, foo_mesh \<mapsto> 2]\<rparr>,
        clock = 2, trace = []\<rparr>"
  using windows_scenario_second_scan [of
      "\<lparr>fs = \<lparr>listdir = [input_dir win_cfg \<mapsto> [''foo.c4d'']], mtimes = [foo_src \<mapsto> 1, foo_mesh \<mapsto> 2]\<rparr>,
        clock = 2::int, trace = []\<rparr>" "[''foo.c4d'']" 1 2 stamp_converter]
  by (simp add: foo_facts(3,4) nt_c4d_name_def nt_normcase_eval)

text \<open>
  C13: on Windows, the sources of a pass are the entries of the configured input
  directory, in listing order, that do not start with a dot and end in \<open>.c4d\<close> in
  any letter case, each joined to the directory with a backslash.
\<close>

theorem windows_scan_sources:
  assumes "listdir w (input_dir win_cfg) = Some names" and "\<forall>n \<in> set names. nt_plain n"
  shows "glob (cfg_path win_cfg) w (source_pattern win_cfg) =
           Inr (map (\<lambda>n. input_dir win_cfg @ bslash # n) (filter nt_c4d_name names))"
proof -
  have "map (nt_join (input_dir win_cfg)) (filter nt_c4d_name names) =
        map (\<lambda>n. input_dir win_cfg @ bslash # n) (filter nt_c4d_name names)"
    using assms(2) win_cfg_facts(2) by (auto simp: nt_join_drive_dir)
  then show ?thesis using assms(1) by (simp add: win_cfg_facts(1) win_glob)
qed

theorem windows_scan_sources_witness:
  "glob (cfg_path win_cfg) \<lparr>listdir = [input_dir win_cfg \<mapsto> [''foo.c4d'', ''Bar.C4D'', ''.x.c4d'', ''notes.txt'']],
                             mtimes = Map.empty\<rparr> (source_pattern win_cfg) =
     Inr [input_dir win_cfg @ bslash # ''foo.c4d'', input_dir win_cfg @ bslash # ''Bar.C4D'']"
  using windows_scan_sources [of "\<lparr>listdir = [input_dir win_cfg \<mapsto> [''foo.c4d'', ''Bar.C4D'', ''.x.c4d'', ''notes.txt'']],
                             mtimes = Map.empty\<rparr>" "[''foo.c4d'', ''Bar.C4D'', ''.x.c4d'', ''notes.txt'']"]
  by (simp add: nt_plain_def nt_seps_def nt_c4d_name_def nt_normcase_eval)

text \<open>
  C22: when the configured input directory cannot be listed (it does not exist), a
  pass finds no sources and does nothing: \<open>glob\<close> swallows the \<open>os.error\<close>, so the
  process keeps polling instead of terminating.
\<close>

theorem windows_missing_input_dir:
  assumes "listdir (fs s) (input_dir win_cfg) = None"
  shows "scan_pass cv win_cfg s = Inr s"
  using assms by (simp add: win_scan_pass_eq)

theorem windows_missing_input_dir_witness:
  "scan_pass stamp_converter win_cfg (ex_state Map.empty) = Inr (ex_state Map.empty)"
  using windows_missing_input_dir [of "ex_state Map.empty" stamp_converter] by simp


text \<open>
  C16: on Windows the converter is never asked to write over a source: the output
  path of every source of a pass is not itself a source of that pass (the outputs
  live in the output directory and end in \<open>.boba\<close>).
\<close>

theorem windows_outputs_not_sources:
  assumes "listdir w (input_dir win_cfg) = Some names" and "\<forall>n \<in> set names. nt_plain n"
    and "glob (cfg_path win_cfg) w (source_pattern win_cfg) = Inr srcs" and "src \<in> set srcs"
  shows "mesh_name_of win_cfg src \<notin> set srcs"
  using assms by (rule win_mesh_not_source)

theorem windows_outputs_not_sources_witness:
  "mesh_name_of win_cfg foo_src \<notin> set [foo_src]"
  using windows_outputs_not_sources [of "\<lparr>listdir = [input_dir win_cfg \<mapsto> [''foo.c4d'', ''notes.txt'']], mtimes = Map.empty\<rparr>"
      "[''foo.c4d'', ''notes.txt'']" "[foo_src]" foo_src]
  by (simp add: win_cfg_facts(1) foo_glob nt_plain_def nt_seps_def)

text \<open>
  C17: on Windows two sources of one pass share an output path only when their
  names are equal up to the case of letters, that is when they are the same file
  of the case-insensitive Windows file system: the output name keeps the whole
  stem of the source name and drops only the \<open>.c4d\<close> extension, whose case
  \<open>glob\<close> ignored.
\<close>

theorem windows_outputs_distinct:
  assumes "listdir w (input_dir win_cfg) = Some names" and "\<forall>n \<in> set names. nt_plain n"
    and "glob (cfg_path win_cfg) w (source_pattern win_cfg) = Inr srcs"
    and "a \<in> set srcs" and "b \<in> set srcs" and "mesh_name_of win_cfg a = mesh_name_of win_cfg b"
  shows "nt_normcase a = nt_normcase b"
proof -
  obtain sa ea where a: "a = input_dir win_cfg @ bslash # sa @ ea" "nt_normcase ea = ''.c4d''"
    "mesh_name_of win_cfg a = output_dir win_cfg @ bslash # sa @ ''.boba''"
    using win_source_stem [OF assms(1-4)] by blast
  obtain sb eb where b: "b = input_dir win_cfg @ bslash # sb @ eb" "nt_normcase eb = ''.c4d''"
    "mesh_name_of win_cfg b = output_dir win_cfg @ bslash # sb @ ''.boba''"
    using win_source_stem [OF assms(1-3,5)] by blast
  have "sa = sb" using assms(6) a(3) b(3) by simp
  have "nt_normcase a = nt_normcase (input_dir win_cfg @ bslash # sa) @ ''.c4d''"
    using a(1,2) nt_normcase_append [of "input_dir win_cfg @ bslash # sa" ea] by simp
  moreover have "nt_normcase b = nt_normcase (input_dir win_cfg @ bslash # sb) @ ''.c4d''"
    using b(1,2) nt_normcase_append [of "input_dir win_cfg @ bslash # sb" eb] by simp
  ultimately show ?thesis using \<open>sa = sb\<close> by simp
qed

theorem windows_outputs_distinct_witness:
  "nt_normcase (nt_join (input_dir win_cfg) ''foo.c4d'') = nt_normcase (nt_join (input_dir win_cfg) ''foo.C4D'')"
  using windows_outputs_distinct
    [of "\<lparr>listdir = [input_dir win_cfg \<mapsto> [''foo.c4d'', ''foo.C4D'']], mtimes = Map.empty\<rparr>"
        "[''foo.c4d'', ''foo.C4D'']"
        "[nt_join (input_dir win_cfg) ''foo.c4d'', nt_join (input_dir win_cfg) ''foo.C4D'']"
        "nt_join (input_dir win_cfg) ''foo.c4d''" "nt_join (input_dir win_cfg) ''foo.C4D''"]
  by (simp add: win_cfg_facts(1,2) win_glob win_mesh_name foo_upper_facts nt_plain_def nt_seps_def)

text \<open>
  C7: idempotence of whole scans on Windows: with a converter that writes its
  destination at the current time, and sources whose times are not in the future,
  a scan succeeds and the next scan right after it (same world) converts nothing
  and changes nothing.
\<close>

theorem windows_pass_idempotent:
  assumes "listdir (fs s) (input_dir win_cfg) = Some names" and "\<forall>n \<in> set names. nt_plain n"
    and "glob (cfg_path win_cfg) (fs s) (source_pattern win_cfg) = Inr srcs"
    and "\<forall>src \<in> set srcs. \<exists>ct. mtimes (fs s) src = Some ct \<and> ct \<le> clock s"
  shows "\<exists>s'. scan_pass stamp_converter win_cfg s = Inr s' \<and> scan_pass stamp_converter win_cfg s' = Inr s'"
proof -
  have sep: "\<forall>n \<in> set ([] @ srcs). \<forall>m \<in> set ([] @ srcs). mesh_name_of win_cfg m \<noteq> n"
    using win_mesh_not_source [OF assms(1,2,3)] by auto
  have "\<exists>s'. process_all stamp_converter win_cfg s srcs = Inr s' \<and> clock s' = clock s
           \<and> (\<forall>n \<in> set ([] @ srcs). mtimes (fs s') n = mtimes (fs s) n)
           \<and> (\<forall>m \<in> set ([] @ srcs). up_to_date (fs s') win_cfg m)"
    using assms(4) sep by (intro process_all_stamp) simp_all
  then obtain s' where p: "process_all stamp_converter win_cfg s srcs = Inr s'"
    and u: "\<forall>m \<in> set ([] @ srcs). up_to_date (fs s') win_cfg m"
    by blast
  have g: "glob Ntpath (fs s) (source_pattern win_cfg) = Inr srcs" using assms(3) win_cfg_facts(1) by simp
  have "listdir (fs s') = listdir (fs s)" using process_all_listdir [OF stamp_converter_frame p] .
  then have g': "glob Ntpath (fs s') (source_pattern win_cfg) = Inr srcs"
    using g win_glob_listdir by metis
  have "scan_pass stamp_converter win_cfg s = Inr s'" using g p by (simp add: scan_pass_def win_cfg_facts(1))
  moreover have "scan_pass stamp_converter win_cfg s' = Inr s'"
    using g' u by (simp add: scan_pass_def win_cfg_facts(1) process_all_up_to_date)
  ultimately show ?thesis by blast
qed

theorem windows_pass_idempotent_witness:
  "\<exists>s'. scan_pass stamp_converter win_cfg
          \<lparr>fs = \<lparr>listdir = [input_dir win_cfg \<mapsto> [''foo.c4d'', ''notes.txt'']], mtimes = [foo_src \<mapsto> 1]\<rparr>,
           clock = 2::int, trace = []\<rparr> = Inr s'
        \<and> scan_pass stamp_converter win_cfg s' = Inr s'"
  using windows_pass_idempotent [of
      "\<lparr>fs = \<lparr>listdir = [input_dir win_cfg \<mapsto> [''foo.c4d'', ''notes.txt'']], mtimes = [foo_src \<mapsto> 1]\<rparr>,
        clock = 2::int, trace = []\<rparr>" "[''foo.c4d'', ''notes.txt'']" "[foo_src]"]
  by (simp add: win_cfg_facts(1) foo_glob nt_plain_def nt_seps_def)

text \<open>
  C15: the loop never stops by itself (\<open>while True\<close> has no exit).  As long as a
  pass raises nothing, another pass follows: with a converter that always starts and
  changes no file but its destination, and an input directory whose \<open>.c4d\<close> sources
  can all be read, the process on Windows runs \<open>k\<close> passes for every \<open>k\<close> and is
  still running after them (here the sleeps leave the world as it was).
\<close>

theorem windows_loop_runs_forever:
  assumes "conv_frame cv" and "listdir (fs s) (input_dir win_cfg) = Some names"
    and "\<forall>n \<in> set names. nt_plain n"
    and "\<forall>n \<in> set names. nt_c4d_name n \<longrightarrow> mtimes (fs s) (input_dir win_cfg @ bslash # n) \<noteq> None"
  shows "\<exists>s'. (loop_step cv win_cfg ^^ k) (Running s) (Running s')"
proof (rule loop_runs [where I = "\<lambda>s. listdir (fs s) (input_dir win_cfg) = Some names \<and>
     (\<forall>n \<in> set names. nt_c4d_name n \<longrightarrow> mtimes (fs s) (nt_join (input_dir win_cfg) n) \<noteq> None)"])
  show "listdir (fs s) (input_dir win_cfg) = Some names \<and>
     (\<forall>n \<in> set names. nt_c4d_name n \<longrightarrow> mtimes (fs s) (nt_join (input_dir win_cfg) n) \<noteq> None)"
  proof (intro conjI ballI impI)
    fix n assume "n \<in> set names" and "nt_c4d_name n"
    then show "mtimes (fs s) (nt_join (input_dir win_cfg) n) \<noteq> None"
      using assms(3,4) win_source_prefix [of n] by auto
  qed (rule assms(2))
next
  fix s :: "'a state"
  assume r: "listdir (fs s) (input_dir win_cfg) = Some names \<and>
     (\<forall>n \<in> set names. nt_c4d_name n \<longrightarrow> mtimes (fs s) (nt_join (input_dir win_cfg) n) \<noteq> None)"
  let ?srcs = "map (nt_join (input_dir win_cfg)) (filter nt_c4d_name names)"
  have ld: "listdir (fs s) (input_dir win_cfg) = Some names" using r by simp
  have g: "glob (cfg_path win_cfg) (fs s) (source_pattern win_cfg) = Inr ?srcs"
    using ld by (simp add: win_cfg_facts(1) win_glob)
  have rd: "\<forall>n \<in> set ?srcs. mtimes (fs s) n \<noteq> None" using r by auto
  have sep: "\<forall>n \<in> set ?srcs. \<forall>m \<in> set ?srcs. mesh_name_of win_cfg m \<noteq> n"
    using win_mesh_not_source [OF ld assms(3) g] by blast
  obtain s' where p: "process_all cv win_cfg s ?srcs = Inr s'"
    and l: "listdir (fs s') = listdir (fs s)"
    and m: "\<forall>p. p \<notin> mesh_name_of win_cfg ` set ?srcs \<longrightarrow> mtimes (fs s') p = mtimes (fs s) p"
    using process_all_frame [OF assms(1) rd sep] by blast
  have "\<forall>n \<in> set ?srcs. mtimes (fs s') n = mtimes (fs s) n"
  proof
    fix n assume "n \<in> set ?srcs"
    then have "n \<notin> mesh_name_of win_cfg ` set ?srcs" using sep by (auto simp only: image_iff)
    then show "mtimes (fs s') n = mtimes (fs s) n" using m by simp
  qed
  then have "listdir (fs s') (input_dir win_cfg) = Some names \<and>
     (\<forall>n \<in> set names. nt_c4d_name n \<longrightarrow> mtimes (fs s') (nt_join (input_dir win_cfg) n) \<noteq> None)"
    using r l by simp
  moreover have "scan_pass cv win_cfg s = Inr s'" using p ld by (simp add: win_scan_pass_eq)
  ultimately show "\<exists>s'. scan_pass cv win_cfg s = Inr s' \<and>
     (listdir (fs (sleep_step s' (fs s') (clock s'))) (input_dir win_cfg) = Some names \<and>
      (\<forall>n \<in> set names. nt_c4d_name n \<longrightarrow>
         mtimes (fs (sleep_step s' (fs s') (clock s'))) (nt_join (input_dir win_cfg) n) \<noteq> None))"
    by (simp add: sleep_step_def)
qed

theorem windows_loop_runs_forever_witness:
  "\<exists>s'. (loop_step stamp_converter win_cfg ^^ 2)
     (Running \<lparr>fs = \<lparr>listdir = [input_dir win_cfg \<mapsto> [''foo.c4d'', ''notes.txt'']], mtimes = [foo_src \<mapsto> 3]\<rparr>,
               clock = 5 :: int, trace = []\<rparr>) (Running s')"
  using windows_loop_runs_forever [of stamp_converter
      "\<lparr>fs = \<lparr>listdir = [input_dir win_cfg \<mapsto> [''foo.c4d'', ''notes.txt'']], mtimes = [foo_src \<mapsto> 3]\<rparr>,
        clock = 5 :: int, trace = []\<rparr>" "[''foo.c4d'', ''notes.txt'']" 2]
  by (simp add: stamp_converter_frame nt_plain_def nt_seps_def foo_src_def nt_c4d_name_def nt_normcase_eval)

text \<open>
  C18: every state the whole program can reach is one the platform allows: off
  Windows the process has ended at start-up with exit status 1 without reaching the
  loop; on Windows it runs the loop with the configuration \<open>win_cfg\<close>, and if it
  ever stops it has crashed with \<open>OSError\<close>.
\<close>

theorem program_outcomes:
  assumes "program_reach cv system q"
  shows "program_ok system q"
  using assms
proof (induction rule: program_reach.induct)
  case (init w t)
  then show ?case by (rule program_start_ok)
next
  case (run c p q)
  then have "system = ''Windows''" "c = win_cfg" by (cases p; simp)+
  with run.hyps(2) show ?case
    by (cases rule: loop_step.cases) (auto dest: scan_pass_raises_oserror [OF win_cfg_ok])
qed

theorem program_outcomes_witness:
  "program_ok ''Linux'' (program_start ''Linux'' \<lparr>listdir = Map.empty, mtimes = Map.empty\<rparr> (0::int))"
  using program_outcomes [OF program_reach.init [of stamp_converter]] .

end
